theory Spec2Isabelle
  imports Complex_Main "HOL-Library.Multiset"
begin

section \<open>Four mini-games on the line y = ax + b: a model of App.tsx\<close>

text \<open>
  The application is one React module. Its logic is: a helper that shuffles an array, a hook
  that asks a remote service for feedback text, and four game components, each with a
  question generator driven by \<^verbatim>\<open>Math.random()\<close>, an answer handler and (for two of
  them) a countdown.

  Conventions of the model.
  \<^item> JavaScript numbers that the program only ever adds and multiplies as small integers
    are \<^typ>\<open>int\<close>; a value of \<^verbatim>\<open>Math.random()\<close> is a \<^typ>\<open>real\<close>, and
    \<^verbatim>\<open>Math.floor(Math.random() * n)\<close> is the floor of the exact product. (The rounded
    product of a number below 1 with \<open>n\<close> stays below \<open>n\<close>, and every draw is used once,
    so a run with rounding is the run of the model on some other draws.)
  \<^item> Strings are byte lists holding the UTF-8 encoding of the source's text; the program
    only builds strings and compares them for equality.
  \<^item> A component's state is a record of its \<^verbatim>\<open>useState\<close> cells; an event handler is a
    function from the state of the last render to the next state.
\<close>

subsection \<open>Numbers in template literals\<close>

definition digit :: "nat \<Rightarrow> char" where
  "digit d = char_of (48 + d)"

fun natToString :: "nat \<Rightarrow> string" where
  "natToString n = (if n < 10 then [digit n] else natToString (n div 10) @ [digit (n mod 10)])"

declare natToString.simps [simp del]

text \<open>\<^verbatim>\<open>`${n}`\<close> for an integer-valued number: decimal digits, a minus sign when negative.\<close>

definition intToString :: "int \<Rightarrow> string" where
  "intToString n = (if n < 0 then ''-'' @ natToString (nat (- n)) else natToString (nat n))"

text \<open>
  The quotient of two integer-valued numbers. Division by zero does not raise in JavaScript:
  it yields an infinity or NaN. A quotient that is not an integer is a binary fraction whose
  decimal expansion is not modelled.
\<close>

datatype number = Integer int | Fraction int int | Infinity | NegInfinity | NaN

definition divide_num :: "int \<Rightarrow> int \<Rightarrow> number" where
  "divide_num p q =
     (if q = 0 then (if p > 0 then Infinity else if p < 0 then NegInfinity else NaN)
      else if q dvd p then Integer (p div q)
      else Fraction p q)"

fun numberToString :: "number \<Rightarrow> string option" where
  "numberToString (Integer n) = Some (intToString n)"
| "numberToString (Fraction p q) = None"
| "numberToString Infinity = Some ''Infinity''"
| "numberToString NegInfinity = Some ''-Infinity''"
| "numberToString NaN = Some ''NaN''"

subsection \<open>The random source\<close>

text \<open>
  \<open>g k\<close> is the value the \<open>k\<close>-th call of \<^verbatim>\<open>Math.random()\<close> returns; a computation
  that draws takes the position of its first draw and returns the position after its last.
  \<^verbatim>\<open>Math.random()\<close> returns a number in the half-open interval from 0 to 1.
\<close>

type_synonym rng = "nat \<Rightarrow> real"

definition valid_rng :: "rng \<Rightarrow> bool" where
  "valid_rng g = (\<forall>k. 0 \<le> g k \<and> g k < 1)"

text \<open>The stream that starts with the listed values and continues with zeros.\<close>

definition draws :: "real list \<Rightarrow> rng" where
  "draws rs k = (if k < length rs then rs ! k else 0)"

subsection \<open>shuffleArray\<close>

text \<open>
  \<^verbatim>\<open>[...array].sort(() => Math.random() - 0.5)\<close>: a copy of the array is sorted with a
  comparator that ignores its arguments. The call of the comparator that takes draw \<open>k\<close>
  returns this number.
\<close>

definition comparefn :: "rng \<Rightarrow> nat \<Rightarrow> real" where
  "comparefn g k = g k - 1 / 2"

text \<open>
  \<^verbatim>\<open>Array.prototype.sort\<close> belongs to the platform, and with such a comparator the
  language leaves the order to the implementation. The model follows V8, the engine of
  Chrome and Node.js, whose sort is TimSort. An array of fewer than two elements is
  returned without a call of the comparator. An array of fewer than 64 elements is sorted as
  one run: \<^verbatim>\<open>CountAndMakeRun\<close> compares each element with the one before it for as long
  as the order of the first pair goes on, and reverses the run when that order is
  descending; \<^verbatim>\<open>BinaryInsertionSort\<close> then puts each further element into the sorted part
  at the place a binary search finds. An array of 64 elements or more is cut into several
  runs that are merged; that path is not part of the model, and what is proved of
  \<open>shuffleArray\<close> is stated for shorter arrays. The program shuffles four options.
\<close>

text \<open>
  The loop of \<^verbatim>\<open>CountAndMakeRun\<close>: \<open>todo\<close> elements are left to look at, and the run
  found so far has \<open>runLength\<close> elements. A descending run ends at the first order that is
  not negative, an ascending run at the first negative one.
\<close>

fun countRun :: "rng \<Rightarrow> bool \<Rightarrow> nat \<Rightarrow> nat \<Rightarrow> nat \<Rightarrow> nat \<times> nat" where
  "countRun g isDescending 0 runLength i = (runLength, i)"
| "countRun g isDescending (Suc todo) runLength i =
     (let order = comparefn g i
      in if isDescending then
           (if order \<ge> 0 then (runLength, Suc i)
            else countRun g isDescending todo (Suc runLength) (Suc i))
         else
           (if order < 0 then (runLength, Suc i)
            else countRun g isDescending todo (Suc runLength) (Suc i)))"

text \<open>
  \<^verbatim>\<open>CountAndMakeRun\<close> on an array of at least two elements: the first order decides
  whether the run descends; the result is the array with the run in ascending order, and
  the length of the run.
\<close>

definition countAndMakeRun :: "rng \<Rightarrow> 'a list \<Rightarrow> nat \<Rightarrow> ('a list \<times> nat) \<times> nat" where
  "countAndMakeRun g workArray i =
     (let order = comparefn g i;
          isDescending = (order < 0)
      in case countRun g isDescending (length workArray - 2) 2 (Suc i) of
           (runLength, j) \<Rightarrow>
             ((if isDescending
               then rev (take runLength workArray) @ drop runLength workArray
               else workArray, runLength), j))"

text \<open>
  The binary search of \<^verbatim>\<open>BinaryInsertionSort\<close>: while \<open>left < right\<close>, the pivot is
  compared with the element in the middle; a negative order moves \<open>right\<close> to the middle,
  any other order moves \<open>left\<close> past it.
\<close>

function searchLeft :: "rng \<Rightarrow> nat \<Rightarrow> nat \<Rightarrow> nat \<Rightarrow> nat \<times> nat" where
  "searchLeft g left right i =
     (if left < right then
        (let mid = left + (right - left) div 2
         in if comparefn g i < 0 then searchLeft g left mid (Suc i)
            else searchLeft g (mid + 1) right (Suc i))
      else (left, i))"
  by pat_completeness auto
termination
  by (relation "measure (\<lambda>(g, left, right, i). right - left)") auto

declare searchLeft.simps [simp del]

text \<open>
  The pivot at index \<open>start\<close> goes to index \<open>left\<close>; the elements from \<open>left\<close> up to
  \<open>start\<close> move one place to the right.
\<close>

definition moveTo :: "'a list \<Rightarrow> nat \<Rightarrow> nat \<Rightarrow> 'a list" where
  "moveTo workArray left start =
     take left workArray @ [workArray ! start] @ drop left (take start workArray)
       @ drop (Suc start) workArray"

text \<open>
  \<^verbatim>\<open>BinaryInsertionSort\<close> with \<open>low = 0\<close>: the elements before \<open>start\<close> are sorted,
  \<open>todo\<close> elements are left to put in.
\<close>

fun binaryInsertionSort :: "rng \<Rightarrow> nat \<Rightarrow> nat \<Rightarrow> 'a list \<Rightarrow> nat \<Rightarrow> 'a list \<times> nat" where
  "binaryInsertionSort g 0 start workArray i = (workArray, i)"
| "binaryInsertionSort g (Suc todo) start workArray i =
     (case searchLeft g 0 start i of
        (left, j) \<Rightarrow> binaryInsertionSort g todo (Suc start) (moveTo workArray left start) j)"

definition arrayTimSort :: "rng \<Rightarrow> 'a list \<Rightarrow> nat \<Rightarrow> 'a list \<times> nat" where
  "arrayTimSort g workArray i =
     (if length workArray < 2 then (workArray, i)
      else case countAndMakeRun g workArray i of
             ((run, runLength), j) \<Rightarrow>
               binaryInsertionSort g (length workArray - runLength) runLength run j)"

definition shuffleArray :: "rng \<Rightarrow> 'a list \<Rightarrow> nat \<Rightarrow> 'a list \<times> nat" where
  "shuffleArray g array i = arrayTimSort g array i"



subsection \<open>The feedback hook (useAIFeedback)\<close>

text \<open>
  The hook owns a message with its classification and a loading flag. The client \<^verbatim>\<open>ai\<close>
  exists exactly when the configured key is neither absent nor empty.
\<close>

datatype verdict = Correct | Incorrect

fun verdictString :: "verdict \<Rightarrow> string" where
  "verdictString Correct = ''correct''"
| "verdictString Incorrect = ''incorrect''"

record feedback_value =
  message :: string
  type :: string

record hook =
  feedback :: feedback_value
  isLoading :: bool

definition initialHook :: hook where
  "initialHook = \<lparr>feedback = \<lparr>message = [], type = []\<rparr>, isLoading = False\<rparr>"

definition ai_client :: "string option \<Rightarrow> bool" where
  "ai_client API_KEY = (case API_KEY of None \<Rightarrow> False | Some key \<Rightarrow> key \<noteq> [])"

fun fallbackMessage :: "verdict \<Rightarrow> string" where
  "fallbackMessage Correct =
     ''Ch'' @ [CHR 0xC3, CHR 0xAD] @ ''nh x'' @ [CHR 0xC3, CHR 0xA1] @ ''c! L''
     @ [CHR 0xC3, CHR 0xA0] @ ''m t'' @ [CHR 0xE1, CHR 0xBB, CHR 0x91] @ ''t l''
     @ [CHR 0xE1, CHR 0xBA, CHR 0xAF] @ ''m!''"
| "fallbackMessage Incorrect =
     ''Kh'' @ [CHR 0xC3, CHR 0xB4] @ ''ng '' @ [CHR 0xC4, CHR 0x91, CHR 0xC3, CHR 0xBA]
     @ ''ng r'' @ [CHR 0xE1, CHR 0xBB, CHR 0x93] @ ''i. C'' @ [CHR 0xE1, CHR 0xBB, CHR 0x91]
     @ '' g'' @ [CHR 0xE1, CHR 0xBA, CHR 0xAF] @ ''ng l'' @ [CHR 0xE1, CHR 0xBA, CHR 0xA1]
     @ ''i nh'' @ [CHR 0xC3, CHR 0xA9] @ ''!''"

text \<open>
  What \<^verbatim>\<open>await ai.models.generateContent(...)\<close> does: it yields a response whose text is
  read, or it throws.
\<close>

datatype error = RemoteError

datatype response = Text string | Throws error

text \<open>
  \<open>getFeedback\<close> up to its \<^verbatim>\<open>await\<close>. Without a client the fallback is stored and the
  function returns; otherwise the loading flag is raised and the message cleared.
\<close>

definition beforeAwait :: "bool \<Rightarrow> verdict \<Rightarrow> hook \<Rightarrow> hook" where
  "beforeAwait ai t h =
     (if \<not> ai
      then h\<lparr>feedback := \<lparr>message = fallbackMessage t, type = verdictString t\<rparr>\<rparr>
      else h\<lparr>isLoading := True, feedback := \<lparr>message = [], type = verdictString t\<rparr>\<rparr>)"

text \<open>The body of \<^verbatim>\<open>try\<close> after the call has settled: a thrown error leaves the block.\<close>

definition tryBlock :: "response \<Rightarrow> verdict \<Rightarrow> hook \<Rightarrow> error + hook" where
  "tryBlock r t h =
     (case r of
        Throws e \<Rightarrow> Inl e
      | Text text \<Rightarrow> Inr (h\<lparr>feedback := \<lparr>message = text, type = verdictString t\<rparr>\<rparr>))"

text \<open>\<^verbatim>\<open>try\<close>, \<^verbatim>\<open>catch\<close>, \<^verbatim>\<open>finally\<close>: the handler stores the fallback, and the loading
  flag is lowered on both paths.\<close>

definition afterAwait :: "response \<Rightarrow> verdict \<Rightarrow> hook \<Rightarrow> error + hook" where
  "afterAwait r t h =
     (case tryBlock r t h of
        Inl e \<Rightarrow>
          Inr (h\<lparr>feedback := \<lparr>message = fallbackMessage t, type = verdictString t\<rparr>,
                 isLoading := False\<rparr>)
      | Inr h' \<Rightarrow> Inr (h'\<lparr>isLoading := False\<rparr>))"

text \<open>
  The whole call, given how the remote call will settle: \<open>Inr\<close> is the hook's state when
  the promise fulfils, \<open>Inl\<close> would be a rejection reaching the caller.
\<close>

definition getFeedback :: "bool \<Rightarrow> response \<Rightarrow> string \<Rightarrow> verdict \<Rightarrow> hook \<Rightarrow> error + hook" where
  "getFeedback ai r prompt t h =
     (if \<not> ai then Inr (beforeAwait ai t h) else afterAwait r t (beforeAwait ai t h))"

definition resetFeedback :: "hook \<Rightarrow> hook" where
  "resetFeedback h = h\<lparr>feedback := \<lparr>message = [], type = []\<rparr>\<rparr>"

subsection \<open>What the four components share\<close>

text \<open>
  Every game keeps a score, the flag that locks a judged question, and the hook. Next to
  these cells the record holds what the component has handed to the platform: the calls of
  \<open>getFeedback\<close> that wait at their \<^verbatim>\<open>await\<close> (prompt and classification, oldest first)
  and the position in the random source.
\<close>

record component =
  score :: int
  isAnswered :: bool
  aiFeedback :: hook
  awaiting :: "(string \<times> verdict) list"
  cursor :: nat

text \<open>A handler calls \<open>getFeedback\<close>: the part before the \<^verbatim>\<open>await\<close> runs at once.\<close>

definition callGetFeedback :: "bool \<Rightarrow> string \<Rightarrow> verdict \<Rightarrow> 'a component_scheme \<Rightarrow> 'a component_scheme" where
  "callGetFeedback ai prompt t s =
     s\<lparr>aiFeedback := beforeAwait ai t (aiFeedback s),
       awaiting := (if ai then awaiting s @ [(prompt, t)] else awaiting s)\<rparr>"

text \<open>The remote call of the \<open>k\<close>-th waiting \<open>getFeedback\<close> settles.\<close>

definition settle :: "nat \<Rightarrow> response \<Rightarrow> 'a component_scheme \<Rightarrow> 'a component_scheme" where
  "settle k r s =
     (if k < length (awaiting s)
      then (case afterAwait r (snd (awaiting s ! k)) (aiFeedback s) of
              Inl e \<Rightarrow> s
            | Inr h \<Rightarrow> s\<lparr>aiFeedback := h, awaiting := take k (awaiting s) @ drop (Suc k) (awaiting s)\<rparr>)
      else s)"

subsection \<open>Game 1: DienBangGiaTriNhanh\<close>

record coefficients =
  q_a :: int
  q_b :: int

record question1 = coefficients +
  q_x :: int
  q_y :: int

record game1 = component +
  question :: "question1 option"
  timeLeft :: int
  inputValue :: string
  scheduled :: nat

text \<open>The draws of \<open>generateQuestion\<close>; \<^verbatim>\<open>v || 1\<close> replaces a zero by 1.\<close>

definition drawQuestion1 :: "rng \<Rightarrow> nat \<Rightarrow> question1 \<times> nat" where
  "drawQuestion1 g i =
     (let a0 = \<lfloor>g i * 19\<rfloor> - 9;
          a = (if a0 = 0 then 1 else a0);
          b = \<lfloor>g (i + 1) * 19\<rfloor> - 9;
          x = \<lfloor>g (i + 2) * 11\<rfloor> - 5;
          y = a * x + b
      in (\<lparr>q_a = a, q_b = b, q_x = x, q_y = y\<rparr>, i + 3))"

definition generateQuestion1 :: "rng \<Rightarrow> game1 \<Rightarrow> game1" where
  "generateQuestion1 g s =
     (case drawQuestion1 g (cursor s) of
        (q, j) \<Rightarrow>
          s\<lparr>aiFeedback := resetFeedback (aiFeedback s), game1.question := Some q,
            inputValue := [], isAnswered := False, game1.timeLeft := 15, cursor := j\<rparr>)"

text \<open>
  \<^verbatim>\<open>parseInt(inputValue, 10)\<close>: leading white space is skipped, a sign is read, then the
  longest run of decimal digits; without a digit the result is NaN, here \<open>None\<close>. The
  result is compared with the small integer \<open>y\<close> only, so the rounding of a long run of
  digits to a floating-point number, which never yields a small integer, is left out.

  White space and line terminators are the ASCII ones and, in UTF-8, U+00A0, U+1680, U+2000
  to U+200A, U+2028, U+2029, U+202F, U+205F, U+3000 and U+FEFF.
\<close>

definition isAsciiWhiteSpace :: "char \<Rightarrow> bool" where
  "isAsciiWhiteSpace ch = (ch \<in> {CHR 0x09, CHR 0x0A, CHR 0x0B, CHR 0x0C, CHR 0x0D, CHR 0x20})"

definition isWhiteSpace2 :: "char \<Rightarrow> char \<Rightarrow> bool" where
  "isWhiteSpace2 c1 c2 = (c1 = CHR 0xC2 \<and> c2 = CHR 0xA0)"

definition isWhiteSpace3 :: "char \<Rightarrow> char \<Rightarrow> char \<Rightarrow> bool" where
  "isWhiteSpace3 c1 c2 c3 =
     ((c1 = CHR 0xE1 \<and> c2 = CHR 0x9A \<and> c3 = CHR 0x80)
      \<or> (c1 = CHR 0xE2 \<and> c2 = CHR 0x80
          \<and> ((0x80 \<le> (of_char c3 :: nat) \<and> (of_char c3 :: nat) \<le> 0x8A)
              \<or> c3 \<in> {CHR 0xA8, CHR 0xA9, CHR 0xAF}))
      \<or> (c1 = CHR 0xE2 \<and> c2 = CHR 0x81 \<and> c3 = CHR 0x9F)
      \<or> (c1 = CHR 0xE3 \<and> c2 = CHR 0x80 \<and> c3 = CHR 0x80)
      \<or> (c1 = CHR 0xEF \<and> c2 = CHR 0xBB \<and> c3 = CHR 0xBF))"

fun trimStart :: "string \<Rightarrow> string" where
  "trimStart (c1 # c2 # c3 # cs) =
     (if isAsciiWhiteSpace c1 then trimStart (c2 # c3 # cs)
      else if isWhiteSpace2 c1 c2 then trimStart (c3 # cs)
      else if isWhiteSpace3 c1 c2 c3 then trimStart cs
      else c1 # c2 # c3 # cs)"
| "trimStart [c1, c2] =
     (if isAsciiWhiteSpace c1 then trimStart [c2]
      else if isWhiteSpace2 c1 c2 then []
      else [c1, c2])"
| "trimStart [c1] = (if isAsciiWhiteSpace c1 then [] else [c1])"
| "trimStart [] = []"

definition isDigit :: "char \<Rightarrow> bool" where
  "isDigit ch = (48 \<le> (of_char ch :: nat) \<and> (of_char ch :: nat) \<le> 57)"

definition digitsValue :: "string \<Rightarrow> nat" where
  "digitsValue ds = foldl (\<lambda>n ch. 10 * n + (of_char ch - 48)) 0 ds"

definition parseInt :: "string \<Rightarrow> int option" where
  "parseInt input =
     (let s = trimStart input;
          negative = (s \<noteq> [] \<and> hd s = CHR ''-'');
          s' = (if s \<noteq> [] \<and> (hd s = CHR ''-'' \<or> hd s = CHR ''+'') then tl s else s);
          ds = takeWhile isDigit s'
      in if ds = [] then None
         else Some ((if negative then - 1 else 1) * int (digitsValue ds)))"

definition timeoutText :: string where
  "timeoutText = ''h'' @ [CHR 0xE1, CHR 0xBA, CHR 0xBF] @ ''t gi'' @ [CHR 0xE1, CHR 0xBB, CHR 0x9D]"

definition promptCorrect1 :: "question1 \<Rightarrow> string" where
  "promptCorrect1 q =
     ''M'' @ [CHR 0xE1, CHR 0xBB, CHR 0x99] @ ''t h'' @ [CHR 0xE1, CHR 0xBB, CHR 0x8D]
     @ ''c sinh l'' @ [CHR 0xE1, CHR 0xBB, CHR 0x9B] @ ''p 8 ''
     @ [CHR 0xC4, CHR 0x91, CHR 0xC3, CHR 0xA3] @ '' tr'' @ [CHR 0xE1, CHR 0xBA, CHR 0xA3]
     @ '' l'' @ [CHR 0xE1, CHR 0xBB, CHR 0x9D] @ ''i ''
     @ [CHR 0xC4, CHR 0x91, CHR 0xC3, CHR 0xBA] @ ''ng c'' @ [CHR 0xC3, CHR 0xA2] @ ''u h''
     @ [CHR 0xE1, CHR 0xBB, CHR 0x8F] @ ''i v'' @ [CHR 0xE1, CHR 0xBB, CHR 0x81] @ '' h''
     @ [CHR 0xC3, CHR 0xA0] @ ''m s'' @ [CHR 0xE1, CHR 0xBB, CHR 0x91] @ '' b''
     @ [CHR 0xE1, CHR 0xBA, CHR 0xAD] @ ''c nh'' @ [CHR 0xE1, CHR 0xBA, CHR 0xA5] @ ''t. C''
     @ [CHR 0xC3, CHR 0xA2] @ ''u h'' @ [CHR 0xE1, CHR 0xBB, CHR 0x8F] @ ''i: V''
     @ [CHR 0xE1, CHR 0xBB, CHR 0x9B] @ ''i h'' @ [CHR 0xC3, CHR 0xA0] @ ''m s''
     @ [CHR 0xE1, CHR 0xBB, CHR 0x91] @ '' y='' @ intToString (q_a q) @ ''x + ''
     @ intToString (q_b q) @ '', khi x='' @ intToString (q_x q) @ '' th''
     @ [CHR 0xC3, CHR 0xAC] @ '' y b'' @ [CHR 0xE1, CHR 0xBA, CHR 0xB1] @ ''ng bao nhi''
     @ [CHR 0xC3, CHR 0xAA] @ ''u? ('' @ [CHR 0xC4, CHR 0x90, CHR 0xC3, CHR 0xA1] @ ''p ''
     @ [CHR 0xC3, CHR 0xA1] @ ''n '' @ [CHR 0xC4, CHR 0x91, CHR 0xC3, CHR 0xBA] @ ''ng: ''
     @ intToString (q_y q) @ ''). H'' @ [CHR 0xC3, CHR 0xA3] @ ''y ''
     @ [CHR 0xC4, CHR 0x91, CHR 0xC6, CHR 0xB0] @ ''a ra m''
     @ [CHR 0xE1, CHR 0xBB, CHR 0x99] @ ''t l'' @ [CHR 0xE1, CHR 0xBB, CHR 0x9D]
     @ ''i khen ng'' @ [CHR 0xE1, CHR 0xBA, CHR 0xAF] @ ''n g''
     @ [CHR 0xE1, CHR 0xBB, CHR 0x8D] @ ''n v'' @ [CHR 0xC3, CHR 0xA0] @ '' vui v''
     @ [CHR 0xE1, CHR 0xBA, CHR 0xBB] @ ''.''"

definition promptIncorrect1 :: "question1 \<Rightarrow> string \<Rightarrow> string" where
  "promptIncorrect1 q answered =
     ''M'' @ [CHR 0xE1, CHR 0xBB, CHR 0x99] @ ''t h'' @ [CHR 0xE1, CHR 0xBB, CHR 0x8D]
     @ ''c sinh l'' @ [CHR 0xE1, CHR 0xBB, CHR 0x9B] @ ''p 8 tr''
     @ [CHR 0xE1, CHR 0xBA, CHR 0xA3] @ '' l'' @ [CHR 0xE1, CHR 0xBB, CHR 0x9D]
     @ ''i SAI c'' @ [CHR 0xC3, CHR 0xA2] @ ''u h'' @ [CHR 0xE1, CHR 0xBB, CHR 0x8F]
     @ ''i v'' @ [CHR 0xE1, CHR 0xBB, CHR 0x81] @ '' h'' @ [CHR 0xC3, CHR 0xA0] @ ''m s''
     @ [CHR 0xE1, CHR 0xBB, CHR 0x91] @ '' b'' @ [CHR 0xE1, CHR 0xBA, CHR 0xAD] @ ''c nh''
     @ [CHR 0xE1, CHR 0xBA, CHR 0xA5] @ ''t. C'' @ [CHR 0xC3, CHR 0xA2] @ ''u h''
     @ [CHR 0xE1, CHR 0xBB, CHR 0x8F] @ ''i: V'' @ [CHR 0xE1, CHR 0xBB, CHR 0x9B] @ ''i h''
     @ [CHR 0xC3, CHR 0xA0] @ ''m s'' @ [CHR 0xE1, CHR 0xBB, CHR 0x91] @ '' y=''
     @ intToString (q_a q) @ ''x + '' @ intToString (q_b q) @ '', khi x=''
     @ intToString (q_x q) @ '' th'' @ [CHR 0xC3, CHR 0xAC] @ '' y b''
     @ [CHR 0xE1, CHR 0xBA, CHR 0xB1] @ ''ng bao nhi'' @ [CHR 0xC3, CHR 0xAA] @ ''u? (''
     @ [CHR 0xC4, CHR 0x90, CHR 0xC3, CHR 0xA1] @ ''p '' @ [CHR 0xC3, CHR 0xA1] @ ''n ''
     @ [CHR 0xC4, CHR 0x91, CHR 0xC3, CHR 0xBA] @ ''ng: '' @ intToString (q_y q) @ '', h''
     @ [CHR 0xE1, CHR 0xBB, CHR 0x8D] @ ''c sinh tr'' @ [CHR 0xE1, CHR 0xBA, CHR 0xA3]
     @ '' l'' @ [CHR 0xE1, CHR 0xBB, CHR 0x9D] @ ''i: '' @ answered @ ''). H''
     @ [CHR 0xC3, CHR 0xA3] @ ''y '' @ [CHR 0xC4, CHR 0x91, CHR 0xC6, CHR 0xB0] @ ''a ra m''
     @ [CHR 0xE1, CHR 0xBB, CHR 0x99] @ ''t g'' @ [CHR 0xE1, CHR 0xBB, CHR 0xA3] @ ''i ''
     @ [CHR 0xC3, CHR 0xBD] @ '' r'' @ [CHR 0xE1, CHR 0xBA, CHR 0xA5] @ ''t ng''
     @ [CHR 0xE1, CHR 0xBA, CHR 0xAF] @ ''n g'' @ [CHR 0xE1, CHR 0xBB, CHR 0x8D] @ ''n, t''
     @ [CHR 0xE1, CHR 0xBA, CHR 0xAD] @ ''p trung v'' @ [CHR 0xC3, CHR 0xA0] @ ''o c''
     @ [CHR 0xC3, CHR 0xA1] @ ''ch t'' @ [CHR 0xC3, CHR 0xAD] @ ''nh to''
     @ [CHR 0xC3, CHR 0xA1] @ ''n, v'' @ [CHR 0xC3, CHR 0xAD] @ '' d''
     @ [CHR 0xE1, CHR 0xBB, CHR 0xA5] @ '' '' @ [CHR 0x22] @ ''B''
     @ [CHR 0xE1, CHR 0xBA, CHR 0xA1] @ ''n h'' @ [CHR 0xC3, CHR 0xA3] @ ''y th''
     @ [CHR 0xE1, CHR 0xBB, CHR 0xAD] @ '' nh'' @ [CHR 0xC3, CHR 0xA2] @ ''n ''
     @ intToString (q_a q) @ '' v'' @ [CHR 0xE1, CHR 0xBB, CHR 0x9B] @ ''i ''
     @ intToString (q_x q) @ '' tr'' @ [CHR 0xC6, CHR 0xB0, CHR 0xE1, CHR 0xBB, CHR 0x9B]
     @ ''c nh'' @ [CHR 0xC3, CHR 0xA9] @ ''!'' @ [CHR 0x22] @ '' ho''
     @ [CHR 0xE1, CHR 0xBA, CHR 0xB7] @ ''c ''
     @ [CHR 0x22, CHR 0xC4, CHR 0x90, CHR 0xE1, CHR 0xBB, CHR 0xAB] @ ''ng qu''
     @ [CHR 0xC3, CHR 0xAA] @ ''n c'' @ [CHR 0xE1, CHR 0xBB, CHR 0x99] @ ''ng th''
     @ [CHR 0xC3, CHR 0xAA] @ ''m '' @ intToString (q_b q) @ '' sau khi nh''
     @ [CHR 0xC3, CHR 0xA2] @ ''n!'' @ [CHR 0x22] @ ''.''"

text \<open>
  \<open>handleSubmit\<close>. The guard comes first; a timeout is never correct, whatever the input
  field holds. The handler ends by scheduling \<open>generateQuestion\<close>.
\<close>

definition handleSubmit :: "bool \<Rightarrow> bool \<Rightarrow> game1 \<Rightarrow> game1" where
  "handleSubmit ai isTimeout s =
     (if isAnswered s then s
      else case game1.question s of
        None \<Rightarrow> s
      | Some q \<Rightarrow>
          (let userAnswer = parseInt (inputValue s);
               isCorrect = (\<not> isTimeout \<and> userAnswer = Some (q_y q));
               s1 = s\<lparr>isAnswered := True\<rparr>;
               s2 = (if isCorrect
                     then callGetFeedback ai (promptCorrect1 q) Correct
                            (s1\<lparr>score := score s1 + 10\<rparr>)
                     else callGetFeedback ai
                            (promptIncorrect1 q (if isTimeout then timeoutText else inputValue s))
                            Incorrect s1)
           in s2\<lparr>game1.scheduled := game1.scheduled s2 + 1\<rparr>))"

text \<open>
  The countdown effect: idle once the question is answered; with time left it lets a second
  pass; at zero it submits as a timeout.
\<close>

definition timerEffect1 :: "bool \<Rightarrow> game1 \<Rightarrow> game1" where
  "timerEffect1 ai s =
     (if isAnswered s then s
      else if game1.timeLeft s > 0 then s\<lparr>game1.timeLeft := game1.timeLeft s - 1\<rparr>
      else handleSubmit ai True s)"

definition initial1 :: game1 where
  "initial1 =
     \<lparr>score = 0, isAnswered = False, aiFeedback = initialHook, awaiting = [], cursor = 0,
      question = None, timeLeft = 15, inputValue = [], scheduled = 0\<rparr>"

text \<open>
  What can happen to a mounted component: the input field changes, the form is submitted,
  an option is chosen (by its text in games 2 and 3, by its index in game 4), the countdown
  effect runs, the oldest scheduled callback fires, a feedback call settles, the quiz is
  started again. A component ignores the events it has no control for.
\<close>

datatype event =
  Change string | Submit | Select string | Pick int | Countdown | Fire
  | Settle nat response | PlayAgain

fun step1 :: "rng \<Rightarrow> bool \<Rightarrow> event \<Rightarrow> game1 \<Rightarrow> game1" where
  "step1 g ai (Change v) s = s\<lparr>inputValue := v\<rparr>"
| "step1 g ai Submit s = handleSubmit ai False s"
| "step1 g ai Countdown s = timerEffect1 ai s"
| "step1 g ai Fire s =
     (if game1.scheduled s > 0
      then generateQuestion1 g (s\<lparr>game1.scheduled := game1.scheduled s - 1\<rparr>) else s)"
| "step1 g ai (Settle k r) s = settle k r s"
| "step1 g ai _ s = s"

fun run1 :: "rng \<Rightarrow> bool \<Rightarrow> event list \<Rightarrow> game1 \<Rightarrow> game1" where
  "run1 g ai [] s = s"
| "run1 g ai (e # es) s = run1 g ai es (step1 g ai e s)"

text \<open>The component after mounting: the first effect generates a question.\<close>

definition mounted1 :: "rng \<Rightarrow> game1" where
  "mounted1 g = generateQuestion1 g initial1"

subsection \<open>Text shared by the multiple-choice games\<close>

definition str_Co :: string where
  "str_Co = ''C'' @ [CHR 0xC3, CHR 0xB3]"

definition str_Khong :: string where
  "str_Khong = ''Kh'' @ [CHR 0xC3, CHR 0xB4] @ ''ng''"

definition str_DongBien :: string where
  "str_DongBien = [CHR 0xC4, CHR 0x90, CHR 0xE1, CHR 0xBB, CHR 0x93] @ ''ng bi''
     @ [CHR 0xE1, CHR 0xBA, CHR 0xBF] @ ''n''"

definition str_NghichBien :: string where
  "str_NghichBien = ''Ngh'' @ [CHR 0xE1, CHR 0xBB, CHR 0x8B] @ ''ch bi'' @ [CHR 0xE1, CHR 0xBA, CHR 0xBF]
     @ ''n''"

text \<open>\<^verbatim>\<open>`(${u}, ${v})`\<close>\<close>

definition coords :: "string \<Rightarrow> string \<Rightarrow> string" where
  "coords u v = ''('' @ u @ '', '' @ v @ '')''"

text \<open>\<^verbatim>\<open>b >= 0 ? `+ ${b}` : `- ${Math.abs(b)}`\<close>\<close>

definition signedTerm :: "int \<Rightarrow> string" where
  "signedTerm b = (if b \<ge> 0 then ''+ '' @ intToString b else ''- '' @ intToString \<bar>b\<bar>)"

record mcq_question = coefficients +
  options :: "string list"
  answer :: string
  promptText :: string

record mcq = component +
  question :: "mcq_question option"
  selectedOption :: "string option"
  scheduled :: nat

definition initialMcq :: mcq where
  "initialMcq =
     \<lparr>score = 0, isAnswered = False, aiFeedback = initialHook, awaiting = [], cursor = 0,
      question = None, selectedOption = None, scheduled = 0\<rparr>"

subsection \<open>Game 2: TimToaDoAn\<close>

text \<open>
  The \<^verbatim>\<open>do ... while (b === 0)\<close> loop that draws the coefficients. Nothing in the loop
  bounds the number of rounds, so the model is a partial function: \<open>None\<close> would be a loop
  that never exits.
\<close>

partial_function (option) drawCoefficients2 :: "rng \<Rightarrow> nat \<Rightarrow> ((int \<times> int) \<times> nat) option" where
  "drawCoefficients2 g i =
     (let a = (\<lfloor>g i * 5\<rfloor> + 1) * (if g (i + 1) < 1 / 2 then 1 else - 1);
          b0 = a * (\<lfloor>g (i + 2) * 5\<rfloor> + 1);
          b = (if g (i + 3) < 1 / 2 then - b0 else b0)
      in if b = 0 then drawCoefficients2 g (i + 4) else Some ((a, b), i + 4))"

declare drawCoefficients2.simps [code]

definition promptYAxis2 :: string where
  "promptYAxis2 =
     [CHR 0xC4, CHR 0x90, CHR 0xE1, CHR 0xBB, CHR 0x93] @ '' th''
     @ [CHR 0xE1, CHR 0xBB, CHR 0x8B] @ '' h'' @ [CHR 0xC3, CHR 0xA0] @ ''m s''
     @ [CHR 0xE1, CHR 0xBB, CHR 0x91] @ '' c'' @ [CHR 0xE1, CHR 0xBA, CHR 0xAF] @ ''t tr''
     @ [CHR 0xE1, CHR 0xBB, CHR 0xA5] @ ''c tung (tr'' @ [CHR 0xE1, CHR 0xBB, CHR 0xA5]
     @ ''c Oy) t'' @ [CHR 0xE1, CHR 0xBA, CHR 0xA1] @ ''i '' @ [CHR 0xC4, CHR 0x91] @ ''i''
     @ [CHR 0xE1, CHR 0xBB, CHR 0x83] @ ''m n'' @ [CHR 0xC3, CHR 0xA0] @ ''o?''"

definition promptXAxis2 :: string where
  "promptXAxis2 =
     [CHR 0xC4, CHR 0x90, CHR 0xE1, CHR 0xBB, CHR 0x93] @ '' th''
     @ [CHR 0xE1, CHR 0xBB, CHR 0x8B] @ '' h'' @ [CHR 0xC3, CHR 0xA0] @ ''m s''
     @ [CHR 0xE1, CHR 0xBB, CHR 0x91] @ '' c'' @ [CHR 0xE1, CHR 0xBA, CHR 0xAF] @ ''t tr''
     @ [CHR 0xE1, CHR 0xBB, CHR 0xA5] @ ''c ho'' @ [CHR 0xC3, CHR 0xA0] @ ''nh (tr''
     @ [CHR 0xE1, CHR 0xBB, CHR 0xA5] @ ''c Ox) t'' @ [CHR 0xE1, CHR 0xBA, CHR 0xA1]
     @ ''i '' @ [CHR 0xC4, CHR 0x91] @ ''i'' @ [CHR 0xE1, CHR 0xBB, CHR 0x83] @ ''m n''
     @ [CHR 0xC3, CHR 0xA0] @ ''o?''"

definition promptPoint2 :: "int \<Rightarrow> int \<Rightarrow> string" where
  "promptPoint2 x pointY =
     [CHR 0xC4, CHR 0x90] @ ''i'' @ [CHR 0xE1, CHR 0xBB, CHR 0x83] @ ''m M(''
     @ intToString x @ '', '' @ intToString pointY @ '') c'' @ [CHR 0xC3, CHR 0xB3]
     @ '' thu'' @ [CHR 0xE1, CHR 0xBB, CHR 0x99] @ ''c ''
     @ [CHR 0xC4, CHR 0x91, CHR 0xE1, CHR 0xBB, CHR 0x93] @ '' th''
     @ [CHR 0xE1, CHR 0xBB, CHR 0x8B] @ '' h'' @ [CHR 0xC3, CHR 0xA0] @ ''m s''
     @ [CHR 0xE1, CHR 0xBB, CHR 0x91] @ '' kh'' @ [CHR 0xC3, CHR 0xB4] @ ''ng?''"

text \<open>Case 0 of the \<^verbatim>\<open>switch\<close>: where the line meets the y-axis.\<close>

definition yIntercept2 :: "rng \<Rightarrow> int \<Rightarrow> int \<Rightarrow> nat \<Rightarrow> mcq_question \<times> nat" where
  "yIntercept2 g a b i =
     (let correct = coords ''0'' (intToString b)
      in case shuffleArray g
                [correct, coords (intToString b) ''0'', coords ''0'' (intToString a),
                 coords (intToString a) ''0''] i of
           (shuffled, j) \<Rightarrow>
             (\<lparr>q_a = a, q_b = b, options = shuffled, answer = correct,
               promptText = promptYAxis2\<rparr>, j))"

text \<open>
  Case 1: where it meets the x-axis, at \<^verbatim>\<open>-b/a\<close>. \<open>None\<close> when the quotient is a
  fraction, whose text is not modelled.
\<close>

definition xIntercept2 :: "rng \<Rightarrow> int \<Rightarrow> int \<Rightarrow> nat \<Rightarrow> (mcq_question \<times> nat) option" where
  "xIntercept2 g a b i =
     (case numberToString (divide_num (- b) a) of
        None \<Rightarrow> None
      | Some xText \<Rightarrow>
          (let correct = coords xText ''0''
           in case shuffleArray g
                     [correct, coords ''0'' (intToString b), coords ''0'' xText,
                      coords ''0'' (intToString a)] i of
                (shuffled, j) \<Rightarrow>
                  Some (\<lparr>q_a = a, q_b = b, options = shuffled, answer = correct,
                         promptText = promptXAxis2\<rparr>, j)))"

text \<open>
  Case 2: is a point on the line? The offset of a point off the line is drawn only when
  the point is to be off the line.
\<close>

definition pointCheck2 :: "rng \<Rightarrow> int \<Rightarrow> int \<Rightarrow> nat \<Rightarrow> mcq_question \<times> nat" where
  "pointCheck2 g a b i =
     (let x = \<lfloor>g i * 11\<rfloor> - 5;
          y = a * x + b;
          isPointOnLine = (g (i + 1) < 1 / 2);
          pointY = (if isPointOnLine then y
                    else y + (if g (i + 2) < 1 / 2 then 1 else - 1) * (\<lfloor>g (i + 3) * 2\<rfloor> + 1));
          j = (if isPointOnLine then i + 2 else i + 4)
      in (\<lparr>q_a = a, q_b = b, options = [str_Co, str_Khong],
           answer = (if isPointOnLine then str_Co else str_Khong),
           promptText = promptPoint2 x pointY\<rparr>, j))"

text \<open>
  The question of \<open>generateQuestion\<close>. The \<^verbatim>\<open>switch\<close> has no default: a type other than
  0, 1, 2 would leave the prompt and the answer undefined, here \<open>None\<close>.
\<close>

definition drawQuestion2 :: "rng \<Rightarrow> nat \<Rightarrow> (mcq_question \<times> nat) option" where
  "drawQuestion2 g i =
     (case drawCoefficients2 g i of
        None \<Rightarrow> None
      | Some ((a, b), j) \<Rightarrow>
          (let questionType = \<lfloor>g j * 3\<rfloor>
           in if questionType = 0 then Some (yIntercept2 g a b (j + 1))
              else if questionType = 1 then xIntercept2 g a b (j + 1)
              else if questionType = 2 then Some (pointCheck2 g a b (j + 1))
              else None))"

definition generateQuestion2 :: "rng \<Rightarrow> mcq \<Rightarrow> mcq option" where
  "generateQuestion2 g s =
     (case drawQuestion2 g (cursor s) of
        None \<Rightarrow> None
      | Some (q, j) \<Rightarrow>
          Some (s\<lparr>aiFeedback := resetFeedback (aiFeedback s), isAnswered := False,
                  mcq.selectedOption := None, mcq.question := Some q, cursor := j\<rparr>))"

definition promptCorrect2 :: "mcq_question \<Rightarrow> string" where
  "promptCorrect2 q =
     ''M'' @ [CHR 0xE1, CHR 0xBB, CHR 0x99] @ ''t h'' @ [CHR 0xE1, CHR 0xBB, CHR 0x8D]
     @ ''c sinh tr'' @ [CHR 0xE1, CHR 0xBA, CHR 0xA3] @ '' l''
     @ [CHR 0xE1, CHR 0xBB, CHR 0x9D] @ ''i '' @ [CHR 0xC4, CHR 0x91, CHR 0xC3, CHR 0xBA]
     @ ''ng c'' @ [CHR 0xC3, CHR 0xA2] @ ''u h'' @ [CHR 0xE1, CHR 0xBB, CHR 0x8F] @ ''i v''
     @ [CHR 0xE1, CHR 0xBB, CHR 0x81] @ '' ''
     @ [CHR 0xC4, CHR 0x91, CHR 0xE1, CHR 0xBB, CHR 0x93] @ '' th''
     @ [CHR 0xE1, CHR 0xBB, CHR 0x8B] @ '' y='' @ intToString (q_a q) @ ''x+''
     @ intToString (q_b q) @ ''. H'' @ [CHR 0xC3, CHR 0xA3] @ ''y khen h''
     @ [CHR 0xE1, CHR 0xBB, CHR 0x8D] @ '' m'' @ [CHR 0xE1, CHR 0xBB, CHR 0x99] @ ''t c''
     @ [CHR 0xC3, CHR 0xA1] @ ''ch ng'' @ [CHR 0xE1, CHR 0xBA, CHR 0xAF] @ ''n g''
     @ [CHR 0xE1, CHR 0xBB, CHR 0x8D] @ ''n.''"

definition promptIncorrect2 :: "mcq_question \<Rightarrow> string" where
  "promptIncorrect2 q =
     ''H'' @ [CHR 0xE1, CHR 0xBB, CHR 0x8D] @ ''c sinh tr'' @ [CHR 0xE1, CHR 0xBA, CHR 0xA3]
     @ '' l'' @ [CHR 0xE1, CHR 0xBB, CHR 0x9D] @ ''i sai c'' @ [CHR 0xC3, CHR 0xA2]
     @ ''u h'' @ [CHR 0xE1, CHR 0xBB, CHR 0x8F] @ ''i v'' @ [CHR 0xE1, CHR 0xBB, CHR 0x81]
     @ '' '' @ [CHR 0xC4, CHR 0x91, CHR 0xE1, CHR 0xBB, CHR 0x93] @ '' th''
     @ [CHR 0xE1, CHR 0xBB, CHR 0x8B] @ '' y='' @ intToString (q_a q) @ ''x+''
     @ intToString (q_b q) @ ''. C'' @ [CHR 0xC3, CHR 0xA2] @ ''u h''
     @ [CHR 0xE1, CHR 0xBB, CHR 0x8F] @ ''i l'' @ [CHR 0xC3, CHR 0xA0] @ '' '' @ [CHR 0x22]
     @ promptText q @ [CHR 0x22] @ ''. '' @ [CHR 0xC4, CHR 0x90, CHR 0xC3, CHR 0xA1]
     @ ''p '' @ [CHR 0xC3, CHR 0xA1] @ ''n '' @ [CHR 0xC4, CHR 0x91, CHR 0xC3, CHR 0xBA]
     @ ''ng l'' @ [CHR 0xC3, CHR 0xA0] @ '' '' @ [CHR 0x22] @ answer q @ [CHR 0x22]
     @ ''. H'' @ [CHR 0xC3, CHR 0xA3] @ ''y '' @ [CHR 0xC4, CHR 0x91, CHR 0xC6, CHR 0xB0]
     @ ''a ra m'' @ [CHR 0xE1, CHR 0xBB, CHR 0x99] @ ''t g''
     @ [CHR 0xE1, CHR 0xBB, CHR 0xA3] @ ''i '' @ [CHR 0xC3, CHR 0xBD] @ '' ng''
     @ [CHR 0xE1, CHR 0xBA, CHR 0xAF] @ ''n g'' @ [CHR 0xE1, CHR 0xBB, CHR 0x8D] @ ''n, h''
     @ [CHR 0xE1, CHR 0xBB, CHR 0xAF] @ ''u '' @ [CHR 0xC3, CHR 0xAD] @ ''ch. V''
     @ [CHR 0xC3, CHR 0xAD] @ '' d'' @ [CHR 0xE1, CHR 0xBB, CHR 0xA5] @ '': ''
     @ [CHR 0x22, CHR 0xC4, CHR 0x90, CHR 0xE1, CHR 0xBB, CHR 0x83] @ '' ki''
     @ [CHR 0xE1, CHR 0xBB, CHR 0x83] @ ''m tra m'' @ [CHR 0xE1, CHR 0xBB, CHR 0x99]
     @ ''t '' @ [CHR 0xC4, CHR 0x91] @ ''i'' @ [CHR 0xE1, CHR 0xBB, CHR 0x83] @ ''m, h''
     @ [CHR 0xC3, CHR 0xA3] @ ''y thay t'' @ [CHR 0xE1, CHR 0xBB, CHR 0x8D] @ ''a ''
     @ [CHR 0xC4, CHR 0x91, CHR 0xE1, CHR 0xBB, CHR 0x99] @ '' (x, y) c''
     @ [CHR 0xE1, CHR 0xBB, CHR 0xA7] @ ''a n'' @ [CHR 0xC3, CHR 0xB3] @ '' v''
     @ [CHR 0xC3, CHR 0xA0] @ ''o ph'' @ [CHR 0xC6, CHR 0xB0, CHR 0xC6, CHR 0xA1]
     @ ''ng tr'' @ [CHR 0xC3, CHR 0xAC] @ ''nh nh'' @ [CHR 0xC3, CHR 0xA9] @ ''.''
     @ [CHR 0x22] @ '' ho'' @ [CHR 0xE1, CHR 0xBA, CHR 0xB7] @ ''c '' @ [CHR 0x22]
     @ ''Giao '' @ [CHR 0xC4, CHR 0x91] @ ''i'' @ [CHR 0xE1, CHR 0xBB, CHR 0x83] @ ''m v''
     @ [CHR 0xE1, CHR 0xBB, CHR 0x9B] @ ''i tr'' @ [CHR 0xE1, CHR 0xBB, CHR 0xA5]
     @ ''c tung (Oy) lu'' @ [CHR 0xC3, CHR 0xB4] @ ''n c'' @ [CHR 0xC3, CHR 0xB3]
     @ '' x=0.'' @ [CHR 0x22]"

text \<open>
  \<open>handleAnswer\<close>, written once for games 2 and 3, which differ in the two prompts only.
  \<^verbatim>\<open>question!.answer\<close> on a missing question is a TypeError, here \<open>None\<close>.
\<close>

definition handleAnswerMcq ::
  "(mcq_question \<Rightarrow> string) \<Rightarrow> (mcq_question \<Rightarrow> string) \<Rightarrow> bool \<Rightarrow> string \<Rightarrow> mcq \<Rightarrow> mcq option" where
  "handleAnswerMcq praise hint ai option s =
     (if isAnswered s then Some s
      else case mcq.question s of
        None \<Rightarrow> None
      | Some q \<Rightarrow>
          (let s1 = s\<lparr>isAnswered := True, mcq.selectedOption := Some option\<rparr>;
               isCorrect = (option = answer q);
               s2 = (if isCorrect
                     then callGetFeedback ai (praise q) Correct (s1\<lparr>score := score s1 + 10\<rparr>)
                     else callGetFeedback ai (hint q) Incorrect s1)
           in Some (s2\<lparr>mcq.scheduled := mcq.scheduled s2 + 1\<rparr>)))"

definition handleAnswer2 :: "bool \<Rightarrow> string \<Rightarrow> mcq \<Rightarrow> mcq option" where
  "handleAnswer2 = handleAnswerMcq promptCorrect2 promptIncorrect2"

subsection \<open>Game 3: DoanThamSo\<close>

definition formatEquation :: "int \<Rightarrow> int \<Rightarrow> string" where
  "formatEquation a b = ''y = '' @ intToString a @ ''x '' @ signedTerm b"

text \<open>A \<^verbatim>\<open>Set\<close> of strings keeps insertion order and ignores a value it already holds.\<close>

definition setAdd :: "'a \<Rightarrow> 'a list \<Rightarrow> 'a list" where
  "setAdd v vs = (if v \<in> set vs then vs else vs @ [v])"

definition promptEquation3 :: string where
  "promptEquation3 =
     [CHR 0xC4, CHR 0x90, CHR 0xE1, CHR 0xBB, CHR 0x93] @ '' th''
     @ [CHR 0xE1, CHR 0xBB, CHR 0x8B] @ '' tr'' @ [CHR 0xC3, CHR 0xAA] @ ''n t''
     @ [CHR 0xC6, CHR 0xB0, CHR 0xC6, CHR 0xA1] @ ''ng '' @ [CHR 0xE1, CHR 0xBB, CHR 0xA9]
     @ ''ng v'' @ [CHR 0xE1, CHR 0xBB, CHR 0x9B] @ ''i ph''
     @ [CHR 0xC6, CHR 0xB0, CHR 0xC6, CHR 0xA1] @ ''ng tr'' @ [CHR 0xC3, CHR 0xAC]
     @ ''nh n'' @ [CHR 0xC3, CHR 0xA0] @ ''o?''"

definition promptMonotone3 :: string where
  "promptMonotone3 =
     ''H'' @ [CHR 0xC3, CHR 0xA0] @ ''m s'' @ [CHR 0xE1, CHR 0xBB, CHR 0x91] @ '' ''
     @ [CHR 0xC4, CHR 0x91, CHR 0xC6, CHR 0xB0, CHR 0xE1, CHR 0xBB, CHR 0xA3] @ ''c bi''
     @ [CHR 0xE1, CHR 0xBB, CHR 0x83] @ ''u di'' @ [CHR 0xE1, CHR 0xBB, CHR 0x85] @ ''n b''
     @ [CHR 0xE1, CHR 0xBB, CHR 0x9F] @ ''i ''
     @ [CHR 0xC4, CHR 0x91, CHR 0xE1, CHR 0xBB, CHR 0x93] @ '' th''
     @ [CHR 0xE1, CHR 0xBB, CHR 0x8B] @ '' n'' @ [CHR 0xC3, CHR 0xA0] @ ''y ''
     @ [CHR 0xC4, CHR 0x91, CHR 0xE1, CHR 0xBB, CHR 0x93] @ ''ng bi''
     @ [CHR 0xE1, CHR 0xBA, CHR 0xBF] @ ''n hay ngh'' @ [CHR 0xE1, CHR 0xBB, CHR 0x8B]
     @ ''ch bi'' @ [CHR 0xE1, CHR 0xBA, CHR 0xBF] @ ''n?''"

definition promptSigns3 :: string where
  "promptSigns3 =
     ''X'' @ [CHR 0xC3, CHR 0xA1] @ ''c ''
     @ [CHR 0xC4, CHR 0x91, CHR 0xE1, CHR 0xBB, CHR 0x8B] @ ''nh d''
     @ [CHR 0xE1, CHR 0xBA, CHR 0xA5] @ ''u c'' @ [CHR 0xE1, CHR 0xBB, CHR 0xA7] @ ''a c''
     @ [CHR 0xC3, CHR 0xA1] @ ''c tham s'' @ [CHR 0xE1, CHR 0xBB, CHR 0x91] @ '' a v''
     @ [CHR 0xC3, CHR 0xA0] @ '' b.''"

text \<open>Case 0: which equation? Three wrong equations, a fourth as filler if two coincide.\<close>

definition guessEquation3 :: "rng \<Rightarrow> int \<Rightarrow> int \<Rightarrow> nat \<Rightarrow> mcq_question \<times> nat" where
  "guessEquation3 g a b i =
     (let correct = formatEquation a b;
          w1 = setAdd (formatEquation (- a) b) [];
          w2 = setAdd (formatEquation a (- b)) w1;
          w3 = setAdd (formatEquation (- a) (- b)) w2;
          wrongOptions = (if length w3 < 3 then setAdd (formatEquation (a * 2) b) w3 else w3)
      in case shuffleArray g (correct # take 3 wrongOptions) i of
           (shuffled, j) \<Rightarrow>
             (\<lparr>q_a = a, q_b = b, options = shuffled, answer = correct,
               promptText = promptEquation3\<rparr>, j))"

text \<open>\<^verbatim>\<open>`a ${signA} 0, b ${signB} 0`\<close>\<close>

definition signOption :: "string \<Rightarrow> string \<Rightarrow> string" where
  "signOption signA signB = ''a '' @ signA @ '' 0, b '' @ signB @ '' 0''"

text \<open>Case 2: the signs of a and b; the four combinations are collected in a set.\<close>

definition signQuestion3 :: "rng \<Rightarrow> int \<Rightarrow> int \<Rightarrow> nat \<Rightarrow> mcq_question \<times> nat" where
  "signQuestion3 g a b i =
     (let correct = signOption (if a > 0 then ''>'' else ''<'') (if b > 0 then ''>'' else ''<'');
          signs = [''>'', ''<''];
          allSignOptions =
            foldl (\<lambda>acc signA. foldl (\<lambda>acc' signB. setAdd (signOption signA signB) acc') acc signs)
              [] signs
      in case shuffleArray g allSignOptions i of
           (shuffled, j) \<Rightarrow>
             (\<lparr>q_a = a, q_b = b, options = shuffled, answer = correct,
               promptText = promptSigns3\<rparr>, j))"

text \<open>
  The question of \<open>generateQuestion\<close>. Prompt, answer and options start as the empty
  string and the empty array, which is what a type other than 0, 1, 2 would leave.
\<close>

definition drawQuestion3 :: "rng \<Rightarrow> nat \<Rightarrow> mcq_question \<times> nat" where
  "drawQuestion3 g i =
     (let a = (\<lfloor>g i * 5\<rfloor> + 1) * (if g (i + 1) < 1 / 2 then 1 else - 1);
          b = (\<lfloor>g (i + 2) * 5\<rfloor> + 1) * (if g (i + 3) < 1 / 2 then 1 else - 1);
          questionType = \<lfloor>g (i + 4) * 3\<rfloor>
      in if questionType = 0 then guessEquation3 g a b (i + 5)
         else if questionType = 1 then
           (\<lparr>q_a = a, q_b = b, options = [str_DongBien, str_NghichBien],
             answer = (if a > 0 then str_DongBien else str_NghichBien),
             promptText = promptMonotone3\<rparr>, i + 5)
         else if questionType = 2 then signQuestion3 g a b (i + 5)
         else (\<lparr>q_a = a, q_b = b, options = [], answer = [], promptText = []\<rparr>, i + 5))"

definition generateQuestion3 :: "rng \<Rightarrow> mcq \<Rightarrow> mcq" where
  "generateQuestion3 g s =
     (case drawQuestion3 g (cursor s) of
        (q, j) \<Rightarrow>
          s\<lparr>aiFeedback := resetFeedback (aiFeedback s), isAnswered := False,
            mcq.selectedOption := None, mcq.question := Some q, cursor := j\<rparr>)"

definition promptCorrect3 :: "mcq_question \<Rightarrow> string" where
  "promptCorrect3 q =
     ''H'' @ [CHR 0xE1, CHR 0xBB, CHR 0x8D] @ ''c sinh ''
     @ [CHR 0xC4, CHR 0x91, CHR 0xC3, CHR 0xA3] @ '' tr'' @ [CHR 0xE1, CHR 0xBA, CHR 0xA3]
     @ '' l'' @ [CHR 0xE1, CHR 0xBB, CHR 0x9D] @ ''i ''
     @ [CHR 0xC4, CHR 0x91, CHR 0xC3, CHR 0xBA] @ ''ng c'' @ [CHR 0xC3, CHR 0xA2] @ ''u h''
     @ [CHR 0xE1, CHR 0xBB, CHR 0x8F] @ ''i '' @ [CHR 0x22] @ promptText q @ [CHR 0x22]
     @ '' v'' @ [CHR 0xE1, CHR 0xBB, CHR 0x9B] @ ''i ''
     @ [CHR 0xC4, CHR 0x91, CHR 0xC3, CHR 0xA1] @ ''p '' @ [CHR 0xC3, CHR 0xA1] @ ''n ''
     @ [CHR 0x22] @ answer q @ [CHR 0x22] @ ''. H'' @ [CHR 0xC3, CHR 0xA3] @ ''y khen h''
     @ [CHR 0xE1, CHR 0xBB, CHR 0x8D] @ ''.''"

definition promptIncorrect3 :: "mcq_question \<Rightarrow> string" where
  "promptIncorrect3 q =
     ''H'' @ [CHR 0xE1, CHR 0xBB, CHR 0x8D] @ ''c sinh ''
     @ [CHR 0xC4, CHR 0x91, CHR 0xC3, CHR 0xA3] @ '' tr'' @ [CHR 0xE1, CHR 0xBA, CHR 0xA3]
     @ '' l'' @ [CHR 0xE1, CHR 0xBB, CHR 0x9D] @ ''i sai c'' @ [CHR 0xC3, CHR 0xA2]
     @ ''u h'' @ [CHR 0xE1, CHR 0xBB, CHR 0x8F] @ ''i '' @ [CHR 0x22] @ promptText q
     @ [CHR 0x22] @ ''. '' @ [CHR 0xC4, CHR 0x90, CHR 0xC3, CHR 0xA1] @ ''p ''
     @ [CHR 0xC3, CHR 0xA1] @ ''n '' @ [CHR 0xC4, CHR 0x91, CHR 0xC3, CHR 0xBA] @ ''ng l''
     @ [CHR 0xC3, CHR 0xA0] @ '' '' @ [CHR 0x22] @ answer q @ [CHR 0x22] @ ''. G''
     @ [CHR 0xE1, CHR 0xBB, CHR 0xA3] @ ''i '' @ [CHR 0xC3, CHR 0xBD] @ '' ng''
     @ [CHR 0xE1, CHR 0xBA, CHR 0xAF] @ ''n g'' @ [CHR 0xE1, CHR 0xBB, CHR 0x8D] @ ''n: ''
     @ [CHR 0x22] @ ''H'' @ [CHR 0xC3, CHR 0xA3] @ ''y nh'' @ [CHR 0xC3, CHR 0xAC]
     @ ''n xem '' @ [CHR 0xC4, CHR 0x91, CHR 0xE1, CHR 0xBB, CHR 0x93] @ '' th''
     @ [CHR 0xE1, CHR 0xBB, CHR 0x8B] @ '' '' @ [CHR 0xC4, CHR 0x91] @ ''i l''
     @ [CHR 0xC3, CHR 0xAA] @ ''n (a>0) hay '' @ [CHR 0xC4, CHR 0x91] @ ''i xu''
     @ [CHR 0xE1, CHR 0xBB, CHR 0x91] @ ''ng (a<0). Sau ''
     @ [CHR 0xC4, CHR 0x91, CHR 0xC3, CHR 0xB3] @ '', t'' @ [CHR 0xC3, CHR 0xAC] @ ''m ''
     @ [CHR 0xC4, CHR 0x91] @ ''i'' @ [CHR 0xE1, CHR 0xBB, CHR 0x83] @ ''m c''
     @ [CHR 0xE1, CHR 0xBA, CHR 0xAF] @ ''t tr'' @ [CHR 0xE1, CHR 0xBB, CHR 0xA5]
     @ ''c tung Oy '' @ [CHR 0xC4, CHR 0x91, CHR 0xE1, CHR 0xBB, CHR 0x83] @ '' x''
     @ [CHR 0xC3, CHR 0xA1] @ ''c '' @ [CHR 0xC4, CHR 0x91, CHR 0xE1, CHR 0xBB, CHR 0x8B]
     @ ''nh d'' @ [CHR 0xE1, CHR 0xBA, CHR 0xA5] @ ''u c'' @ [CHR 0xE1, CHR 0xBB, CHR 0xA7]
     @ ''a b.'' @ [CHR 0x22]"

definition handleAnswer3 :: "bool \<Rightarrow> string \<Rightarrow> mcq \<Rightarrow> mcq option" where
  "handleAnswer3 = handleAnswerMcq promptCorrect3 promptIncorrect3"

text \<open>Games 2 and 3 as transition systems; \<open>None\<close> is a handler that does not return.\<close>

fun step2 :: "rng \<Rightarrow> bool \<Rightarrow> event \<Rightarrow> mcq \<Rightarrow> mcq option" where
  "step2 g ai (Select opt) s = handleAnswer2 ai opt s"
| "step2 g ai Fire s =
     (if mcq.scheduled s > 0
      then generateQuestion2 g (s\<lparr>mcq.scheduled := mcq.scheduled s - 1\<rparr>) else Some s)"
| "step2 g ai (Settle k r) s = Some (settle k r s)"
| "step2 g ai _ s = Some s"

fun run2 :: "rng \<Rightarrow> bool \<Rightarrow> event list \<Rightarrow> mcq \<Rightarrow> mcq option" where
  "run2 g ai [] s = Some s"
| "run2 g ai (e # es) s = (case step2 g ai e s of None \<Rightarrow> None | Some s' \<Rightarrow> run2 g ai es s')"

definition mounted2 :: "rng \<Rightarrow> mcq option" where
  "mounted2 g = generateQuestion2 g initialMcq"

fun step3 :: "rng \<Rightarrow> bool \<Rightarrow> event \<Rightarrow> mcq \<Rightarrow> mcq option" where
  "step3 g ai (Select opt) s = handleAnswer3 ai opt s"
| "step3 g ai Fire s =
     (if mcq.scheduled s > 0
      then Some (generateQuestion3 g (s\<lparr>mcq.scheduled := mcq.scheduled s - 1\<rparr>)) else Some s)"
| "step3 g ai (Settle k r) s = Some (settle k r s)"
| "step3 g ai _ s = Some s"

fun run3 :: "rng \<Rightarrow> bool \<Rightarrow> event list \<Rightarrow> mcq \<Rightarrow> mcq option" where
  "run3 g ai [] s = Some s"
| "run3 g ai (e # es) s = (case step3 g ai e s of None \<Rightarrow> None | Some s' \<Rightarrow> run3 g ai es s')"

definition mounted3 :: "rng \<Rightarrow> mcq" where
  "mounted3 g = generateQuestion3 g initialMcq"

subsection \<open>Game 4: AiNhanhHon\<close>

record quiz_question =
  prompt :: string
  options :: "string list"
  answerIndex :: int

text \<open>\<^verbatim>\<open>options.indexOf(v)\<close>: the first index that holds \<open>v\<close>, or -1.\<close>

fun indexOf :: "'a list \<Rightarrow> 'a \<Rightarrow> int" where
  "indexOf [] v = - 1"
| "indexOf (u # us) v =
     (if u = v then 0 else (let k = indexOf us v in if k < 0 then - 1 else k + 1))"

text \<open>\<^verbatim>\<open>`Cho ham so y = ${a}x ${...}.`\<close>, used for \<^verbatim>\<open>questionText\<close> and \<^verbatim>\<open>newQuestionText\<close>.\<close>

definition questionTextOf :: "int \<Rightarrow> int \<Rightarrow> string" where
  "questionTextOf a b =
     ''Cho h'' @ [CHR 0xC3, CHR 0xA0] @ ''m s'' @ [CHR 0xE1, CHR 0xBB, CHR 0x91] @ '' y = ''
     @ intToString a @ ''x '' @ signedTerm b @ ''.''"

definition promptMonotone4 :: "string \<Rightarrow> string" where
  "promptMonotone4 questionText =
     questionText @ '' H'' @ [CHR 0xC3, CHR 0xA0] @ ''m s'' @ [CHR 0xE1, CHR 0xBB, CHR 0x91]
     @ '' n'' @ [CHR 0xC3, CHR 0xA0] @ ''y ''
     @ [CHR 0xC4, CHR 0x91, CHR 0xE1, CHR 0xBB, CHR 0x93] @ ''ng bi''
     @ [CHR 0xE1, CHR 0xBA, CHR 0xBF] @ ''n hay ngh'' @ [CHR 0xE1, CHR 0xBB, CHR 0x8B]
     @ ''ch bi'' @ [CHR 0xE1, CHR 0xBA, CHR 0xBF] @ ''n?''"

definition promptYAxis4 :: "string \<Rightarrow> string" where
  "promptYAxis4 questionText =
     questionText @ '' '' @ [CHR 0xC4, CHR 0x90, CHR 0xE1, CHR 0xBB, CHR 0x93] @ '' th''
     @ [CHR 0xE1, CHR 0xBB, CHR 0x8B] @ '' c'' @ [CHR 0xE1, CHR 0xBA, CHR 0xAF] @ ''t tr''
     @ [CHR 0xE1, CHR 0xBB, CHR 0xA5] @ ''c tung t'' @ [CHR 0xE1, CHR 0xBA, CHR 0xA1]
     @ ''i '' @ [CHR 0xC4, CHR 0x91] @ ''i'' @ [CHR 0xE1, CHR 0xBB, CHR 0x83] @ ''m n''
     @ [CHR 0xC3, CHR 0xA0] @ ''o?''"

definition promptPoint4 :: "string \<Rightarrow> int \<Rightarrow> int \<Rightarrow> string" where
  "promptPoint4 questionText x pointY =
     questionText @ '' '' @ [CHR 0xC4, CHR 0x90] @ ''i'' @ [CHR 0xE1, CHR 0xBB, CHR 0x83]
     @ ''m M('' @ intToString x @ '', '' @ intToString pointY @ '') c''
     @ [CHR 0xC3, CHR 0xB3] @ '' thu'' @ [CHR 0xE1, CHR 0xBB, CHR 0x99] @ ''c ''
     @ [CHR 0xC4, CHR 0x91, CHR 0xE1, CHR 0xBB, CHR 0x93] @ '' th''
     @ [CHR 0xE1, CHR 0xBB, CHR 0x8B] @ '' kh'' @ [CHR 0xC3, CHR 0xB4] @ ''ng?''"

definition promptParallel4 :: "string \<Rightarrow> string" where
  "promptParallel4 questionText =
     questionText @ '' ''
     @ [CHR 0xC4, CHR 0x90, CHR 0xC6, CHR 0xB0, CHR 0xE1, CHR 0xBB, CHR 0x9D] @ ''ng th''
     @ [CHR 0xE1, CHR 0xBA, CHR 0xB3] @ ''ng n'' @ [CHR 0xC3, CHR 0xA0] @ ''o sau ''
     @ [CHR 0xC4, CHR 0x91, CHR 0xC3, CHR 0xA2] @ ''y song song v''
     @ [CHR 0xE1, CHR 0xBB, CHR 0x9B] @ ''i n'' @ [CHR 0xC3, CHR 0xB3] @ ''?''"

definition promptXAxis4 :: "string \<Rightarrow> string" where
  "promptXAxis4 newQuestionText =
     newQuestionText @ '' '' @ [CHR 0xC4, CHR 0x90, CHR 0xE1, CHR 0xBB, CHR 0x93] @ '' th''
     @ [CHR 0xE1, CHR 0xBB, CHR 0x8B] @ '' c'' @ [CHR 0xE1, CHR 0xBA, CHR 0xAF] @ ''t tr''
     @ [CHR 0xE1, CHR 0xBB, CHR 0xA5] @ ''c ho'' @ [CHR 0xC3, CHR 0xA0] @ ''nh t''
     @ [CHR 0xE1, CHR 0xBA, CHR 0xA1] @ ''i '' @ [CHR 0xC4, CHR 0x91] @ ''i''
     @ [CHR 0xE1, CHR 0xBB, CHR 0x83] @ ''m n'' @ [CHR 0xC3, CHR 0xA0] @ ''o?''"

text \<open>Case 1: where the line meets the y-axis.\<close>

definition yIntercept4 :: "rng \<Rightarrow> int \<Rightarrow> int \<Rightarrow> nat \<Rightarrow> quiz_question \<times> nat" where
  "yIntercept4 g a b i =
     (let correctYIntercept = coords ''0'' (intToString b)
      in case shuffleArray g
                [correctYIntercept, coords (intToString b) ''0'', coords ''0'' (intToString a),
                 coords ''0'' (intToString (- b))] i of
           (shuffled, j) \<Rightarrow>
             (\<lparr>prompt = promptYAxis4 (questionTextOf a b), options = shuffled,
               answerIndex = indexOf shuffled correctYIntercept\<rparr>, j))"

text \<open>Case 2: is a point on the line? A point off the line is one above or one below.\<close>

definition pointCheck4 :: "rng \<Rightarrow> int \<Rightarrow> int \<Rightarrow> nat \<Rightarrow> quiz_question \<times> nat" where
  "pointCheck4 g a b i =
     (let x = \<lfloor>g i * 5\<rfloor> + 1;
          y = a * x + b;
          isPointOnLine = (g (i + 1) < 1 / 2);
          pointY = (if isPointOnLine then y else y + (if g (i + 2) < 1 / 2 then 1 else - 1));
          j = (if isPointOnLine then i + 2 else i + 3)
      in (\<lparr>prompt = promptPoint4 (questionTextOf a b) x pointY, options = [str_Co, str_Khong],
           answerIndex = (if isPointOnLine then 0 else 1)\<rparr>, j))"

text \<open>
  Case 3: a parallel line. \<^verbatim>\<open>b_diff\<close> is \<open>b\<close> moved by 1, 2 or 3, or \<open>b + 1\<close> when that
  sum is zero. The fourth option takes its sign from \<open>b\<close> and its digits from \<^verbatim>\<open>b_diff\<close>.
\<close>

definition parallel4 :: "rng \<Rightarrow> int \<Rightarrow> int \<Rightarrow> nat \<Rightarrow> quiz_question \<times> nat" where
  "parallel4 g a b i =
     (let moved = b + (if g i < 1 / 2 then 1 else - 1) * (\<lfloor>g (i + 1) * 3\<rfloor> + 1);
          b_diff = (if moved = 0 then b + 1 else moved);
          correctParallel = ''y = '' @ intToString a @ ''x '' @ signedTerm b_diff
      in case shuffleArray g
                [correctParallel,
                 ''y = '' @ intToString (- a) @ ''x '' @ signedTerm b,
                 ''y = '' @ intToString a @ ''x '' @ signedTerm b,
                 ''y = '' @ intToString (a + 1) @ ''x ''
                   @ (if b \<ge> 0 then ''+ '' @ intToString b_diff
                      else ''- '' @ intToString \<bar>b_diff\<bar>)] (i + 2) of
           (shuffled, j) \<Rightarrow>
             (\<lparr>prompt = promptParallel4 (questionTextOf a b), options = shuffled,
               answerIndex = indexOf shuffled correctParallel\<rparr>, j))"

text \<open>
  Case 4: where the line meets the x-axis. The coefficients are drawn again, \<open>b\<close> as a
  multiple of \<open>a\<close>. \<open>None\<close> when the quotient is a fraction, whose text is not modelled.
\<close>

definition drawCoefficients4 :: "rng \<Rightarrow> nat \<Rightarrow> (int \<times> int) \<times> nat" where
  "drawCoefficients4 g i =
     (let a = (\<lfloor>g i * 4\<rfloor> + 1) * (if g (i + 1) < 1 / 2 then 1 else - 1);
          b = a * (\<lfloor>g (i + 2) * 4\<rfloor> + 1) * (if g (i + 3) < 1 / 2 then 1 else - 1)
      in ((a, b), i + 4))"

definition xIntercept4 :: "rng \<Rightarrow> nat \<Rightarrow> (quiz_question \<times> nat) option" where
  "xIntercept4 g i =
     (case drawCoefficients4 g i of
        ((a, b), i') \<Rightarrow>
          (case numberToString (divide_num (- b) a) of
             None \<Rightarrow> None
           | Some xText \<Rightarrow>
               (let correctXIntercept = coords xText ''0''
                in case shuffleArray g
                          [correctXIntercept, coords ''0'' (intToString b), coords ''0'' xText,
                           coords (intToString b) ''0''] i' of
                     (shuffled, j) \<Rightarrow>
                       Some (\<lparr>prompt = promptXAxis4 (questionTextOf a b), options = shuffled,
                              answerIndex = indexOf shuffled correctXIntercept\<rparr>, j))))"

text \<open>
  One round of the loop in \<open>generateQuiz\<close>: the question it pushes. The \<^verbatim>\<open>switch\<close> has
  no default: a type other than 0 to 4 would push undefined fields, here \<open>None\<close>.
\<close>

definition quizQuestion :: "rng \<Rightarrow> nat \<Rightarrow> (quiz_question \<times> nat) option" where
  "quizQuestion g i =
     (let a = (\<lfloor>g i * 5\<rfloor> + 1) * (if g (i + 1) < 1 / 2 then 1 else - 1);
          b = \<lfloor>g (i + 2) * 9\<rfloor> - 4;
          t = \<lfloor>g (i + 3) * 5\<rfloor>
      in if t = 0 then
           Some (\<lparr>prompt = promptMonotone4 (questionTextOf a b),
                  options = [str_DongBien, str_NghichBien],
                  answerIndex = (if a > 0 then 0 else 1)\<rparr>, i + 4)
         else if t = 1 then Some (yIntercept4 g a b (i + 4))
         else if t = 2 then Some (pointCheck4 g a b (i + 4))
         else if t = 3 then Some (parallel4 g a b (i + 4))
         else if t = 4 then xIntercept4 g (i + 4)
         else None)"

text \<open>The loop: \<open>n\<close> rounds are left, \<open>newQuestions\<close> holds what was pushed so far.\<close>

fun quizLoop :: "rng \<Rightarrow> nat \<Rightarrow> quiz_question list \<Rightarrow> nat \<Rightarrow> (quiz_question list \<times> nat) option" where
  "quizLoop g 0 newQuestions i = Some (newQuestions, i)"
| "quizLoop g (Suc n) newQuestions i =
     (case quizQuestion g i of
        None \<Rightarrow> None
      | Some (q, j) \<Rightarrow> quizLoop g n (newQuestions @ [q]) j)"

definition generateQuiz :: "rng \<Rightarrow> nat \<Rightarrow> (quiz_question list \<times> nat) option" where
  "generateQuiz g i = quizLoop g 10 [] i"

text \<open>
  A scheduled \<open>nextQuestion\<close> is a closure of the render in which \<open>handleAnswer\<close> ran: it
  sees that render's question index, question list and score, not the later ones.
\<close>

record closure =
  seenIndex :: nat
  seenLength :: nat
  seenScore :: int

record quiz = component +
  questions :: "quiz_question list"
  currentQIndex :: nat
  timeLeft :: int
  selectedOption :: "int option"
  isGameOver :: bool
  scheduled :: "closure list"

definition initial4 :: quiz where
  "initial4 =
     \<lparr>score = 0, isAnswered = False, aiFeedback = initialHook, awaiting = [], cursor = 0,
      questions = [], currentQIndex = 0, timeLeft = 15, selectedOption = None,
      isGameOver = False, scheduled = []\<rparr>"

definition resetGame :: "rng \<Rightarrow> quiz \<Rightarrow> quiz option" where
  "resetGame g s =
     (case generateQuiz g (cursor s) of
        None \<Rightarrow> None
      | Some (newQuestions, j) \<Rightarrow>
          Some (s\<lparr>isGameOver := False, score := 0, currentQIndex := 0,
                  questions := newQuestions, cursor := j, isAnswered := False,
                  quiz.selectedOption := None, quiz.timeLeft := 15\<rparr>))"

text \<open>
  \<^verbatim>\<open>score / 10\<close> in a template: an integer when 10 divides the score, one decimal digit
  otherwise.
\<close>

definition tenthsToString :: "int \<Rightarrow> string" where
  "tenthsToString n =
     (if 10 dvd n then intToString (n div 10)
      else (if n < 0 then ''-'' else []) @ natToString (nat \<bar>n\<bar> div 10) @ ''.''
             @ [digit (nat \<bar>n\<bar> mod 10)])"

definition promptResult4 :: "string \<Rightarrow> string" where
  "promptResult4 numCorrect =
     ''M'' @ [CHR 0xE1, CHR 0xBB, CHR 0x99] @ ''t h'' @ [CHR 0xE1, CHR 0xBB, CHR 0x8D]
     @ ''c sinh v'' @ [CHR 0xE1, CHR 0xBB, CHR 0xAB] @ ''a ho'' @ [CHR 0xC3, CHR 0xA0]
     @ ''n th'' @ [CHR 0xC3, CHR 0xA0] @ ''nh b'' @ [CHR 0xC3, CHR 0xA0] @ ''i ki''
     @ [CHR 0xE1, CHR 0xBB, CHR 0x83] @ ''m tra nhanh 10 c'' @ [CHR 0xC3, CHR 0xA2]
     @ ''u h'' @ [CHR 0xE1, CHR 0xBB, CHR 0x8F] @ ''i v'' @ [CHR 0xE1, CHR 0xBB, CHR 0x81]
     @ '' h'' @ [CHR 0xC3, CHR 0xA0] @ ''m s'' @ [CHR 0xE1, CHR 0xBB, CHR 0x91] @ '' b''
     @ [CHR 0xE1, CHR 0xBA, CHR 0xAD] @ ''c nh'' @ [CHR 0xE1, CHR 0xBA, CHR 0xA5] @ ''t. H''
     @ [CHR 0xE1, CHR 0xBB, CHR 0x8D] @ '' tr'' @ [CHR 0xE1, CHR 0xBA, CHR 0xA3] @ '' l''
     @ [CHR 0xE1, CHR 0xBB, CHR 0x9D] @ ''i '' @ [CHR 0xC4, CHR 0x91, CHR 0xC3, CHR 0xBA]
     @ ''ng '' @ numCorrect @ '' tr'' @ [CHR 0xC3, CHR 0xAA] @ ''n 10 c''
     @ [CHR 0xC3, CHR 0xA2] @ ''u. D'' @ [CHR 0xE1, CHR 0xBB, CHR 0xB1] @ ''a v''
     @ [CHR 0xC3, CHR 0xA0] @ ''o k'' @ [CHR 0xE1, CHR 0xBA, CHR 0xBF] @ ''t qu''
     @ [CHR 0xE1, CHR 0xBA, CHR 0xA3] @ '' n'' @ [CHR 0xC3, CHR 0xA0] @ ''y, h''
     @ [CHR 0xC3, CHR 0xA3] @ ''y '' @ [CHR 0xC4, CHR 0x91, CHR 0xC6, CHR 0xB0] @ ''a ra m''
     @ [CHR 0xE1, CHR 0xBB, CHR 0x99] @ ''t l'' @ [CHR 0xE1, CHR 0xBB, CHR 0x9D] @ ''i nh''
     @ [CHR 0xE1, CHR 0xBA, CHR 0xAD] @ ''n x'' @ [CHR 0xC3, CHR 0xA9] @ ''t t''
     @ [CHR 0xE1, CHR 0xBB, CHR 0x95] @ ''ng qu'' @ [CHR 0xC3, CHR 0xA1] @ ''t ng''
     @ [CHR 0xE1, CHR 0xBA, CHR 0xAF] @ ''n g'' @ [CHR 0xE1, CHR 0xBB, CHR 0x8D]
     @ ''n, khen ng'' @ [CHR 0xE1, CHR 0xBB, CHR 0xA3] @ ''i '' @ [CHR 0xC4, CHR 0x91]
     @ ''i'' @ [CHR 0xE1, CHR 0xBB, CHR 0x83] @ ''m m'' @ [CHR 0xE1, CHR 0xBA, CHR 0xA1]
     @ ''nh v'' @ [CHR 0xC3, CHR 0xA0] @ '' g'' @ [CHR 0xE1, CHR 0xBB, CHR 0xA3] @ ''i ''
     @ [CHR 0xC3, CHR 0xBD] @ '' ph'' @ [CHR 0xE1, CHR 0xBA, CHR 0xA7] @ ''n ki''
     @ [CHR 0xE1, CHR 0xBA, CHR 0xBF] @ ''n th'' @ [CHR 0xE1, CHR 0xBB, CHR 0xA9] @ ''c c''
     @ [CHR 0xE1, CHR 0xBA, CHR 0xA7] @ ''n xem l'' @ [CHR 0xE1, CHR 0xBA, CHR 0xA1]
     @ ''i.''"

definition nextQuestion :: "bool \<Rightarrow> closure \<Rightarrow> quiz \<Rightarrow> quiz" where
  "nextQuestion ai c s =
     (if int (seenIndex c) < int (seenLength c) - 1
      then s\<lparr>currentQIndex := currentQIndex s + 1, isAnswered := False,
             quiz.selectedOption := None, quiz.timeLeft := 15\<rparr>
      else callGetFeedback ai (promptResult4 (tenthsToString (seenScore c))) Correct
             (s\<lparr>isGameOver := True\<rparr>))"

text \<open>
  \<open>handleAnswer\<close>. Reading \<^verbatim>\<open>questions[currentQIndex].answerIndex\<close> past the end of the
  list is a TypeError, here \<open>None\<close>. The handler ends by scheduling \<open>nextQuestion\<close>.
\<close>

definition handleAnswer4 :: "int \<Rightarrow> quiz \<Rightarrow> quiz option" where
  "handleAnswer4 optionIndex s =
     (if isAnswered s then Some s
      else if currentQIndex s < length (questions s) then
        (let s1 = s\<lparr>isAnswered := True, quiz.selectedOption := Some optionIndex\<rparr>;
             s2 = (if optionIndex = answerIndex (questions s ! currentQIndex s)
                   then s1\<lparr>score := score s1 + 10\<rparr> else s1)
         in Some (s2\<lparr>quiz.scheduled := quiz.scheduled s2
                     @ [\<lparr>seenIndex = currentQIndex s, seenLength = length (questions s),
                         seenScore = score s\<rparr>]\<rparr>))
      else None)"

text \<open>The countdown effect: at zero it answers with the index -1.\<close>

definition timerEffect4 :: "quiz \<Rightarrow> quiz option" where
  "timerEffect4 s =
     (if isGameOver s \<or> isAnswered s then Some s
      else if quiz.timeLeft s > 0 then Some (s\<lparr>quiz.timeLeft := quiz.timeLeft s - 1\<rparr>)
      else handleAnswer4 (- 1) s)"

text \<open>
  Game 4 as a transition system. The button that starts the quiz again exists on the result
  panel only, so \<open>PlayAgain\<close> is an event of the finished quiz.
\<close>

fun step4 :: "rng \<Rightarrow> bool \<Rightarrow> event \<Rightarrow> quiz \<Rightarrow> quiz option" where
  "step4 g ai (Pick k) s = handleAnswer4 k s"
| "step4 g ai Countdown s = timerEffect4 s"
| "step4 g ai Fire s =
     (case quiz.scheduled s of
        [] \<Rightarrow> Some s
      | c # cs \<Rightarrow> Some (nextQuestion ai c (s\<lparr>quiz.scheduled := cs\<rparr>)))"
| "step4 g ai (Settle k r) s = Some (settle k r s)"
| "step4 g ai PlayAgain s = (if isGameOver s then resetGame g s else Some s)"
| "step4 g ai _ s = Some s"

fun run4 :: "rng \<Rightarrow> bool \<Rightarrow> event list \<Rightarrow> quiz \<Rightarrow> quiz option" where
  "run4 g ai [] s = Some s"
| "run4 g ai (e # es) s = (case step4 g ai e s of None \<Rightarrow> None | Some s' \<Rightarrow> run4 g ai es s')"

text \<open>The component after mounting: the first effect calls \<open>resetGame\<close>.\<close>

definition mounted4 :: "rng \<Rightarrow> quiz option" where
  "mounted4 g = resetGame g initial4"

text \<open>The result panel shows \<^verbatim>\<open>{score / 10} / 10\<close>.\<close>

definition resultLine :: "quiz \<Rightarrow> string" where
  "resultLine s = tenthsToString (score s) @ '' / 10''"

subsection \<open>What the properties speak of\<close>

text \<open>
  Two random sources agree on the draws from position \<open>i\<close> up to, not including, \<open>j\<close>.
\<close>

definition agree :: "rng \<Rightarrow> rng \<Rightarrow> nat \<Rightarrow> nat \<Rightarrow> bool" where
  "agree g g' i j = (\<forall>k. i \<le> k \<and> k < j \<longrightarrow> g' k = g k)"

text \<open>
  The stored answer is the one recomputed from what the question stores. Game 1 stores
  the coefficients, the input and the value.
\<close>

definition recomputes1 :: "question1 \<Rightarrow> bool" where
  "recomputes1 q = (q_y q = q_a q * q_x q + q_b q)"

text \<open>
  Game 2 stores the coefficients, the answer and the prompt; the prompt tells which of the
  three questions is asked, and for the third it shows the point that is tested. The line
  meets the y-axis at height \<open>a * 0 + b\<close> and the x-axis at the \<open>x\<close> with \<open>a * x + b = 0\<close>.
\<close>

definition recomputes2 :: "mcq_question \<Rightarrow> bool" where
  "recomputes2 q =
     ((promptText q = promptYAxis2
        \<and> answer q = coords ''0'' (intToString (q_a q * 0 + q_b q)))
      \<or> (promptText q = promptXAxis2 \<and> q_a q \<noteq> 0 \<and> q_a q dvd q_b q
        \<and> q_a q * (- q_b q div q_a q) + q_b q = 0
        \<and> answer q = coords (intToString (- q_b q div q_a q)) ''0'')
      \<or> (\<exists>x\<in>{- 5..5}. \<exists>d\<in>{- 2..2}.
            promptText q = promptPoint2 x (q_a q * x + q_b q + d)
            \<and> answer q = (if d = 0 then str_Co else str_Khong)))"

text \<open>
  Game 3: the equation of the line, whether it rises (\<open>a > 0\<close>) or falls (\<open>a < 0\<close>), and the
  signs of the two coefficients.
\<close>

definition recomputes3 :: "mcq_question \<Rightarrow> bool" where
  "recomputes3 q =
     ((promptText q = promptEquation3 \<and> answer q = formatEquation (q_a q) (q_b q))
      \<or> (promptText q = promptMonotone3 \<and> q_a q \<noteq> 0
        \<and> answer q = (if q_a q > 0 then str_DongBien else str_NghichBien))
      \<or> (promptText q = promptSigns3 \<and> q_a q \<noteq> 0 \<and> q_b q \<noteq> 0
        \<and> answer q = signOption (if q_a q > 0 then ''>'' else ''<'')
                                 (if q_b q > 0 then ''>'' else ''<'')))"

text \<open>
  Game 4 stores the prompt, the options and the index of the correct one; the coefficients
  stand in the prompt. The option at the recorded index is the one recomputed from them.
\<close>

definition recomputes4 :: "quiz_question \<Rightarrow> bool" where
  "recomputes4 q =
     (0 \<le> answerIndex q \<and> answerIndex q < int (length (quiz_question.options q))
      \<and> (\<exists>a\<in>{- 5..5}. \<exists>b\<in>{- 16..16}. a \<noteq> 0 \<and>
           (let chosen = quiz_question.options q ! nat (answerIndex q);
                shown = questionTextOf a b
            in (prompt q = promptMonotone4 shown
                  \<and> chosen = (if a > 0 then str_DongBien else str_NghichBien))
               \<or> (prompt q = promptYAxis4 shown
                  \<and> chosen = coords ''0'' (intToString (a * 0 + b)))
               \<or> (\<exists>x\<in>{1..5}. \<exists>d\<in>{- 1..1}.
                     prompt q = promptPoint4 shown x (a * x + b + d)
                     \<and> chosen = (if d = 0 then str_Co else str_Khong))
               \<or> (prompt q = promptParallel4 shown
                  \<and> (\<exists>b'\<in>{- 7..7}. b' \<noteq> b
                        \<and> chosen = ''y = '' @ intToString a @ ''x '' @ signedTerm b'))
               \<or> (prompt q = promptXAxis4 shown \<and> a dvd b \<and> a * (- b div a) + b = 0
                  \<and> chosen = coords (intToString (- b div a)) ''0''))))"

text \<open>
  An event that is judged a correct answer. In game 1: the form is submitted on a question
  not yet answered, and the number in the input field is the stored value; the countdown
  is no such event. In games 2 and 3: an option is chosen on a question not yet answered,
  and it is the stored answer. In the quiz: an option is chosen on a question not yet
  answered, and its index is the recorded one.
\<close>

fun scores1 :: "event \<Rightarrow> game1 \<Rightarrow> bool" where
  "scores1 Submit s =
     (\<not> isAnswered s
      \<and> (case game1.question s of
            None \<Rightarrow> False
          | Some q \<Rightarrow> parseInt (inputValue s) = Some (q_y q)))"
| "scores1 _ s = False"

fun scoresMcq :: "event \<Rightarrow> mcq \<Rightarrow> bool" where
  "scoresMcq (Select opt) s =
     (\<not> isAnswered s
      \<and> (case mcq.question s of None \<Rightarrow> False | Some q \<Rightarrow> opt = answer q))"
| "scoresMcq _ s = False"

fun scores4 :: "event \<Rightarrow> quiz \<Rightarrow> bool" where
  "scores4 (Pick k) s =
     (\<not> isAnswered s \<and> currentQIndex s < length (questions s)
      \<and> k = answerIndex (questions s ! currentQIndex s))"
| "scores4 _ s = False"

text \<open>
  An attempt to answer: submitting the form, choosing an option, or the countdown effect
  (which submits when the time is up).
\<close>

fun attempt :: "event \<Rightarrow> bool" where
  "attempt Submit = True"
| "attempt (Select opt) = True"
| "attempt (Pick k) = True"
| "attempt Countdown = True"
| "attempt _ = False"

text \<open>
  The events of a player who chooses, for each question in turn, the option at the recorded
  index, and then lets the scheduled \<open>nextQuestion\<close> fire.
\<close>

fun recordedPicks :: "quiz_question list \<Rightarrow> event list" where
  "recordedPicks [] = []"
| "recordedPicks (q # qs) = Pick (answerIndex q) # Fire # recordedPicks qs"

text \<open>
  The index that an event submits for judging in a state of the quiz, if it submits one: a
  chosen option on a question not yet answered, or -1 when the countdown effect finds the
  time used up.
\<close>

fun judged :: "event \<Rightarrow> quiz \<Rightarrow> int option" where
  "judged (Pick k) s = (if isAnswered s then None else Some k)"
| "judged Countdown s =
     (if isGameOver s \<or> isAnswered s \<or> quiz.timeLeft s > 0 then None else Some (- 1))"
| "judged _ s = None"

text \<open>
  A run of the quiz in which every index that is submitted for judging is the recorded index
  of the current question. (An option that shows the same text at another index is not the
  recorded one.)
\<close>

fun allRecorded :: "rng \<Rightarrow> bool \<Rightarrow> event list \<Rightarrow> quiz \<Rightarrow> bool" where
  "allRecorded g ai [] s = True"
| "allRecorded g ai (e # es) s =
     ((case judged e s of
         None \<Rightarrow> True
       | Some k \<Rightarrow> k = answerIndex (questions s ! currentQIndex s))
      \<and> (case step4 g ai e s of None \<Rightarrow> False | Some s' \<Rightarrow> allRecorded g ai es s'))"

text \<open>
  What holds of the quiz in every state it reaches: ten questions, each with its recorded
  index inside its options; the index of the current question below ten; a score that is a
  multiple of ten, at least zero and at most ten per question judged so far; one scheduled
  \<open>nextQuestion\<close>, which saw the current index, exactly while a judged question waits for
  the next one, and none otherwise.
\<close>

definition quiz_inv :: "quiz \<Rightarrow> bool" where
  "quiz_inv s =
     (length (questions s) = 10 \<and> list_all recomputes4 (questions s)
      \<and> currentQIndex s < 10
      \<and> 0 \<le> score s \<and> 10 dvd score s
      \<and> score s \<le> 10 * (int (currentQIndex s) + (if isAnswered s then 1 else 0))
      \<and> (if isGameOver s then isAnswered s \<and> quiz.scheduled s = []
          else if isAnswered s
            then length (quiz.scheduled s) = 1
                 \<and> seenIndex (hd (quiz.scheduled s)) = currentQIndex s
                 \<and> seenLength (hd (quiz.scheduled s)) = 10
          else quiz.scheduled s = []))"

section \<open>Properties\<close>

subsection \<open>The random source\<close>

lemma valid_rngD: "valid_rng g \<Longrightarrow> 0 \<le> g k \<and> g k < 1"
  by (simp add: valid_rng_def)

lemma floor_scaled:
  assumes "valid_rng g" and "0 < n"
  shows "0 \<le> \<lfloor>g k * of_int n\<rfloor> \<and> \<lfloor>g k * of_int n\<rfloor> < n"
proof -
  from assms(1) have r: "0 \<le> g k" "g k < 1" by (simp_all add: valid_rng_def)
  from r(1) assms(2) have "0 \<le> g k * of_int n" by simp
  then have lo: "0 \<le> \<lfloor>g k * of_int n\<rfloor>" by simp
  from r(2) assms(2) have "g k * of_int n < of_int n" by simp
  then have "\<lfloor>g k * of_int n\<rfloor> < n" by (simp add: floor_less_iff)
  with lo show ?thesis by simp
qed

lemma valid_draws: "list_all (\<lambda>r. 0 \<le> r \<and> r < 1) rs \<Longrightarrow> valid_rng (draws rs)"
  by (auto simp: valid_rng_def draws_def list_all_length)

lemma draw_int:
  assumes "valid_rng g" and "0 < n"
  obtains r where "\<lfloor>g k * of_int n\<rfloor> = r" and "0 \<le> r" and "r < n"
  using floor_scaled [OF assms, of k] by blast

subsection \<open>The shuffle\<close>

lemma agree_at: "agree g g' i j \<Longrightarrow> i \<le> k \<Longrightarrow> k < j \<Longrightarrow> g' k = g k"
  by (simp add: agree_def)

lemma agree_sub: "agree g g' i j \<Longrightarrow> i \<le> i' \<Longrightarrow> j' \<le> j \<Longrightarrow> agree g g' i' j'"
  by (simp add: agree_def)

lemma countRun_bounds:
  "countRun g d todo n i = (r, j) \<Longrightarrow> n \<le> r \<and> r \<le> n + todo \<and> i \<le> j"
proof (induction todo arbitrary: n i)
  case 0
  then show ?case by simp
next
  case (Suc todo)
  show ?case
  proof (cases "countRun g d todo (Suc n) (Suc i) = (r, j)")
    case True
    from Suc.IH [OF this] show ?thesis by simp
  next
    case False
    with Suc.prems have "r = n" "j = Suc i" by (simp_all add: Let_def split: if_splits)
    then show ?thesis by simp
  qed
qed


lemma rev_prefix_mset: "mset (rev (take k ws) @ drop k ws) = mset ws"
proof -
  have "mset (take k ws) + mset (drop k ws) = mset (take k ws @ drop k ws)"
    by (simp only: mset_append)
  also have "\<dots> = mset ws"
    by (simp only: append_take_drop_id)
  finally show ?thesis by simp
qed

lemma countAndMakeRun_mset:
  "countAndMakeRun g ws i = ((run, n), j) \<Longrightarrow> mset run = mset ws"
  using rev_prefix_mset [of _ ws]
  by (auto simp: countAndMakeRun_def Let_def split: prod.splits if_splits)

lemma countAndMakeRun_bounds:
  assumes "countAndMakeRun g ws i = ((run, n), j)" and "2 \<le> length ws"
  shows "2 \<le> n \<and> n \<le> length ws \<and> i < j"
proof -
  obtain r k where c: "countRun g (comparefn g i < 0) (length ws - 2) 2 (Suc i) = (r, k)"
    by (cases "countRun g (comparefn g i < 0) (length ws - 2) 2 (Suc i)")
  with assms(1) have "n = r" "j = k" by (simp_all add: countAndMakeRun_def Let_def)
  with countRun_bounds [OF c] assms(2) show ?thesis by auto
qed


lemma searchLeft_bounds:
  "searchLeft g left right i = (l, j) \<Longrightarrow> left \<le> right \<Longrightarrow> left \<le> l \<and> l \<le> right \<and> i \<le> j"
proof (induction g left right i rule: searchLeft.induct)
  case (1 g left right i)
  show ?case
  proof (cases "left < right")
    case False
    with "1.prems" show ?thesis by (simp add: searchLeft.simps)
  next
    case lr: True
    define mid where "mid = left + (right - left) div 2"
    from lr have m: "left \<le> mid" "mid < right" by (simp_all add: mid_def)
    show ?thesis
    proof (cases "comparefn g i < 0")
      case True
      with lr "1.prems"(1) have "searchLeft g left mid (Suc i) = (l, j)"
        by (simp add: searchLeft.simps [of g left right] mid_def Let_def)
      from "1.IH"(1) [OF lr mid_def True this m(1)] m show ?thesis by simp
    next
      case False
      with lr "1.prems"(1) have "searchLeft g (mid + 1) right (Suc i) = (l, j)"
        by (simp add: searchLeft.simps [of g left right] mid_def Let_def)
      from "1.IH"(2) [OF lr mid_def False this] m show ?thesis by simp
    qed
  qed
qed


lemma moveTo_mset:
  assumes "left \<le> start" and "start < length ws"
  shows "mset (moveTo ws left start) = mset ws"
proof -
  have a: "ws = take start ws @ ws ! start # drop (Suc start) ws"
    by (rule id_take_nth_drop [OF assms(2)])
  have "take left (take start ws) @ drop left (take start ws) = take start ws"
    by (rule append_take_drop_id)
  with assms(1) have b: "take left ws @ drop left (take start ws) = take start ws"
    by (simp add: min_def)
  have "mset ws = mset (take start ws @ ws ! start # drop (Suc start) ws)"
    using a by simp
  also have "\<dots> = mset ((take left ws @ drop left (take start ws)) @ ws ! start # drop (Suc start) ws)"
    by (simp only: b)
  also have "\<dots> = mset (moveTo ws left start)"
    by (simp add: moveTo_def)
  finally show ?thesis by simp
qed

lemma moveTo_length:
  assumes "left \<le> start" and "start < length ws"
  shows "length (moveTo ws left start) = length ws"
  using moveTo_mset [OF assms] by (rule mset_eq_length)

lemma binaryInsertionSort_mset:
  "binaryInsertionSort g todo start ws i = (r, j) \<Longrightarrow> start + todo = length ws
   \<Longrightarrow> mset r = mset ws"
proof (induction todo arbitrary: start ws i)
  case 0
  then show ?case by simp
next
  case (Suc todo)
  obtain left k where s: "searchLeft g 0 start i = (left, k)"
    by (cases "searchLeft g 0 start i")
  from searchLeft_bounds [OF s] have ls: "left \<le> start" by simp
  from Suc.prems(2) have lt: "start < length ws" by simp
  from Suc.prems(1) s have rec: "binaryInsertionSort g todo (Suc start) (moveTo ws left start) k = (r, j)"
    by simp
  from Suc.prems(2) have "Suc start + todo = length (moveTo ws left start)"
    by (simp add: moveTo_length [OF ls lt])
  from Suc.IH [OF rec this] show ?case by (simp add: moveTo_mset [OF ls lt])
qed

lemma binaryInsertionSort_cursor:
  "binaryInsertionSort g todo start ws i = (r, j) \<Longrightarrow> i \<le> j"
proof (induction todo arbitrary: start ws i)
  case 0
  then show ?case by simp
next
  case (Suc todo)
  obtain left k where s: "searchLeft g 0 start i = (left, k)"
    by (cases "searchLeft g 0 start i")
  from Suc.prems s have rec: "binaryInsertionSort g todo (Suc start) (moveTo ws left start) k = (r, j)"
    by simp
  from Suc.IH [OF rec] searchLeft_bounds [OF s] show ?case by simp
qed


lemma shuffleArray_mset: "mset (fst (shuffleArray g xs i)) = mset xs"
proof (cases "length xs < 2")
  case True
  then show ?thesis by (simp add: shuffleArray_def arrayTimSort_def)
next
  case False
  obtain run n k where c: "countAndMakeRun g xs i = ((run, n), k)"
    by (cases "countAndMakeRun g xs i") auto
  obtain r j where b: "binaryInsertionSort g (length xs - n) n run k = (r, j)"
    by (cases "binaryInsertionSort g (length xs - n) n run k")
  from False have two: "2 \<le> length xs" by simp
  have m: "mset run = mset xs" by (rule countAndMakeRun_mset [OF c])
  then have "length run = length xs" by (rule mset_eq_length)
  with countAndMakeRun_bounds [OF c two] have "n + (length xs - n) = length run" by simp
  from binaryInsertionSort_mset [OF b this] m False c b show ?thesis
    by (simp add: shuffleArray_def arrayTimSort_def)
qed

lemma shuffleArray_cursor: "shuffleArray g xs i = (r, j) \<Longrightarrow> i \<le> j"
proof (cases "length xs < 2")
  case True
  then show "shuffleArray g xs i = (r, j) \<Longrightarrow> i \<le> j"
    by (simp add: shuffleArray_def arrayTimSort_def)
next
  case False
  assume sh: "shuffleArray g xs i = (r, j)"
  obtain run n k where c: "countAndMakeRun g xs i = ((run, n), k)"
    by (cases "countAndMakeRun g xs i") auto
  from False have two: "2 \<le> length xs" by simp
  from sh False c have b: "binaryInsertionSort g (length xs - n) n run k = (r, j)"
    by (simp add: shuffleArray_def arrayTimSort_def)
  from binaryInsertionSort_cursor [OF b] countAndMakeRun_bounds [OF c two] show "i \<le> j" by simp
qed


lemma shuffleArray_set: "shuffleArray g xs i = (r, j) \<Longrightarrow> set r = set xs"
  using shuffleArray_mset [of g xs i] by (metis fst_conv set_mset_mset)

lemma indexOf_lower: "- 1 \<le> indexOf xs v"
  by (induction xs) (auto simp: Let_def)

lemma indexOf_member:
  "v \<in> set xs \<Longrightarrow> 0 \<le> indexOf xs v \<and> indexOf xs v < int (length xs) \<and> xs ! nat (indexOf xs v) = v"
proof (induction xs)
  case Nil
  then show ?case by simp
next
  case (Cons u us)
  show ?case
  proof (cases "u = v")
    case True
    then show ?thesis by simp
  next
    case False
    with Cons.prems have "v \<in> set us" by simp
    from Cons.IH [OF this] False show ?thesis
      by (simp add: Let_def nat_add_distrib)
  qed
qed




subsection \<open>The feedback hook\<close>

lemma fallbackMessage_populated: "fallbackMessage t \<noteq> []"
  by (cases t) simp_all

lemma fallbackMessage_two: "fallbackMessage Correct \<noteq> fallbackMessage Incorrect"
  by simp

lemma getFeedback_fulfils: "\<exists>h'. getFeedback ai r p t h = Inr h'"
  by (cases r) (simp_all add: getFeedback_def afterAwait_def tryBlock_def)

text \<open>
  C5. Whatever the prompt and the classification: when no key is configured, or when the
  remote call throws, \<open>getFeedback\<close> fulfils (no rejection reaches the caller) with the
  message set to the fallback string that the classification selects and with the loading
  flag down or untouched; that string is not empty, the two classifications select two
  different strings, and in every case at all, also with a key and a response, the call
  fulfils.
\<close>

theorem getFeedback_fallback:
  assumes "\<not> ai_client API_KEY \<or> r = Throws e"
  shows "(\<exists>h'. getFeedback (ai_client API_KEY) r p t h = Inr h'
           \<and> message (feedback h') = fallbackMessage t
           \<and> type (feedback h') = verdictString t
           \<and> message (feedback h') \<in> {fallbackMessage Correct, fallbackMessage Incorrect}
           \<and> message (feedback h') \<noteq> []
           \<and> isLoading h' = (\<not> ai_client API_KEY \<and> isLoading h))
         \<and> fallbackMessage Correct \<noteq> fallbackMessage Incorrect
         \<and> (\<forall>ai r'. \<exists>h'. getFeedback ai r' p t h = Inr h')"
proof -
  have two: "fallbackMessage t \<in> {fallbackMessage Correct, fallbackMessage Incorrect}"
    by (cases t) simp_all
  have "\<exists>h'. getFeedback (ai_client API_KEY) r p t h = Inr h'
           \<and> message (feedback h') = fallbackMessage t
           \<and> type (feedback h') = verdictString t
           \<and> message (feedback h') \<in> {fallbackMessage Correct, fallbackMessage Incorrect}
           \<and> message (feedback h') \<noteq> []
           \<and> isLoading h' = (\<not> ai_client API_KEY \<and> isLoading h)"
  proof (cases "ai_client API_KEY")
    case False
    then show ?thesis
      using two fallbackMessage_populated [of t]
      by (simp add: getFeedback_def beforeAwait_def)
  next
    case True
    with assms have "r = Throws e" by simp
    with True show ?thesis
      using two fallbackMessage_populated [of t]
      by (simp add: getFeedback_def beforeAwait_def afterAwait_def tryBlock_def)
  qed
  moreover have "\<forall>ai r'. \<exists>h'. getFeedback ai r' p t h = Inr h'"
    using getFeedback_fulfils by blast
  ultimately show ?thesis
    using fallbackMessage_two by blast
qed

theorem getFeedback_fallback_witness:
  "getFeedback (ai_client (Some ''key'')) (Throws RemoteError) ''prompt'' Incorrect initialHook
     = Inr \<lparr>feedback = \<lparr>message = fallbackMessage Incorrect, type = ''incorrect''\<rparr>,
            isLoading = False\<rparr>
   \<and> getFeedback (ai_client None) (Text ''Well done'') ''prompt'' Correct initialHook
     = Inr \<lparr>feedback = \<lparr>message = fallbackMessage Correct, type = ''correct''\<rparr>,
            isLoading = False\<rparr>"
  using getFeedback_fallback [of "Some ''key''" "Throws RemoteError" RemoteError "''prompt''" Incorrect initialHook]
    getFeedback_fallback [of None "Text ''Well done''" RemoteError "''prompt''" Correct initialHook]
  by (simp add: ai_client_def getFeedback_def beforeAwait_def afterAwait_def tryBlock_def
      initialHook_def)

subsection \<open>The question generators\<close>

text \<open>Game 1.\<close>

lemma drawQuestion1_ok:
  assumes "valid_rng g"
  shows "recomputes1 (fst (drawQuestion1 g i))" and "q_a (fst (drawQuestion1 g i)) \<noteq> 0"
    and "snd (drawQuestion1 g i) = i + 3"
  by (simp_all add: drawQuestion1_def recomputes1_def Let_def)

text \<open>Game 2.\<close>

lemma signed_draw:
  assumes "valid_rng g" and "0 < n"
  shows "(\<lfloor>g k * of_int n\<rfloor> + 1) * (if g k' < 1 / 2 then 1 else - 1) \<noteq> 0
         \<and> - n \<le> (\<lfloor>g k * of_int n\<rfloor> + 1) * (if g k' < 1 / 2 then 1 else - 1)
         \<and> (\<lfloor>g k * of_int n\<rfloor> + 1) * (if g k' < 1 / 2 then 1 else - 1) \<le> n"
proof -
  obtain r where r: "\<lfloor>g k * of_int n\<rfloor> = r" "0 \<le> r" "r < n"
    by (rule draw_int [OF assms, of k])
  show ?thesis
    unfolding r(1) using r(2,3) by (cases "g k' < 1 / 2") simp_all
qed

lemma drawCoefficients2_once:
  assumes "valid_rng g"
  shows "\<exists>a b k. drawCoefficients2 g i = Some ((a, b), i + 4)
           \<and> a \<noteq> 0 \<and> - 5 \<le> a \<and> a \<le> 5 \<and> 1 \<le> k \<and> k \<le> 5 \<and> (b = a * k \<or> b = - (a * k))"
proof -
  define a where "a = (\<lfloor>g i * 5\<rfloor> + 1) * (if g (i + 1) < 1 / 2 then 1 else - 1)"
  define k where "k = \<lfloor>g (i + 2) * 5\<rfloor> + 1"
  define b where "b = (if g (i + 3) < 1 / 2 then - (a * k) else a * k)"
  have a: "a \<noteq> 0" "- 5 \<le> a" "a \<le> 5"
    using signed_draw [OF assms, of 5 i "i + 1"] by (simp_all add: a_def)
  obtain r where r: "\<lfloor>g (i + 2) * of_int 5\<rfloor> = r" "0 \<le> r" "r < 5"
    by (rule draw_int [OF assms, of 5 "i + 2"]) simp
  have k: "1 \<le> k" "k \<le> 5"
    using r by (simp_all add: k_def)
  from a(1) k(1) have "a * k \<noteq> 0" by simp
  then have b: "b \<noteq> 0" by (simp add: b_def)
  have unfolded: "drawCoefficients2 g i =
      (if b = 0 then drawCoefficients2 g (i + 4) else Some ((a, b), i + 4))"
    by (subst drawCoefficients2.simps)
      (simp only: Let_def a_def k_def b_def minus_mult_right [symmetric])
  have "drawCoefficients2 g i = Some ((a, b), i + 4)"
    using b by (simp only: unfolded if_False)
  moreover have "b = a * k \<or> b = - (a * k)" by (simp add: b_def)
  ultimately show ?thesis using a k by blast
qed

lemma multiple_quotient:
  fixes a k :: int
  assumes "a \<noteq> 0" and "b = a * k \<or> b = - (a * k)"
  shows "a dvd b" and "a * (- b div a) + b = 0" and "divide_num (- b) a = Integer (- b div a)"
    and "- b div a = k \<or> - b div a = - k"
proof -
  from assms(2) show d: "a dvd b" by auto
  then have "a dvd - b" by simp
  then have "a * (- b div a) = - b" by simp
  then show "a * (- b div a) + b = 0" by simp
  from assms(1) d show "divide_num (- b) a = Integer (- b div a)"
    by (simp add: divide_num_def)
  from assms(2) have "- b = a * - k \<or> - b = a * k" by auto
  with assms(1) show "- b div a = k \<or> - b div a = - k"
    by (metis nonzero_mult_div_cancel_left)
qed

lemma str_Co_Khong: "str_Co \<noteq> str_Khong"
  by (simp add: str_Co_def str_Khong_def)

lemma str_DongBien_NghichBien: "str_DongBien \<noteq> str_NghichBien"
  by (simp add: str_DongBien_def str_NghichBien_def)

lemma yIntercept2_ok:
  "yIntercept2 g a b i = (q, j) \<Longrightarrow>
     recomputes2 q \<and> q_a q = a \<and> q_b q = b \<and> answer q \<in> set (mcq_question.options q) \<and> i \<le> j"
proof -
  assume h: "yIntercept2 g a b i = (q, j)"
  obtain sh j' where sh: "shuffleArray g [coords ''0'' (intToString b), coords (intToString b) ''0'',
      coords ''0'' (intToString a), coords (intToString a) ''0''] i = (sh, j')"
    by (cases "shuffleArray g [coords ''0'' (intToString b), coords (intToString b) ''0'',
      coords ''0'' (intToString a), coords (intToString a) ''0''] i")
  from h sh have q: "q = \<lparr>q_a = a, q_b = b, mcq_question.options = sh, answer = coords ''0'' (intToString b),
      promptText = promptYAxis2\<rparr>" and j: "j = j'"
    by (simp_all add: yIntercept2_def Let_def)
  from shuffleArray_set [OF sh] have "coords ''0'' (intToString b) \<in> set sh" by simp
  with q j shuffleArray_cursor [OF sh] show ?thesis
    by (simp add: recomputes2_def)
qed

lemma xIntercept2_ok:
  assumes "a \<noteq> 0" and "b = a * k \<or> b = - (a * k)"
  shows "\<exists>q j. xIntercept2 g a b i = Some (q, j)
     \<and> recomputes2 q \<and> q_a q = a \<and> q_b q = b \<and> answer q \<in> set (mcq_question.options q) \<and> i \<le> j"
proof -
  let ?x = "intToString (- b div a)"
  note m = multiple_quotient [OF assms]
  obtain sh j' where sh: "shuffleArray g [coords ?x ''0'', coords ''0'' (intToString b),
      coords ''0'' ?x, coords ''0'' (intToString a)] i = (sh, j')"
    by (cases "shuffleArray g [coords ?x ''0'', coords ''0'' (intToString b),
      coords ''0'' ?x, coords ''0'' (intToString a)] i")
  let ?q = "\<lparr>q_a = a, q_b = b, mcq_question.options = sh, answer = coords ?x ''0'',
      promptText = promptXAxis2\<rparr>"
  from sh m(3) have "xIntercept2 g a b i = Some (?q, j')"
    by (simp add: xIntercept2_def Let_def)
  moreover from shuffleArray_set [OF sh] have "coords ?x ''0'' \<in> set sh" by simp
  moreover have "recomputes2 ?q"
    using assms(1) m(1,2) by (simp add: recomputes2_def)
  ultimately show ?thesis using shuffleArray_cursor [OF sh] by auto
qed

lemma pointCheck2_ok:
  assumes "valid_rng g" and "pointCheck2 g a b i = (q, j)"
  shows "recomputes2 q \<and> q_a q = a \<and> q_b q = b \<and> answer q \<in> set (mcq_question.options q) \<and> i \<le> j"
proof -
  define x where "x = \<lfloor>g i * 11\<rfloor> - 5"
  define d where "d = (if g (i + 1) < 1 / 2 then 0
                       else (if g (i + 2) < 1 / 2 then 1 else - 1) * (\<lfloor>g (i + 3) * 2\<rfloor> + 1))"
  obtain rx where rx: "\<lfloor>g i * of_int 11\<rfloor> = rx" "0 \<le> rx" "rx < 11"
    by (rule draw_int [OF assms(1), of 11 i]) simp
  obtain rd where rd: "\<lfloor>g (i + 3) * of_int 2\<rfloor> = rd" "0 \<le> rd" "rd < 2"
    by (rule draw_int [OF assms(1), of 2 "i + 3"]) simp
  from rx(1) have "x = rx - 5" by (simp add: x_def)
  with rx(2,3) have x: "x \<in> {- 5..5}" by simp
  from rd(1) have dd: "d = (if g (i + 1) < 1 / 2 then 0
                       else (if g (i + 2) < 1 / 2 then 1 else - 1) * (rd + 1))"
    by (simp add: d_def)
  with rd(2,3) have d: "d \<in> {- 2..2}" by (auto split: if_splits)
  from dd rd(2,3) have d0: "d = 0 \<longleftrightarrow> g (i + 1) < 1 / 2"
    by (auto split: if_splits)
  from assms(2) have q: "q = \<lparr>q_a = a, q_b = b, mcq_question.options = [str_Co, str_Khong],
      answer = (if d = 0 then str_Co else str_Khong),
      promptText = promptPoint2 x (a * x + b + d)\<rparr>"
    using d0 by (auto simp: pointCheck2_def Let_def x_def d_def)
  from assms(2) have j: "i \<le> j" by (auto simp: pointCheck2_def Let_def)
  have "promptText q = promptPoint2 x (q_a q * x + q_b q + d)
          \<and> answer q = (if d = 0 then str_Co else str_Khong)"
    by (simp add: q)
  with x d have "\<exists>x\<in>{- 5..5}. \<exists>d\<in>{- 2..2}.
            promptText q = promptPoint2 x (q_a q * x + q_b q + d)
            \<and> answer q = (if d = 0 then str_Co else str_Khong)"
    by blast
  then have "recomputes2 q"
    unfolding recomputes2_def by blast
  with j show ?thesis by (simp add: q)
qed

lemma drawQuestion2_ok:
  assumes "valid_rng g"
  shows "\<exists>q j. drawQuestion2 g i = Some (q, j) \<and> recomputes2 q \<and> q_a q \<noteq> 0 \<and> q_b q \<noteq> 0
           \<and> q_a q dvd q_b q \<and> divide_num (- q_b q) (q_a q) = Integer (- q_b q div q_a q)
           \<and> answer q \<in> set (mcq_question.options q) \<and> i \<le> j"
proof -
  from drawCoefficients2_once [OF assms, of i] obtain a b k where
    c: "drawCoefficients2 g i = Some ((a, b), i + 4)" and a: "a \<noteq> 0"
    and k: "1 \<le> k" and b: "b = a * k \<or> b = - (a * k)"
    by blast
  from a k b have b0: "b \<noteq> 0" by auto
  note m = multiple_quotient [OF a b]
  define t where "t = \<lfloor>g (i + 4) * 3\<rfloor>"
  obtain rt where rt: "\<lfloor>g (i + 4) * of_int 3\<rfloor> = rt" "0 \<le> rt" "rt < 3"
    by (rule draw_int [OF assms, of 3 "i + 4"]) simp
  from rt(1) have "t = rt" by (simp add: t_def)
  with rt(2,3) have t: "t = 0 \<or> t = 1 \<or> t = 2" by auto
  have "\<exists>q j. drawQuestion2 g i = Some (q, j) \<and> recomputes2 q \<and> q_a q = a \<and> q_b q = b
           \<and> answer q \<in> set (mcq_question.options q) \<and> i \<le> j"
  proof -
    consider "t = 0" | "t = 1" | "t = 2" using t by blast
    then show ?thesis
    proof cases
      case 1
      obtain q j where y: "yIntercept2 g a b (i + 4 + 1) = (q, j)"
        by (cases "yIntercept2 g a b (i + 4 + 1)")
      with c 1 have "drawQuestion2 g i = Some (q, j)"
        by (simp add: drawQuestion2_def t_def)
      with yIntercept2_ok [OF y] show ?thesis by auto
    next
      case 2
      from xIntercept2_ok [OF a b, of g "i + 4 + 1"] obtain q j where
        y: "xIntercept2 g a b (i + 4 + 1) = Some (q, j)" and
        r: "recomputes2 q \<and> q_a q = a \<and> q_b q = b \<and> answer q \<in> set (mcq_question.options q) \<and> i + 4 + 1 \<le> j"
        by blast
      with c 2 have "drawQuestion2 g i = Some (q, j)"
        by (simp add: drawQuestion2_def t_def)
      with r show ?thesis by auto
    next
      case 3
      obtain q j where y: "pointCheck2 g a b (i + 4 + 1) = (q, j)"
        by (cases "pointCheck2 g a b (i + 4 + 1)")
      with c 3 have "drawQuestion2 g i = Some (q, j)"
        by (simp add: drawQuestion2_def t_def)
      with pointCheck2_ok [OF assms y] show ?thesis by auto
    qed
  qed
  with a b0 m show ?thesis by auto
qed

text \<open>Game 3.\<close>

lemma guessEquation3_ok:
  assumes "guessEquation3 g a b i = (q, j)"
  shows "recomputes3 q \<and> q_a q = a \<and> q_b q = b \<and> answer q \<in> set (mcq_question.options q) \<and> i \<le> j"
proof -
  define ws where "ws = take 3 (let w3 = setAdd (formatEquation (- a) (- b))
        (setAdd (formatEquation a (- b)) (setAdd (formatEquation (- a) b) []))
      in if length w3 < 3 then setAdd (formatEquation (a * 2) b) w3 else w3)"
  obtain sh j' where sh: "shuffleArray g (formatEquation a b # ws) i = (sh, j')"
    by (cases "shuffleArray g (formatEquation a b # ws) i")
  from assms sh have q: "q = \<lparr>q_a = a, q_b = b, mcq_question.options = sh,
      answer = formatEquation a b, promptText = promptEquation3\<rparr>" and j: "j = j'"
    by (simp_all add: guessEquation3_def Let_def ws_def)
  from shuffleArray_set [OF sh] have "formatEquation a b \<in> set sh" by simp
  with q j shuffleArray_cursor [OF sh] show ?thesis
    by (simp add: recomputes3_def)
qed

lemma allSignOptions_eq:
  "setAdd (signOption ''<'' ''<'') (setAdd (signOption ''<'' ''>'')
     (setAdd (signOption ''>'' ''<'') (setAdd (signOption ''>'' ''>'') [])))
   = [signOption ''>'' ''>'', signOption ''>'' ''<'', signOption ''<'' ''>'', signOption ''<'' ''<'']"
  by (simp add: setAdd_def signOption_def)

lemma signQuestion3_ok:
  assumes "signQuestion3 g a b i = (q, j)" and "a \<noteq> 0" and "b \<noteq> 0"
  shows "recomputes3 q \<and> q_a q = a \<and> q_b q = b \<and> answer q \<in> set (mcq_question.options q) \<and> i \<le> j"
proof -
  let ?all = "[signOption ''>'' ''>'', signOption ''>'' ''<'', signOption ''<'' ''>'', signOption ''<'' ''<'']"
  let ?ans = "signOption (if a > 0 then ''>'' else ''<'') (if b > 0 then ''>'' else ''<'')"
  obtain sh j' where sh: "shuffleArray g ?all i = (sh, j')"
    by (cases "shuffleArray g ?all i")
  from assms(1) sh have q: "q = \<lparr>q_a = a, q_b = b, mcq_question.options = sh,
      answer = ?ans, promptText = promptSigns3\<rparr>" and j: "j = j'"
    by (simp_all add: signQuestion3_def Let_def allSignOptions_eq)
  have "?ans \<in> set ?all" by simp
  with shuffleArray_set [OF sh] have "?ans \<in> set sh" by simp
  with q j assms(2,3) shuffleArray_cursor [OF sh] show ?thesis
    by (simp add: recomputes3_def)
qed

lemma drawQuestion3_ok:
  assumes "valid_rng g" and "drawQuestion3 g i = (q, j)"
  shows "recomputes3 q \<and> q_a q \<noteq> 0 \<and> q_b q \<noteq> 0 \<and> answer q \<in> set (mcq_question.options q) \<and> i \<le> j"
proof -
  define a where "a = (\<lfloor>g i * 5\<rfloor> + 1) * (if g (i + 1) < 1 / 2 then 1 else - 1)"
  define b where "b = (\<lfloor>g (i + 2) * 5\<rfloor> + 1) * (if g (i + 3) < 1 / 2 then 1 else - 1)"
  define t where "t = \<lfloor>g (i + 4) * 3\<rfloor>"
  have a: "a \<noteq> 0" using signed_draw [OF assms(1), of 5 i "i + 1"] by (simp add: a_def)
  have b: "b \<noteq> 0" using signed_draw [OF assms(1), of 5 "i + 2" "i + 3"] by (simp add: b_def)
  obtain rt where rt: "\<lfloor>g (i + 4) * of_int 3\<rfloor> = rt" "0 \<le> rt" "rt < 3"
    by (rule draw_int [OF assms(1), of 3 "i + 4"]) simp
  from rt(1) have "t = rt" by (simp add: t_def)
  with rt(2,3) have t: "t = 0 \<or> t = 1 \<or> t = 2" by auto
  have unfolded: "drawQuestion3 g i =
      (if t = 0 then guessEquation3 g a b (i + 5)
       else if t = 1 then
         (\<lparr>q_a = a, q_b = b, mcq_question.options = [str_DongBien, str_NghichBien],
           answer = (if a > 0 then str_DongBien else str_NghichBien),
           promptText = promptMonotone3\<rparr>, i + 5)
       else if t = 2 then signQuestion3 g a b (i + 5)
       else (\<lparr>q_a = a, q_b = b, mcq_question.options = [], answer = [], promptText = []\<rparr>, i + 5))"
    by (simp only: drawQuestion3_def Let_def a_def b_def t_def)
  have "recomputes3 q \<and> q_a q = a \<and> q_b q = b \<and> answer q \<in> set (mcq_question.options q) \<and> i \<le> j"
  proof -
    consider "t = 0" | "t = 1" | "t = 2" using t by blast
    then show ?thesis
    proof cases
      case 1
      with assms(2) unfolded have "guessEquation3 g a b (i + 5) = (q, j)" by simp
      from guessEquation3_ok [OF this] show ?thesis by simp
    next
      case 2
      with assms(2) unfolded have "q = \<lparr>q_a = a, q_b = b,
          mcq_question.options = [str_DongBien, str_NghichBien],
          answer = (if a > 0 then str_DongBien else str_NghichBien),
          promptText = promptMonotone3\<rparr>" and "j = i + 5"
        by simp_all
      with a show ?thesis by (simp add: recomputes3_def)
    next
      case 3
      with assms(2) unfolded have "signQuestion3 g a b (i + 5) = (q, j)" by simp
      from signQuestion3_ok [OF this a b] show ?thesis by simp
    qed
  qed
  with a b show ?thesis by simp
qed

text \<open>Game 4.\<close>

lemma recomputes4I:
  assumes "0 \<le> answerIndex q" and "answerIndex q < int (length (quiz_question.options q))"
    and "a \<in> {- 5..5}" and "b \<in> {- 16..16}" and "a \<noteq> 0"
    and "(prompt q = promptMonotone4 (questionTextOf a b)
            \<and> quiz_question.options q ! nat (answerIndex q)
                = (if a > 0 then str_DongBien else str_NghichBien))
         \<or> (prompt q = promptYAxis4 (questionTextOf a b)
            \<and> quiz_question.options q ! nat (answerIndex q) = coords ''0'' (intToString (a * 0 + b)))
         \<or> (\<exists>x\<in>{1..5}. \<exists>d\<in>{- 1..1}.
               prompt q = promptPoint4 (questionTextOf a b) x (a * x + b + d)
               \<and> quiz_question.options q ! nat (answerIndex q) = (if d = 0 then str_Co else str_Khong))
         \<or> (prompt q = promptParallel4 (questionTextOf a b)
            \<and> (\<exists>b'\<in>{- 7..7}. b' \<noteq> b
                  \<and> quiz_question.options q ! nat (answerIndex q)
                      = ''y = '' @ intToString a @ ''x '' @ signedTerm b'))
         \<or> (prompt q = promptXAxis4 (questionTextOf a b) \<and> a dvd b \<and> a * (- b div a) + b = 0
            \<and> quiz_question.options q ! nat (answerIndex q) = coords (intToString (- b div a)) ''0'')"
  shows "recomputes4 q"
  unfolding recomputes4_def Let_def using assms by blast

lemma shuffled_index:
  assumes "shuffleArray g (c # rest) i = (sh, j)"
  shows "0 \<le> indexOf sh c" and "indexOf sh c < int (length sh)" and "sh ! nat (indexOf sh c) = c"
    and "i \<le> j"
proof -
  from shuffleArray_set [OF assms] have "c \<in> set sh" by simp
  from indexOf_member [OF this]
  show "0 \<le> indexOf sh c" and "indexOf sh c < int (length sh)" and "sh ! nat (indexOf sh c) = c"
    by simp_all
  show "i \<le> j" by (rule shuffleArray_cursor [OF assms])
qed

lemma yIntercept4_ok:
  assumes "yIntercept4 g a b i = (q, j)" and "a \<in> {- 5..5}" and "b \<in> {- 16..16}" and "a \<noteq> 0"
  shows "recomputes4 q \<and> i \<le> j"
proof -
  let ?c = "coords ''0'' (intToString b)"
  let ?rest = "[coords (intToString b) ''0'', coords ''0'' (intToString a),
                coords ''0'' (intToString (- b))]"
  obtain sh j' where sh: "shuffleArray g (?c # ?rest) i = (sh, j')"
    by (cases "shuffleArray g (?c # ?rest) i")
  from assms(1) sh have q: "q = \<lparr>prompt = promptYAxis4 (questionTextOf a b),
      quiz_question.options = sh, answerIndex = indexOf sh ?c\<rparr>" and j: "j = j'"
    by (simp_all add: yIntercept4_def Let_def)
  note ix = shuffled_index [OF sh]
  have "recomputes4 q"
    by (rule recomputes4I [OF _ _ assms(2,3,4)]) (use ix in \<open>simp_all add: q\<close>)
  with ix(4) j show ?thesis by simp
qed

lemma pointCheck4_ok:
  assumes "valid_rng g" and "pointCheck4 g a b i = (q, j)"
    and "a \<in> {- 5..5}" and "b \<in> {- 16..16}" and "a \<noteq> 0"
  shows "recomputes4 q \<and> i \<le> j"
proof -
  define x where "x = \<lfloor>g i * 5\<rfloor> + 1"
  define d where "d = (if g (i + 1) < 1 / 2 then 0 else if g (i + 2) < 1 / 2 then 1 else - 1 :: int)"
  obtain rx where rx: "\<lfloor>g i * of_int 5\<rfloor> = rx" "0 \<le> rx" "rx < 5"
    by (rule draw_int [OF assms(1), of 5 i]) simp
  from rx(1) have "x = rx + 1" by (simp add: x_def)
  with rx(2,3) have x: "x \<in> {1..5}" by simp
  have d: "d \<in> {- 1..1}" by (simp add: d_def)
  have d0: "d = 0 \<longleftrightarrow> g (i + 1) < 1 / 2" by (simp add: d_def)
  from assms(2) have q: "q = \<lparr>prompt = promptPoint4 (questionTextOf a b) x (a * x + b + d),
      quiz_question.options = [str_Co, str_Khong], answerIndex = (if d = 0 then 0 else 1)\<rparr>"
    by (auto simp: pointCheck4_def Let_def x_def d_def)
  from assms(2) have j: "i \<le> j" by (auto simp: pointCheck4_def Let_def)
  have "prompt q = promptPoint4 (questionTextOf a b) x (a * x + b + d)
        \<and> quiz_question.options q ! nat (answerIndex q) = (if d = 0 then str_Co else str_Khong)"
    by (simp add: q)
  with x d have "\<exists>x\<in>{1..5}. \<exists>d\<in>{- 1..1}.
               prompt q = promptPoint4 (questionTextOf a b) x (a * x + b + d)
               \<and> quiz_question.options q ! nat (answerIndex q) = (if d = 0 then str_Co else str_Khong)"
    by blast
  then have "recomputes4 q"
    by (intro recomputes4I [OF _ _ assms(3,4,5)]) (simp_all add: q)
  with j show ?thesis by simp
qed

lemma parallel4_ok:
  assumes "valid_rng g" and "parallel4 g a b i = (q, j)"
    and "a \<in> {- 5..5}" and "b \<in> {- 4..4}" and "a \<noteq> 0"
  shows "recomputes4 q \<and> i \<le> j"
proof -
  define moved where "moved = b + (if g i < 1 / 2 then 1 else - 1) * (\<lfloor>g (i + 1) * 3\<rfloor> + 1)"
  define b_diff where "b_diff = (if moved = 0 then b + 1 else moved)"
  obtain r where r: "\<lfloor>g (i + 1) * of_int 3\<rfloor> = r" "0 \<le> r" "r < 3"
    by (rule draw_int [OF assms(1), of 3 "i + 1"]) simp
  from r(1) have m: "moved = b + (r + 1) \<or> moved = b - (r + 1)"
    by (simp add: moved_def)
  with r(2,3) have "moved \<noteq> b" by auto
  then have ne: "b_diff \<noteq> b" by (simp add: b_diff_def)
  from m r(2,3) assms(4) have rng: "b_diff \<in> {- 7..7}" by (auto simp: b_diff_def)
  let ?c = "''y = '' @ intToString a @ ''x '' @ signedTerm b_diff"
  let ?rest = "[''y = '' @ intToString (- a) @ ''x '' @ signedTerm b,
                 ''y = '' @ intToString a @ ''x '' @ signedTerm b,
                 ''y = '' @ intToString (a + 1) @ ''x ''
                   @ (if b \<ge> 0 then ''+ '' @ intToString b_diff
                      else ''- '' @ intToString \<bar>b_diff\<bar>)]"
  obtain sh j' where sh: "shuffleArray g (?c # ?rest) (i + 2) = (sh, j')"
    by (cases "shuffleArray g (?c # ?rest) (i + 2)")
  have unfolded: "parallel4 g a b i =
      (case shuffleArray g (?c # ?rest) (i + 2) of
         (shuffled, j) \<Rightarrow>
           (\<lparr>prompt = promptParallel4 (questionTextOf a b), quiz_question.options = shuffled,
             answerIndex = indexOf shuffled ?c\<rparr>, j))"
    by (simp only: parallel4_def Let_def moved_def b_diff_def)
  from assms(2) have q: "q = \<lparr>prompt = promptParallel4 (questionTextOf a b),
      quiz_question.options = sh, answerIndex = indexOf sh ?c\<rparr>" and j: "j = j'"
    unfolding unfolded sh by simp_all
  note ix = shuffled_index [OF sh]
  have p4: "prompt q = promptParallel4 (questionTextOf a b)" by (simp add: q)
  have ch: "quiz_question.options q ! nat (answerIndex q) = ?c" using ix(3) by (simp add: q)
  from ne rng ch have ex: "\<exists>b'\<in>{- 7..7}. b' \<noteq> b
      \<and> quiz_question.options q ! nat (answerIndex q) = ''y = '' @ intToString a @ ''x '' @ signedTerm b'"
    by blast
  have i1: "0 \<le> answerIndex q" using ix(1) by (simp add: q)
  have i2: "answerIndex q < int (length (quiz_question.options q))" using ix(2) by (simp add: q)
  from assms(4) have brange: "b \<in> {- 16..16}" by simp
  have "recomputes4 q"
    by (rule recomputes4I [OF i1 i2 assms(3) brange assms(5)]) (use p4 ex in blast)
  with ix(4) j show ?thesis by simp
qed

lemma drawCoefficients4_ok:
  assumes "valid_rng g"
  shows "\<exists>a b k. drawCoefficients4 g i = ((a, b), i + 4) \<and> a \<noteq> 0 \<and> - 4 \<le> a \<and> a \<le> 4
           \<and> 1 \<le> k \<and> k \<le> 4 \<and> (b = a * k \<or> b = - (a * k))"
proof -
  define a where "a = (\<lfloor>g i * 4\<rfloor> + 1) * (if g (i + 1) < 1 / 2 then 1 else - 1)"
  define k where "k = \<lfloor>g (i + 2) * 4\<rfloor> + 1"
  define b where "b = a * k * (if g (i + 3) < 1 / 2 then 1 else - 1)"
  have a: "a \<noteq> 0" "- 4 \<le> a" "a \<le> 4"
    using signed_draw [OF assms, of 4 i "i + 1"] by (simp_all add: a_def)
  obtain r where r: "\<lfloor>g (i + 2) * of_int 4\<rfloor> = r" "0 \<le> r" "r < 4"
    by (rule draw_int [OF assms, of 4 "i + 2"]) simp
  have k: "1 \<le> k" "k \<le> 4" using r by (simp_all add: k_def)
  have "drawCoefficients4 g i = ((a, b), i + 4)"
    by (simp only: drawCoefficients4_def Let_def a_def k_def b_def)
  moreover have "b = a * k \<or> b = - (a * k)" by (simp add: b_def)
  ultimately show ?thesis using a k by blast
qed

lemma xIntercept4_ok:
  assumes "valid_rng g"
  shows "\<exists>q j. xIntercept4 g i = Some (q, j) \<and> recomputes4 q \<and> i \<le> j"
proof -
  from drawCoefficients4_ok [OF assms, of i] obtain a b k where
    c: "drawCoefficients4 g i = ((a, b), i + 4)" and a: "a \<noteq> 0" "- 4 \<le> a" "a \<le> 4"
    and k: "1 \<le> k" "k \<le> 4" and b: "b = a * k \<or> b = - (a * k)"
    by blast
  note m = multiple_quotient [OF a(1) b]
  have "\<bar>a * k\<bar> \<le> 4 * 4"
    unfolding abs_mult using a k by (intro mult_mono) auto
  with b have brange: "b \<in> {- 16..16}" by auto
  from a have arange: "a \<in> {- 5..5}" by simp
  let ?x = "intToString (- b div a)"
  let ?c = "coords ?x ''0''"
  let ?rest = "[coords ''0'' (intToString b), coords ''0'' ?x, coords (intToString b) ''0'']"
  obtain sh j' where sh: "shuffleArray g (?c # ?rest) (i + 4) = (sh, j')"
    by (cases "shuffleArray g (?c # ?rest) (i + 4)")
  let ?q = "\<lparr>prompt = promptXAxis4 (questionTextOf a b), quiz_question.options = sh,
      answerIndex = indexOf sh ?c\<rparr>"
  from c sh m(3) have x: "xIntercept4 g i = Some (?q, j')"
    by (simp add: xIntercept4_def Let_def)
  note ix = shuffled_index [OF sh]
  have "recomputes4 ?q"
    by (rule recomputes4I [OF _ _ arange brange a(1)]) (use ix m(1,2) in simp_all)
  with x ix(4) show ?thesis by auto
qed

lemma quizQuestion_ok:
  assumes "valid_rng g"
  shows "\<exists>q j. quizQuestion g i = Some (q, j) \<and> recomputes4 q \<and> i \<le> j"
proof -
  define a where "a = (\<lfloor>g i * 5\<rfloor> + 1) * (if g (i + 1) < 1 / 2 then 1 else - 1)"
  define b where "b = \<lfloor>g (i + 2) * 9\<rfloor> - 4"
  define t where "t = \<lfloor>g (i + 3) * 5\<rfloor>"
  have a: "a \<noteq> 0" "a \<in> {- 5..5}"
    using signed_draw [OF assms, of 5 i "i + 1"] by (simp_all add: a_def)
  obtain rb where rb: "\<lfloor>g (i + 2) * of_int 9\<rfloor> = rb" "0 \<le> rb" "rb < 9"
    by (rule draw_int [OF assms, of 9 "i + 2"]) simp
  from rb(1) have "b = rb - 4" by (simp add: b_def)
  with rb(2,3) have b: "b \<in> {- 4..4}" "b \<in> {- 16..16}" by simp_all
  obtain rt where rt: "\<lfloor>g (i + 3) * of_int 5\<rfloor> = rt" "0 \<le> rt" "rt < 5"
    by (rule draw_int [OF assms, of 5 "i + 3"]) simp
  from rt(1) have "t = rt" by (simp add: t_def)
  with rt(2,3) have t: "t = 0 \<or> t = 1 \<or> t = 2 \<or> t = 3 \<or> t = 4" by auto
  have unfolded: "quizQuestion g i =
     (if t = 0 then
           Some (\<lparr>prompt = promptMonotone4 (questionTextOf a b),
                  quiz_question.options = [str_DongBien, str_NghichBien],
                  answerIndex = (if a > 0 then 0 else 1)\<rparr>, i + 4)
         else if t = 1 then Some (yIntercept4 g a b (i + 4))
         else if t = 2 then Some (pointCheck4 g a b (i + 4))
         else if t = 3 then Some (parallel4 g a b (i + 4))
         else if t = 4 then xIntercept4 g (i + 4)
         else None)"
    by (simp only: quizQuestion_def Let_def a_def b_def t_def)
  consider "t = 0" | "t = 1" | "t = 2" | "t = 3" | "t = 4" using t by blast
  then show ?thesis
  proof cases
    case 1
    let ?q = "\<lparr>prompt = promptMonotone4 (questionTextOf a b),
                  quiz_question.options = [str_DongBien, str_NghichBien],
                  answerIndex = (if a > 0 then 0 else 1)\<rparr>"
    have "recomputes4 ?q"
      by (rule recomputes4I [OF _ _ a(2) b(2) a(1)]) simp_all
    with 1 unfolded show ?thesis by simp
  next
    case 2
    obtain q j where y: "yIntercept4 g a b (i + 4) = (q, j)"
      by (cases "yIntercept4 g a b (i + 4)")
    from yIntercept4_ok [OF y a(2) b(2) a(1)] 2 unfolded y show ?thesis by simp
  next
    case 3
    obtain q j where y: "pointCheck4 g a b (i + 4) = (q, j)"
      by (cases "pointCheck4 g a b (i + 4)")
    from pointCheck4_ok [OF assms y a(2) b(2) a(1)] 3 unfolded y show ?thesis by simp
  next
    case 4
    obtain q j where y: "parallel4 g a b (i + 4) = (q, j)"
      by (cases "parallel4 g a b (i + 4)")
    from parallel4_ok [OF assms y a(2) b(1) a(1)] 4 unfolded y show ?thesis by simp
  next
    case 5
    from xIntercept4_ok [OF assms, of "i + 4"] obtain q j where
      "xIntercept4 g (i + 4) = Some (q, j)" "recomputes4 q" "i + 4 \<le> j" by blast
    with 5 unfolded show ?thesis by simp
  qed
qed

lemma quizLoop_ok:
  assumes "valid_rng g" and "list_all recomputes4 acc"
  shows "\<exists>qs j. quizLoop g n acc i = Some (qs, j) \<and> list_all recomputes4 qs
           \<and> length qs = length acc + n \<and> i \<le> j"
  using assms(2)
proof (induction n arbitrary: acc i)
  case 0
  then show ?case by simp
next
  case (Suc n)
  from quizQuestion_ok [OF assms(1), of i] obtain q k where
    q: "quizQuestion g i = Some (q, k)" "recomputes4 q" "i \<le> k" by blast
  from Suc.prems q(2) have "list_all recomputes4 (acc @ [q])" by simp
  from Suc.IH [OF this, of k] obtain qs j where
    "quizLoop g n (acc @ [q]) k = Some (qs, j)" "list_all recomputes4 qs"
    "length qs = length (acc @ [q]) + n" "k \<le> j" by blast
  with q show ?case by simp
qed

lemma generateQuiz_ok:
  assumes "valid_rng g"
  shows "\<exists>qs j. generateQuiz g i = Some (qs, j) \<and> list_all recomputes4 qs \<and> length qs = 10 \<and> i \<le> j"
  using quizLoop_ok [OF assms, of "[]" 10 i] by (simp add: generateQuiz_def)

lemma drawCoefficients2_exit:
  assumes a: "a = (\<lfloor>g i * 5\<rfloor> + 1) * (if g (i + 1) < 1 / 2 then 1 else - 1)"
    and b: "b = (if g (i + 3) < 1 / 2 then - (a * (\<lfloor>g (i + 2) * 5\<rfloor> + 1))
                 else a * (\<lfloor>g (i + 2) * 5\<rfloor> + 1))"
    and "b \<noteq> 0"
  shows "drawCoefficients2 g i = Some ((a, b), i + 4)"
proof -
  have "drawCoefficients2 g i =
      (if b = 0 then drawCoefficients2 g (i + 4) else Some ((a, b), i + 4))"
    by (subst drawCoefficients2.simps) (simp only: Let_def a b)
  with assms(3) show ?thesis by simp
qed

text \<open>
  C1. For every question that any of the four generators produces from a run of the random
  source, the stored answer is the one recomputed from what the question stores: in game 1
  \<open>y = a * x + b\<close>; in games 2 and 3 the answer string is the intercept, the verdict on
  the shown point, the equation, the direction or the signs that \<open>a\<close> and \<open>b\<close> give; in
  game 4 the option at the recorded index is the one that the coefficients shown in the
  prompt give. Games 2 and 4 always produce a question.
\<close>

theorem generated_answers_recompute:
  assumes "valid_rng g"
  shows "recomputes1 (fst (drawQuestion1 g i))
         \<and> (\<exists>q j. drawQuestion2 g i = Some (q, j) \<and> recomputes2 q)
         \<and> recomputes3 (fst (drawQuestion3 g i))
         \<and> (\<exists>qs j. generateQuiz g i = Some (qs, j) \<and> length qs = 10 \<and> list_all recomputes4 qs)"
proof -
  have "recomputes1 (fst (drawQuestion1 g i))"
    by (rule drawQuestion1_ok(1) [OF assms])
  moreover have "\<exists>q j. drawQuestion2 g i = Some (q, j) \<and> recomputes2 q"
    using drawQuestion2_ok [OF assms, of i] by blast
  moreover have "recomputes3 (fst (drawQuestion3 g i))"
    using drawQuestion3_ok [OF assms, of i] by (cases "drawQuestion3 g i") simp
  moreover have "\<exists>qs j. generateQuiz g i = Some (qs, j) \<and> length qs = 10 \<and> list_all recomputes4 qs"
    using generateQuiz_ok [OF assms, of i] by blast
  ultimately show ?thesis by blast
qed

theorem generated_answers_recompute_witness:
  "valid_rng (draws [25/38, 15/38, 19/22])
   \<and> drawQuestion1 (draws [25/38, 15/38, 19/22]) 0 = (\<lparr>q_a = 3, q_b = - 2, q_x = 4, q_y = 10\<rparr>, 3)
   \<and> recomputes1 (fst (drawQuestion1 (draws [25/38, 15/38, 19/22]) 0))
   \<and> (\<exists>q j. drawQuestion2 (draws [25/38, 15/38, 19/22]) 0 = Some (q, j) \<and> recomputes2 q)
   \<and> recomputes3 (fst (drawQuestion3 (draws [25/38, 15/38, 19/22]) 0))
   \<and> (\<exists>qs j. generateQuiz (draws [25/38, 15/38, 19/22]) 0 = Some (qs, j) \<and> length qs = 10
         \<and> list_all recomputes4 qs)"
proof -
  have v: "valid_rng (draws [25/38, 15/38, 19/22])"
    by (rule valid_draws) simp
  have "drawQuestion1 (draws [25/38, 15/38, 19/22]) 0 = (\<lparr>q_a = 3, q_b = - 2, q_x = 4, q_y = 10\<rparr>, 3)"
    by (simp add: drawQuestion1_def draws_def Let_def)
  with v generated_answers_recompute [OF v, of 0] show ?thesis by blast
qed

text \<open>
  C6. The divisor of every x-intercept is not zero. The loop of game 2 and the second draw
  of game 4 (type 4) return a slope \<open>a \<noteq> 0\<close> and a \<open>b\<close> that \<open>a\<close> divides, so \<^verbatim>\<open>-b/a\<close> is
  the integer \<open>x\<close> with \<open>a * x + b = 0\<close>, never an infinity, NaN or a fraction; hence every
  question of game 2 stores a nonzero slope, and type 4 of game 4 and the whole quiz are
  always produced.
\<close>

theorem intercept_division_safe:
  assumes "valid_rng g"
  shows "(\<exists>a b. drawCoefficients2 g i = Some ((a, b), i + 4) \<and> a \<noteq> 0
            \<and> divide_num (- b) a = Integer (- b div a) \<and> a * (- b div a) + b = 0)
         \<and> (\<exists>a b. drawCoefficients4 g i = ((a, b), i + 4) \<and> a \<noteq> 0
            \<and> divide_num (- b) a = Integer (- b div a) \<and> a * (- b div a) + b = 0)
         \<and> (\<exists>q j. drawQuestion2 g i = Some (q, j) \<and> q_a q \<noteq> 0
            \<and> divide_num (- q_b q) (q_a q) = Integer (- q_b q div q_a q))
         \<and> (\<exists>q j. xIntercept4 g i = Some (q, j))
         \<and> (\<exists>qs j. generateQuiz g i = Some (qs, j))"
proof -
  from drawCoefficients2_once [OF assms, of i] obtain a b k where
    c: "drawCoefficients2 g i = Some ((a, b), i + 4)" "a \<noteq> 0" "b = a * k \<or> b = - (a * k)"
    by blast
  from multiple_quotient(2,3) [OF c(2,3)] c(1,2)
  have 1: "\<exists>a b. drawCoefficients2 g i = Some ((a, b), i + 4) \<and> a \<noteq> 0
            \<and> divide_num (- b) a = Integer (- b div a) \<and> a * (- b div a) + b = 0"
    by blast
  from drawCoefficients4_ok [OF assms, of i] obtain a' b' k' where
    c': "drawCoefficients4 g i = ((a', b'), i + 4)" "a' \<noteq> 0" "b' = a' * k' \<or> b' = - (a' * k')"
    by blast
  from multiple_quotient(2,3) [OF c'(2,3)] c'(1,2)
  have 2: "\<exists>a b. drawCoefficients4 g i = ((a, b), i + 4) \<and> a \<noteq> 0
            \<and> divide_num (- b) a = Integer (- b div a) \<and> a * (- b div a) + b = 0"
    by blast
  have 3: "\<exists>q j. drawQuestion2 g i = Some (q, j) \<and> q_a q \<noteq> 0
            \<and> divide_num (- q_b q) (q_a q) = Integer (- q_b q div q_a q)"
    using drawQuestion2_ok [OF assms, of i] by blast
  have 4: "\<exists>q j. xIntercept4 g i = Some (q, j)"
    using xIntercept4_ok [OF assms, of i] by blast
  have 5: "\<exists>qs j. generateQuiz g i = Some (qs, j)"
    using generateQuiz_ok [OF assms, of i] by blast
  from 1 2 3 4 5 show ?thesis by blast
qed

theorem intercept_division_safe_witness:
  "valid_rng (draws [1/2, 3/4, 1/4, 3/4])
   \<and> drawCoefficients2 (draws [1/2, 3/4, 1/4, 3/4]) 0 = Some ((- 3, - 6), 4)
   \<and> drawCoefficients4 (draws [1/2, 3/4, 1/4, 3/4]) 0 = ((- 3, 6), 4)
   \<and> divide_num (- (- 6)) (- 3) = Integer (- 2)
   \<and> (\<exists>a b. drawCoefficients2 (draws [1/2, 3/4, 1/4, 3/4]) 0 = Some ((a, b), 0 + 4) \<and> a \<noteq> 0
         \<and> divide_num (- b) a = Integer (- b div a) \<and> a * (- b div a) + b = 0)
   \<and> (\<exists>q j. xIntercept4 (draws [1/2, 3/4, 1/4, 3/4]) 0 = Some (q, j))"
proof -
  have v: "valid_rng (draws [1/2, 3/4, 1/4, 3/4])"
    by (rule valid_draws) simp
  have c2: "drawCoefficients2 (draws [1/2, 3/4, 1/4, 3/4]) 0 = Some ((- 3, - 6), 4)"
    by (rule drawCoefficients2_exit [of "- 3" _ 0 "- 6", simplified]) (simp_all add: draws_def)
  have c4: "drawCoefficients4 (draws [1/2, 3/4, 1/4, 3/4]) 0 = ((- 3, 6), 4)"
    by (simp add: drawCoefficients4_def draws_def Let_def)
  have d: "divide_num (- (- 6)) (- 3) = Integer (- 2)"
    by (simp add: divide_num_def)
  from v c2 c4 d intercept_division_safe [OF v, of 0] show ?thesis by blast
qed

text \<open>
  C2 fails on games 2 and 4, where nothing removes equal options (game 3 collects its wrong
  options in a set). Game 4, type 1, with \<open>b = 0\<close>: three of the four options are the
  correct string, and only the first of them is recorded as correct. Game 2, type 0, with
  \<open>a = b\<close>: the correct string and a wrong one both occur twice. Game 4, type 4, with
  \<open>a = - 1\<close>: again both strings occur twice. The options are built with these
  repetitions before the shuffle, which only reorders them: on these runs every draw of the
  shuffle is 0, every order is negative, and the sort reverses the array.
\<close>

theorem duplicate_options_evaluated:
  "quizQuestion (draws [0, 0, 1/2, 1/4]) 0 =
     Some (\<lparr>prompt = promptYAxis4 (questionTextOf 1 0),
            quiz_question.options = [''(0, 0)'', ''(0, 1)'', ''(0, 0)'', ''(0, 0)''],
            answerIndex = 0\<rparr>, 7)
   \<and> drawQuestion2 (draws [0, 0, 0, 3/4, 0]) 0 =
     Some (\<lparr>q_a = 1, q_b = 1,
            mcq_question.options = [''(1, 0)'', ''(0, 1)'', ''(1, 0)'', ''(0, 1)''],
            answer = ''(0, 1)'', promptText = promptYAxis2\<rparr>, 8)
   \<and> quizQuestion (draws [0, 3/4, 0, 9/10, 0, 3/4, 1/4, 3/4]) 0 =
     Some (\<lparr>prompt = promptXAxis4 (questionTextOf (- 1) 2),
            quiz_question.options = [''(2, 0)'', ''(0, 2)'', ''(0, 2)'', ''(2, 0)''],
            answerIndex = 0\<rparr>, 11)
   \<and> valid_rng (draws [0, 0, 1/2, 1/4]) \<and> valid_rng (draws [0, 0, 0, 3/4, 0])
   \<and> valid_rng (draws [0, 3/4, 0, 9/10, 0, 3/4, 1/4, 3/4])"
proof -
  have "quizQuestion (draws [0, 0, 1/2, 1/4]) 0 =
     Some (\<lparr>prompt = promptYAxis4 (questionTextOf 1 0),
            quiz_question.options = [''(0, 0)'', ''(0, 1)'', ''(0, 0)'', ''(0, 0)''],
            answerIndex = 0\<rparr>, 7)"
    by code_simp
  moreover have "drawQuestion2 (draws [0, 0, 0, 3/4, 0]) 0 =
     Some (\<lparr>q_a = 1, q_b = 1,
            mcq_question.options = [''(1, 0)'', ''(0, 1)'', ''(1, 0)'', ''(0, 1)''],
            answer = ''(0, 1)'', promptText = promptYAxis2\<rparr>, 8)"
    by code_simp
  moreover have "quizQuestion (draws [0, 3/4, 0, 9/10, 0, 3/4, 1/4, 3/4]) 0 =
     Some (\<lparr>prompt = promptXAxis4 (questionTextOf (- 1) 2),
            quiz_question.options = [''(2, 0)'', ''(0, 2)'', ''(0, 2)'', ''(2, 0)''],
            answerIndex = 0\<rparr>, 11)"
    by code_simp
  moreover have "valid_rng (draws [0, 0, 1/2, 1/4])" "valid_rng (draws [0, 0, 0, 3/4, 0])"
    "valid_rng (draws [0, 3/4, 0, 9/10, 0, 3/4, 1/4, 3/4])"
    by (rule valid_draws, simp)+
  ultimately show ?thesis by blast
qed

subsection \<open>The generators read nothing but their draws\<close>
























subsection \<open>The games as transition systems\<close>

lemma callGetFeedback_component [simp]:
  "score (callGetFeedback ai p t s) = score s"
  "isAnswered (callGetFeedback ai p t s) = isAnswered s"
  "cursor (callGetFeedback ai p t s) = cursor s"
  by (simp_all add: callGetFeedback_def)

lemma settle_component [simp]:
  "score (settle k r s) = score s"
  "isAnswered (settle k r s) = isAnswered s"
  "cursor (settle k r s) = cursor s"
  by (simp_all add: settle_def split: sum.splits)

lemma callGetFeedback_quiz [simp]:
  "questions (callGetFeedback ai p t s) = questions s"
  "currentQIndex (callGetFeedback ai p t s) = currentQIndex s"
  "isGameOver (callGetFeedback ai p t s) = isGameOver s"
  "quiz.scheduled (callGetFeedback ai p t s) = quiz.scheduled s"
  "quiz.timeLeft (callGetFeedback ai p t s) = quiz.timeLeft s"
  "quiz.selectedOption (callGetFeedback ai p t s) = quiz.selectedOption s"
  by (simp_all add: callGetFeedback_def)

lemma settle_quiz [simp]:
  "questions (settle k r s) = questions s"
  "currentQIndex (settle k r s) = currentQIndex s"
  "isGameOver (settle k r s) = isGameOver s"
  "quiz.scheduled (settle k r s) = quiz.scheduled s"
  "quiz.timeLeft (settle k r s) = quiz.timeLeft s"
  "quiz.selectedOption (settle k r s) = quiz.selectedOption s"
  by (simp_all add: settle_def split: sum.splits)

lemma quiz_inv_cong:
  assumes "questions s' = questions s" and "currentQIndex s' = currentQIndex s"
    and "score s' = score s" and "isAnswered s' = isAnswered s"
    and "isGameOver s' = isGameOver s" and "quiz.scheduled s' = quiz.scheduled s"
  shows "quiz_inv s' = quiz_inv s"
  by (simp add: quiz_inv_def assms)

lemma handleAnswer4_inv:
  assumes "quiz_inv s"
  shows "\<exists>s'. handleAnswer4 k s = Some s' \<and> quiz_inv s'
           \<and> (score s' = score s \<or> score s' = score s + 10)
           \<and> questions s' = questions s \<and> currentQIndex s' = currentQIndex s
           \<and> isGameOver s' = isGameOver s"
proof (cases "isAnswered s")
  case True
  with assms show ?thesis by (simp add: handleAnswer4_def)
next
  case False
  from assms have len: "length (questions s) = 10" and idx: "currentQIndex s < 10"
    by (simp_all add: quiz_inv_def)
  from assms False have ngo: "\<not> isGameOver s" and sch: "quiz.scheduled s = []"
    by (auto simp: quiz_inv_def split: if_splits)
  from assms False have sc: "0 \<le> score s" "10 dvd score s" "score s \<le> 10 * int (currentQIndex s)"
    by (simp_all add: quiz_inv_def)
  from assms have all: "list_all recomputes4 (questions s)" by (simp add: quiz_inv_def)
  define s' where "s' = (let s1 = s\<lparr>isAnswered := True, quiz.selectedOption := Some k\<rparr>;
             s2 = (if k = answerIndex (questions s ! currentQIndex s)
                   then s1\<lparr>score := score s1 + 10\<rparr> else s1)
         in s2\<lparr>quiz.scheduled := quiz.scheduled s2
                     @ [\<lparr>seenIndex = currentQIndex s, seenLength = length (questions s),
                         seenScore = score s\<rparr>]\<rparr>)"
  from False len idx have h: "handleAnswer4 k s = Some s'"
    by (simp add: handleAnswer4_def s'_def Let_def)
  have f: "questions s' = questions s" "currentQIndex s' = currentQIndex s"
    "isGameOver s' = isGameOver s" "isAnswered s'"
    "quiz.scheduled s' = [\<lparr>seenIndex = currentQIndex s, seenLength = 10, seenScore = score s\<rparr>]"
    "score s' = score s \<or> score s' = score s + 10"
    by (auto simp: s'_def Let_def sch len)
  from f(6) sc have "0 \<le> score s'" "10 dvd score s'" "score s' \<le> 10 * (int (currentQIndex s) + 1)"
    by auto
  with f len idx all ngo have "quiz_inv s'"
    by (simp add: quiz_inv_def)
  with h f show ?thesis by simp
qed

lemma nextQuestion_inv:
  assumes "quiz_inv s" and "quiz.scheduled s = c # cs"
  shows "quiz_inv (nextQuestion ai c (s\<lparr>quiz.scheduled := cs\<rparr>))"
    and "score (nextQuestion ai c (s\<lparr>quiz.scheduled := cs\<rparr>)) = score s"
proof -
  from assms have ngo: "\<not> isGameOver s" by (auto simp: quiz_inv_def split: if_splits)
  with assms have ans: "isAnswered s" by (auto simp: quiz_inv_def split: if_splits)
  from assms ngo ans have c: "cs = []" "seenIndex c = currentQIndex s" "seenLength c = 10"
    by (auto simp: quiz_inv_def)
  from assms(1) ans have base: "length (questions s) = 10" "list_all recomputes4 (questions s)"
    "currentQIndex s < 10" "0 \<le> score s" "10 dvd score s"
    "score s \<le> 10 * (int (currentQIndex s) + 1)"
    by (simp_all add: quiz_inv_def)
  show "score (nextQuestion ai c (s\<lparr>quiz.scheduled := cs\<rparr>)) = score s"
    by (simp add: nextQuestion_def)
  show "quiz_inv (nextQuestion ai c (s\<lparr>quiz.scheduled := cs\<rparr>))"
  proof (cases "currentQIndex s < 9")
    case True
    with base c show ?thesis
      by (simp add: nextQuestion_def quiz_inv_def ngo)
  next
    case False
    with base c ans show ?thesis
      by (simp add: nextQuestion_def quiz_inv_def)
  qed
qed

lemma resetGame_inv:
  assumes "valid_rng g" and "quiz.scheduled s = []"
  shows "\<exists>s'. resetGame g s = Some s' \<and> quiz_inv s' \<and> score s' = 0 \<and> currentQIndex s' = 0
           \<and> \<not> isGameOver s' \<and> \<not> isAnswered s' \<and> quiz.timeLeft s' = 15
           \<and> quiz.selectedOption s' = None"
proof -
  from generateQuiz_ok [OF assms(1), of "cursor s"] obtain qs j where
    "generateQuiz g (cursor s) = Some (qs, j)" "list_all recomputes4 qs" "length qs = 10"
    by blast
  with assms(2) show ?thesis
    by (simp add: resetGame_def quiz_inv_def)
qed

lemma step4_inv:
  assumes "valid_rng g" and "quiz_inv s"
  shows "\<exists>s'. step4 g ai e s = Some s' \<and> quiz_inv s'
           \<and> (if e = PlayAgain then score s' = score s \<or> score s' = 0
               else score s' = score s \<or> score s' = score s + 10)"
proof (cases e)
  case (Pick k)
  with handleAnswer4_inv [OF assms(2), of k] show ?thesis by auto
next
  case Countdown
  show ?thesis
  proof (cases "isGameOver s \<or> isAnswered s")
    case True
    with Countdown assms(2) show ?thesis by (simp add: timerEffect4_def)
  next
    case False
    show ?thesis
    proof (cases "quiz.timeLeft s > 0")
      case True
      have "quiz_inv (s\<lparr>quiz.timeLeft := quiz.timeLeft s - 1\<rparr>) = quiz_inv s"
        by (rule quiz_inv_cong) simp_all
      with Countdown False True assms(2) show ?thesis by (simp add: timerEffect4_def)
    next
      case nt: False
      with Countdown False handleAnswer4_inv [OF assms(2), of "- 1"] show ?thesis
        by (auto simp: timerEffect4_def)
    qed
  qed
next
  case Fire
  show ?thesis
  proof (cases "quiz.scheduled s")
    case Nil
    with Fire assms(2) show ?thesis by simp
  next
    case (Cons c cs)
    with Fire nextQuestion_inv [OF assms(2) Cons, of ai] show ?thesis by simp
  qed
next
  case (Settle k r)
  have "quiz_inv (settle k r s) = quiz_inv s"
    by (rule quiz_inv_cong) simp_all
  with Settle assms(2) show ?thesis by simp
next
  case PlayAgain
  show ?thesis
  proof (cases "isGameOver s")
    case True
    with assms(2) have "quiz.scheduled s = []" by (simp add: quiz_inv_def)
    from resetGame_inv [OF assms(1) this] True PlayAgain show ?thesis by auto
  next
    case False
    with PlayAgain assms(2) show ?thesis by simp
  qed
qed (use assms(2) in simp_all)

lemma mounted4_inv:
  assumes "valid_rng g"
  shows "\<exists>s0. mounted4 g = Some s0 \<and> quiz_inv s0 \<and> score s0 = 0 \<and> currentQIndex s0 = 0
           \<and> \<not> isGameOver s0 \<and> \<not> isAnswered s0 \<and> quiz.timeLeft s0 = 15
           \<and> quiz.selectedOption s0 = None"
  unfolding mounted4_def by (rule resetGame_inv [OF assms]) (simp add: initial4_def)

lemma run4_inv:
  assumes "valid_rng g"
  shows "quiz_inv s \<Longrightarrow> \<exists>s'. run4 g ai es s = Some s' \<and> quiz_inv s'"
proof (induction es arbitrary: s)
  case Nil
  then show ?case by simp
next
  case (Cons e es)
  from step4_inv [OF assms Cons.prems, of ai e] obtain s1 where
    "step4 g ai e s = Some s1" "quiz_inv s1" by blast
  with Cons.IH [of s1] show ?case by simp
qed

lemma quiz_inv_score: "quiz_inv s \<Longrightarrow> 0 \<le> score s \<and> score s \<le> 100 \<and> 10 dvd score s"
  by (auto simp: quiz_inv_def split: if_splits)

lemma run1_locked: "isAnswered s \<Longrightarrow> list_all attempt es \<Longrightarrow> run1 g ai es s = s"
proof (induction es)
  case Nil
  then show ?case by simp
next
  case (Cons e es)
  from Cons.prems have "step1 g ai e s = s"
    by (cases e) (simp_all add: handleSubmit_def timerEffect1_def)
  with Cons show ?case by simp
qed

lemma run2_locked: "isAnswered s \<Longrightarrow> list_all attempt es \<Longrightarrow> run2 g ai es s = Some s"
proof (induction es)
  case Nil
  then show ?case by simp
next
  case (Cons e es)
  from Cons.prems have "step2 g ai e s = Some s"
    by (cases e) (simp_all add: handleAnswer2_def handleAnswerMcq_def)
  with Cons show ?case by simp
qed

lemma run3_locked: "isAnswered s \<Longrightarrow> list_all attempt es \<Longrightarrow> run3 g ai es s = Some s"
proof (induction es)
  case Nil
  then show ?case by simp
next
  case (Cons e es)
  from Cons.prems have "step3 g ai e s = Some s"
    by (cases e) (simp_all add: handleAnswer3_def handleAnswerMcq_def)
  with Cons show ?case by simp
qed

lemma run4_locked: "isAnswered s \<Longrightarrow> list_all attempt es \<Longrightarrow> run4 g ai es s = Some s"
proof (induction es)
  case Nil
  then show ?case by simp
next
  case (Cons e es)
  from Cons.prems have "step4 g ai e s = Some s"
    by (cases e) (simp_all add: handleAnswer4_def timerEffect4_def)
  with Cons show ?case by simp
qed

text \<open>
  C3. In each of the four games, once the answered flag is set, a submission or a choice of
  an option returns the state as it is: the handler's first test is the flag. So any number
  of attempts, the countdown effect among them, leaves the whole state, and with it the
  score, unchanged until the scheduled callback produces the next question.
\<close>

theorem answered_locks:
  assumes "isAnswered s1" and "isAnswered s2" and "isAnswered s4" and "list_all attempt es"
  shows "handleSubmit ai isTimeout s1 = s1
         \<and> handleAnswer2 ai opt s2 = Some s2
         \<and> handleAnswer3 ai opt s2 = Some s2
         \<and> handleAnswer4 k s4 = Some s4
         \<and> run1 g ai es s1 = s1 \<and> score (run1 g ai es s1) = score s1
         \<and> run2 g ai es s2 = Some s2
         \<and> run3 g ai es s2 = Some s2
         \<and> run4 g ai es s4 = Some s4"
  using assms run1_locked [of s1 es g ai] run2_locked [of s2 es g ai] run3_locked [of s2 es g ai]
    run4_locked [of s4 es g ai]
  by (simp add: handleSubmit_def handleAnswer2_def handleAnswer3_def handleAnswerMcq_def
      handleAnswer4_def)

theorem answered_locks_witness:
  "run1 (draws []) False [Submit, Countdown, Submit] (initial1\<lparr>isAnswered := True, score := 10\<rparr>)
     = initial1\<lparr>isAnswered := True, score := 10\<rparr>
   \<and> run2 (draws []) False [Select ''(0, 1)'', Select ''(1, 0)''] (initialMcq\<lparr>isAnswered := True\<rparr>)
     = Some (initialMcq\<lparr>isAnswered := True\<rparr>)
   \<and> run4 (draws []) False [Pick 0, Pick 1, Countdown] (initial4\<lparr>isAnswered := True\<rparr>)
     = Some (initial4\<lparr>isAnswered := True\<rparr>)"
proof -
  have h1: "isAnswered (initial1\<lparr>isAnswered := True, score := 10\<rparr>)"
    and h2: "isAnswered (initialMcq\<lparr>isAnswered := True\<rparr>)"
    and h4: "isAnswered (initial4\<lparr>isAnswered := True\<rparr>)"
    by simp_all
  have a1: "list_all attempt [Submit, Countdown, Submit]"
    and a2: "list_all attempt [Select ''(0, 1)'', Select ''(1, 0)'']"
    and a4: "list_all attempt [Pick 0, Pick 1, Countdown]"
    by simp_all
  from answered_locks [OF h1 h2 h4 a1, of False False "[]" 0 "draws []"]
    answered_locks [OF h1 h2 h4 a2, of False False "[]" 0 "draws []"]
    answered_locks [OF h1 h2 h4 a4, of False False "[]" 0 "draws []"]
  show ?thesis by blast
qed

lemma handleSubmit_score:
  "score (handleSubmit ai t s) = score s \<or> score (handleSubmit ai t s) = score s + 10"
  by (simp add: handleSubmit_def Let_def split: option.splits)

lemma step1_score: "score (step1 g ai e s) = score s \<or> score (step1 g ai e s) = score s + 10"
proof (cases e)
  case Submit
  with handleSubmit_score [of ai False s] show ?thesis by simp
next
  case Countdown
  with handleSubmit_score [of ai True s] show ?thesis by (simp add: timerEffect1_def)
next
  case Fire
  then show ?thesis by (simp add: generateQuestion1_def split: prod.splits)
qed simp_all

lemma run1_score:
  "0 \<le> score s \<and> 10 dvd score s \<Longrightarrow>
     0 \<le> score (run1 g ai es s) \<and> 10 dvd score (run1 g ai es s)"
proof (induction es arbitrary: s)
  case Nil
  then show ?case by simp
next
  case (Cons e es)
  from step1_score [of g ai e s] Cons.prems
  have "0 \<le> score (step1 g ai e s) \<and> 10 dvd score (step1 g ai e s)" by auto
  from Cons.IH [OF this] show ?case by simp
qed

lemma handleAnswerMcq_score:
  "handleAnswerMcq praise hint ai opt s = Some s' \<Longrightarrow>
     (score s' = score s \<or> score s' = score s + 10) \<and> mcq.question s' = mcq.question s"
  by (auto simp: handleAnswerMcq_def Let_def callGetFeedback_def split: option.splits if_splits)

lemma handleAnswerMcq_total:
  "mcq.question s \<noteq> None \<Longrightarrow> \<exists>s'. handleAnswerMcq praise hint ai opt s = Some s'"
  by (auto simp: handleAnswerMcq_def Let_def)

lemma generateQuestion2_total:
  assumes "valid_rng g"
  shows "\<exists>s'. generateQuestion2 g s = Some s' \<and> score s' = score s \<and> mcq.question s' \<noteq> None"
proof -
  from drawQuestion2_ok [OF assms, of "cursor s"] obtain q j where
    "drawQuestion2 g (cursor s) = Some (q, j)" by blast
  then show ?thesis by (simp add: generateQuestion2_def)
qed

lemma step2_score:
  "step2 g ai e s = Some s' \<Longrightarrow> score s' = score s \<or> score s' = score s + 10"
proof (cases e)
  case (Select opt)
  assume "step2 g ai e s = Some s'"
  with Select handleAnswerMcq_score [of promptCorrect2 promptIncorrect2 ai opt s s']
  show ?thesis by (simp add: handleAnswer2_def)
next
  case Fire
  assume "step2 g ai e s = Some s'"
  with Fire show ?thesis
    by (auto simp: generateQuestion2_def split: if_splits option.splits)
qed auto

lemma step2_total:
  assumes "valid_rng g" and "mcq.question s \<noteq> None"
  shows "\<exists>s'. step2 g ai e s = Some s' \<and> mcq.question s' \<noteq> None"
proof (cases e)
  case (Select opt)
  from handleAnswerMcq_total [OF assms(2), of promptCorrect2 promptIncorrect2 ai opt] obtain s'
    where h: "handleAnswerMcq promptCorrect2 promptIncorrect2 ai opt s = Some s'" by blast
  with handleAnswerMcq_score [OF h] Select assms(2) show ?thesis
    by (simp add: handleAnswer2_def)
next
  case Fire
  with generateQuestion2_total [OF assms(1), of "s\<lparr>mcq.scheduled := mcq.scheduled s - 1\<rparr>"] assms(2)
  show ?thesis by auto
next
  case (Settle k r)
  with assms(2) show ?thesis by (simp add: settle_def split: sum.splits)
qed (use assms(2) in simp_all)

lemma run2_score:
  assumes "valid_rng g"
  shows "mcq.question s \<noteq> None \<Longrightarrow> 0 \<le> score s \<and> 10 dvd score s \<Longrightarrow>
     \<exists>s'. run2 g ai es s = Some s' \<and> 0 \<le> score s' \<and> 10 dvd score s'"
proof (induction es arbitrary: s)
  case Nil
  then show ?case by simp
next
  case (Cons e es)
  from step2_total [OF assms Cons.prems(1), of ai e] obtain s1 where
    s1: "step2 g ai e s = Some s1" "mcq.question s1 \<noteq> None" by blast
  from step2_score [OF s1(1)] Cons.prems(2) have "0 \<le> score s1 \<and> 10 dvd score s1" by auto
  from Cons.IH [OF s1(2) this] s1(1) show ?case by simp
qed

lemma step3_score:
  "step3 g ai e s = Some s' \<Longrightarrow> score s' = score s \<or> score s' = score s + 10"
proof (cases e)
  case (Select opt)
  assume "step3 g ai e s = Some s'"
  with Select handleAnswerMcq_score [of promptCorrect3 promptIncorrect3 ai opt s s']
  show ?thesis by (simp add: handleAnswer3_def)
next
  case Fire
  assume "step3 g ai e s = Some s'"
  with Fire show ?thesis
    by (auto simp: generateQuestion3_def split: if_splits prod.splits)
qed auto

lemma step3_total:
  assumes "mcq.question s \<noteq> None"
  shows "\<exists>s'. step3 g ai e s = Some s' \<and> mcq.question s' \<noteq> None"
proof (cases e)
  case (Select opt)
  from handleAnswerMcq_total [OF assms, of promptCorrect3 promptIncorrect3 ai opt] obtain s'
    where h: "handleAnswerMcq promptCorrect3 promptIncorrect3 ai opt s = Some s'" by blast
  with handleAnswerMcq_score [OF h] Select assms show ?thesis
    by (simp add: handleAnswer3_def)
next
  case Fire
  with assms show ?thesis by (auto simp: generateQuestion3_def split: prod.splits)
next
  case (Settle k r)
  with assms show ?thesis by (simp add: settle_def split: sum.splits)
qed (use assms in simp_all)

lemma run3_score:
  "mcq.question s \<noteq> None \<Longrightarrow> 0 \<le> score s \<and> 10 dvd score s \<Longrightarrow>
     \<exists>s'. run3 g ai es s = Some s' \<and> 0 \<le> score s' \<and> 10 dvd score s'"
proof (induction es arbitrary: s)
  case Nil
  then show ?case by simp
next
  case (Cons e es)
  from step3_total [OF Cons.prems(1), of g ai e] obtain s1 where
    s1: "step3 g ai e s = Some s1" "mcq.question s1 \<noteq> None" by blast
  from step3_score [OF s1(1)] Cons.prems(2) have "0 \<le> score s1 \<and> 10 dvd score s1" by auto
  from Cons.IH [OF s1(2) this] s1(1) show ?case by simp
qed

lemma recomputes4_index: "recomputes4 q \<Longrightarrow> 0 \<le> answerIndex q"
  by (simp add: recomputes4_def)

lemma quiz_inv_index:
  assumes "quiz_inv s"
  shows "0 \<le> answerIndex (questions s ! currentQIndex s)"
proof -
  from assms have "currentQIndex s < length (questions s)" "list_all recomputes4 (questions s)"
    by (simp_all add: quiz_inv_def)
  then have "recomputes4 (questions s ! currentQIndex s)"
    by (simp add: list_all_length)
  then show ?thesis by (rule recomputes4_index)
qed

lemma step4_score:
  assumes "step4 g ai e s = Some s'"
  shows "if e = PlayAgain then score s' = score s \<or> score s' = 0
         else score s' = score s \<or> score s' = score s + 10"
proof (cases e)
  case (Pick k)
  with assms show ?thesis by (auto simp: handleAnswer4_def Let_def split: if_splits)
next
  case Countdown
  with assms show ?thesis by (auto simp: timerEffect4_def handleAnswer4_def Let_def split: if_splits)
next
  case Fire
  with assms show ?thesis by (auto simp: nextQuestion_def split: list.splits if_splits)
next
  case PlayAgain
  with assms show ?thesis by (auto simp: resetGame_def split: if_splits option.splits)
qed (use assms in auto)

lemma step1_exact:
  "score (step1 g ai e s) = (if scores1 e s then score s + 10 else score s)"
proof (cases e)
  case Submit
  then show ?thesis by (simp add: handleSubmit_def Let_def split: option.splits)
next
  case Countdown
  then show ?thesis by (simp add: timerEffect1_def handleSubmit_def Let_def split: option.splits)
next
  case Fire
  then show ?thesis by (simp add: generateQuestion1_def split: prod.splits)
qed simp_all

lemma handleAnswerMcq_exact:
  "handleAnswerMcq praise hint ai opt s = Some s' \<Longrightarrow>
     score s' = (if scoresMcq (Select opt) s then score s + 10 else score s)"
  by (auto simp: handleAnswerMcq_def Let_def split: option.splits if_splits)

lemma step2_exact:
  "step2 g ai e s = Some s' \<Longrightarrow> score s' = (if scoresMcq e s then score s + 10 else score s)"
proof (cases e)
  case (Select opt)
  assume "step2 g ai e s = Some s'"
  with Select handleAnswerMcq_exact [of promptCorrect2 promptIncorrect2 ai opt s s']
  show ?thesis by (simp add: handleAnswer2_def)
next
  case Fire
  assume "step2 g ai e s = Some s'"
  with Fire show ?thesis
    by (auto simp: generateQuestion2_def split: if_splits option.splits)
qed auto

lemma step3_exact:
  "step3 g ai e s = Some s' \<Longrightarrow> score s' = (if scoresMcq e s then score s + 10 else score s)"
proof (cases e)
  case (Select opt)
  assume "step3 g ai e s = Some s'"
  with Select handleAnswerMcq_exact [of promptCorrect3 promptIncorrect3 ai opt s s']
  show ?thesis by (simp add: handleAnswer3_def)
next
  case Fire
  assume "step3 g ai e s = Some s'"
  with Fire show ?thesis
    by (auto simp: generateQuestion3_def split: if_splits prod.splits)
qed auto

lemma step4_exact:
  assumes "quiz_inv s" and "step4 g ai e s = Some s'"
  shows "score s' = (if e = PlayAgain \<and> isGameOver s then 0
                     else if scores4 e s then score s + 10 else score s)"
proof (cases e)
  case (Pick k)
  with assms show ?thesis by (auto simp: handleAnswer4_def Let_def quiz_inv_def split: if_splits)
next
  case Countdown
  from assms(1) have "0 \<le> answerIndex (questions s ! currentQIndex s)"
    by (rule quiz_inv_index)
  with Countdown assms show ?thesis
    by (auto simp: timerEffect4_def handleAnswer4_def Let_def split: if_splits)
next
  case Fire
  with assms show ?thesis by (auto simp: nextQuestion_def split: list.splits if_splits)
next
  case PlayAgain
  with assms show ?thesis by (auto simp: resetGame_def split: if_splits option.splits)
qed (use assms in auto)

lemma run1_mono: "score s \<le> score (run1 g ai es s)"
proof (induction es arbitrary: s)
  case Nil
  show ?case by simp
next
  case (Cons e es)
  have "score s \<le> score (step1 g ai e s)" by (simp add: step1_exact)
  also have "\<dots> \<le> score (run1 g ai es (step1 g ai e s))" by (rule Cons.IH)
  finally show ?case by simp
qed

lemma run2_mono: "run2 g ai es s = Some s' \<Longrightarrow> score s \<le> score s'"
proof (induction es arbitrary: s)
  case Nil
  then show ?case by simp
next
  case (Cons e es)
  then obtain s1 where s1: "step2 g ai e s = Some s1" "run2 g ai es s1 = Some s'"
    by (auto split: option.splits)
  from step2_exact [OF s1(1)] have "score s \<le> score s1" by simp
  with Cons.IH [OF s1(2)] show ?case by simp
qed

lemma run3_mono: "run3 g ai es s = Some s' \<Longrightarrow> score s \<le> score s'"
proof (induction es arbitrary: s)
  case Nil
  then show ?case by simp
next
  case (Cons e es)
  then obtain s1 where s1: "step3 g ai e s = Some s1" "run3 g ai es s1 = Some s'"
    by (auto split: option.splits)
  from step3_exact [OF s1(1)] have "score s \<le> score s1" by simp
  with Cons.IH [OF s1(2)] show ?case by simp
qed

lemma run4_mono:
  "run4 g ai es s = Some s' \<Longrightarrow> PlayAgain \<notin> set es \<Longrightarrow> score s \<le> score s'"
proof (induction es arbitrary: s)
  case Nil
  then show ?case by simp
next
  case (Cons e es)
  then obtain s1 where s1: "step4 g ai e s = Some s1" "run4 g ai es s1 = Some s'"
    by (auto split: option.splits)
  from Cons.prems(2) have ne: "e \<noteq> PlayAgain" and rest: "PlayAgain \<notin> set es" by auto
  from step4_score [OF s1(1)] ne have "score s \<le> score s1" by auto
  with Cons.IH [OF s1(2) rest] show ?case by simp
qed

lemma tenths_of_multiple: "10 dvd n \<Longrightarrow> tenthsToString n = intToString (n div 10)"
  by (simp add: tenthsToString_def)

text \<open>
  C10 (as amended). In every game the score is 0 after mounting. An event adds 10 to the
  score exactly when it is judged a correct answer, and otherwise leaves the score as it
  is, except that starting the finished quiz again sets it to 0: so it is in games 1, 2
  and 3 in every state, and in the quiz in every state that it reaches (in any state at
  all an event of the quiz leaves the score, adds 10 or, starting again, sets it to 0).
  The score never goes down in games 1, 2 and 3, nor in the quiz in a run that does not
  start it again. At every state a game reaches, the score is a multiple of 10 and not
  negative; in the quiz it is at most 100, and the number the result panel shows, the
  score divided by 10, is an integer from 0 to 10.
\<close>

theorem score_steps_of_ten:
  assumes "valid_rng g"
  shows "score (mounted1 g) = 0
         \<and> 0 \<le> score (run1 g ai es (mounted1 g)) \<and> 10 dvd score (run1 g ai es (mounted1 g))
         \<and> score (step1 g ai e s1) = (if scores1 e s1 then score s1 + 10 else score s1)
         \<and> score s1 \<le> score (run1 g ai es s1)
         \<and> (\<exists>s0 s. mounted2 g = Some s0 \<and> score s0 = 0 \<and> run2 g ai es s0 = Some s
               \<and> 0 \<le> score s \<and> 10 dvd score s)
         \<and> (\<forall>s'. step2 g ai e s2 = Some s' \<longrightarrow>
               score s' = (if scoresMcq e s2 then score s2 + 10 else score s2))
         \<and> (\<forall>s'. run2 g ai es s2 = Some s' \<longrightarrow> score s2 \<le> score s')
         \<and> score (mounted3 g) = 0
         \<and> (\<exists>s. run3 g ai es (mounted3 g) = Some s \<and> 0 \<le> score s \<and> 10 dvd score s)
         \<and> (\<forall>s'. step3 g ai e s2 = Some s' \<longrightarrow>
               score s' = (if scoresMcq e s2 then score s2 + 10 else score s2))
         \<and> (\<forall>s'. run3 g ai es s2 = Some s' \<longrightarrow> score s2 \<le> score s')
         \<and> (\<exists>s0 s. mounted4 g = Some s0 \<and> score s0 = 0 \<and> run4 g ai es s0 = Some s
               \<and> 0 \<le> score s \<and> score s \<le> 100 \<and> 10 dvd score s
               \<and> 0 \<le> score s div 10 \<and> score s div 10 \<le> 10
               \<and> resultLine s = intToString (score s div 10) @ '' / 10''
               \<and> (\<forall>s'. step4 g ai e s = Some s' \<longrightarrow>
                     score s' = (if e = PlayAgain \<and> isGameOver s then 0
                                 else if scores4 e s then score s + 10 else score s)))
         \<and> (\<forall>s'. step4 g ai e s4 = Some s' \<longrightarrow>
               (if e = PlayAgain then score s' = score s4 \<or> score s' = 0
                else score s' = score s4 \<or> score s' = score s4 + 10))
         \<and> (\<forall>s'. PlayAgain \<notin> set es \<and> run4 g ai es s4 = Some s' \<longrightarrow> score s4 \<le> score s')"
proof -
  have m1: "score (mounted1 g) = 0"
    by (simp add: mounted1_def generateQuestion1_def initial1_def split: prod.splits)
  then have r1: "0 \<le> score (run1 g ai es (mounted1 g)) \<and> 10 dvd score (run1 g ai es (mounted1 g))"
    by (intro run1_score) simp
  have e1: "score (step1 g ai e s1) = (if scores1 e s1 then score s1 + 10 else score s1)"
    by (rule step1_exact)
  have o1: "score s1 \<le> score (run1 g ai es s1)"
    by (rule run1_mono)
  from generateQuestion2_total [OF assms, of initialMcq] obtain s02 where
    s02: "mounted2 g = Some s02" "score s02 = 0" "mcq.question s02 \<noteq> None"
    by (auto simp: mounted2_def initialMcq_def)
  from run2_score [OF assms s02(3), of ai es] s02(2) obtain s2' where
    "run2 g ai es s02 = Some s2'" "0 \<le> score s2'" "10 dvd score s2'" by auto
  with s02 have r2: "\<exists>s0 s. mounted2 g = Some s0 \<and> score s0 = 0 \<and> run2 g ai es s0 = Some s
               \<and> 0 \<le> score s \<and> 10 dvd score s" by blast
  have e2: "\<forall>s'. step2 g ai e s2 = Some s' \<longrightarrow>
               score s' = (if scoresMcq e s2 then score s2 + 10 else score s2)"
    using step2_exact [of g ai e s2] by blast
  have o2: "\<forall>s'. run2 g ai es s2 = Some s' \<longrightarrow> score s2 \<le> score s'"
    using run2_mono [of g ai es s2] by blast
  have m3: "score (mounted3 g) = 0" "mcq.question (mounted3 g) \<noteq> None"
    by (simp_all add: mounted3_def generateQuestion3_def initialMcq_def split: prod.splits)
  from run3_score [OF m3(2), of g ai es] m3(1)
  have r3: "\<exists>s. run3 g ai es (mounted3 g) = Some s \<and> 0 \<le> score s \<and> 10 dvd score s" by simp
  have e3: "\<forall>s'. step3 g ai e s2 = Some s' \<longrightarrow>
               score s' = (if scoresMcq e s2 then score s2 + 10 else score s2)"
    using step3_exact [of g ai e s2] by blast
  have o3: "\<forall>s'. run3 g ai es s2 = Some s' \<longrightarrow> score s2 \<le> score s'"
    using run3_mono [of g ai es s2] by blast
  from mounted4_inv [OF assms] obtain s04 where
    s04: "mounted4 g = Some s04" "quiz_inv s04" "score s04 = 0" by blast
  from run4_inv [OF assms s04(2), of ai es] obtain s4' where
    s4': "run4 g ai es s04 = Some s4'" "quiz_inv s4'" by blast
  from quiz_inv_score [OF s4'(2)] have sc: "0 \<le> score s4'" "score s4' \<le> 100" "10 dvd score s4'"
    by simp_all
  then have d: "0 \<le> score s4' div 10" "score s4' div 10 \<le> 10" by simp_all
  have l: "resultLine s4' = intToString (score s4' div 10) @ '' / 10''"
    by (simp add: resultLine_def tenths_of_multiple [OF sc(3)])
  have x: "\<forall>s'. step4 g ai e s4' = Some s' \<longrightarrow>
             score s' = (if e = PlayAgain \<and> isGameOver s4' then 0
                         else if scores4 e s4' then score s4' + 10 else score s4')"
    using step4_exact [OF s4'(2), of g ai e] by blast
  have r4: "\<exists>s0 s. mounted4 g = Some s0 \<and> score s0 = 0 \<and> run4 g ai es s0 = Some s
               \<and> 0 \<le> score s \<and> score s \<le> 100 \<and> 10 dvd score s
               \<and> 0 \<le> score s div 10 \<and> score s div 10 \<le> 10
               \<and> resultLine s = intToString (score s div 10) @ '' / 10''
               \<and> (\<forall>s'. step4 g ai e s = Some s' \<longrightarrow>
                     score s' = (if e = PlayAgain \<and> isGameOver s then 0
                                 else if scores4 e s then score s + 10 else score s))"
    using s04(1,3) s4'(1) sc d l x by blast
  have e4: "\<forall>s'. step4 g ai e s4 = Some s' \<longrightarrow>
               (if e = PlayAgain then score s' = score s4 \<or> score s' = 0
                else score s' = score s4 \<or> score s' = score s4 + 10)"
    using step4_score [of g ai e s4] by blast
  have o4: "\<forall>s'. PlayAgain \<notin> set es \<and> run4 g ai es s4 = Some s' \<longrightarrow> score s4 \<le> score s'"
    using run4_mono [of g ai es s4] by blast
  show ?thesis
    apply (intro conjI)
    apply (rule m1)
    using r1 apply blast
    using r1 apply blast
    apply (rule e1)
    apply (rule o1)
    apply (rule r2)
    apply (rule e2)
    apply (rule o2)
    apply (rule m3(1))
    apply (rule r3)
    apply (rule e3)
    apply (rule o3)
    apply (rule r4)
    apply (rule e4)
    apply (rule o4)
    done
qed

text \<open>
  C10 as stated fails for the quiz: the score does not only grow. After ten correct answers
  it is 100; the button of the result panel calls \<open>resetGame\<close>, and the same component
  then has score 0.
\<close>

theorem score_reset_counterexample:
  "map_option score (Option.bind (mounted4 (draws []))
      (run4 (draws []) False (concat (replicate 10 [Pick 0, Fire])))) = Some 100
   \<and> map_option score (Option.bind (mounted4 (draws []))
      (run4 (draws []) False (concat (replicate 10 [Pick 0, Fire]) @ [PlayAgain]))) = Some 0
   \<and> valid_rng (draws [])"
proof -
  have "map_option score (Option.bind (mounted4 (draws []))
      (run4 (draws []) False (concat (replicate 10 [Pick 0, Fire])))) = Some 100"
    by code_simp
  moreover have "map_option score (Option.bind (mounted4 (draws []))
      (run4 (draws []) False (concat (replicate 10 [Pick 0, Fire]) @ [PlayAgain]))) = Some 0"
    by code_simp
  moreover have "valid_rng (draws [])"
    by (rule valid_draws) simp
  ultimately show ?thesis by blast
qed

theorem score_steps_of_ten_witness:
  "valid_rng (draws [])
   \<and> score (run1 (draws [25/38, 15/38, 19/22]) False [Change ''10'', Submit]
        (mounted1 (draws [25/38, 15/38, 19/22]))) = 10
   \<and> score (run1 (draws [25/38, 15/38, 19/22]) False [Change ''9'', Submit]
        (mounted1 (draws [25/38, 15/38, 19/22]))) = 0
   \<and> score (run1 (draws [25/38, 15/38, 19/22]) False (Change ''10'' # replicate 16 Countdown)
        (mounted1 (draws [25/38, 15/38, 19/22]))) = 0
   \<and> map_option score (Option.bind (mounted2 (draws []))
        (run2 (draws []) False [Select ''(0, -1)''])) = Some 10
   \<and> map_option score (Option.bind (mounted2 (draws []))
        (run2 (draws []) False [Select ''(1, 0)''])) = Some 0
   \<and> map_option score (run3 (draws []) False [Select ''y = 1x + 1''] (mounted3 (draws [])))
        = Some 10
   \<and> map_option score (run3 (draws []) False [Select ''y = 1x - 1''] (mounted3 (draws [])))
        = Some 0
   \<and> 0 \<le> score (run1 (draws []) False [Submit, Fire, Submit] (mounted1 (draws [])))
   \<and> 10 dvd score (run1 (draws []) False [Submit, Fire, Submit] (mounted1 (draws [])))
   \<and> (\<exists>s0 s. mounted4 (draws []) = Some s0 \<and> score s0 = 0
         \<and> run4 (draws []) False [Pick 0, Fire, Pick 1, Fire, Pick 0] s0 = Some s
         \<and> 0 \<le> score s \<and> score s \<le> 100 \<and> 10 dvd score s
         \<and> 0 \<le> score s div 10 \<and> score s div 10 \<le> 10
         \<and> resultLine s = intToString (score s div 10) @ '' / 10'')
   \<and> map_option score (Option.bind (mounted4 (draws []))
        (run4 (draws []) False [Pick 0, Fire, Pick 1, Fire, Pick 0])) = Some 20"
proof -
  have v: "valid_rng (draws [])"
    by (rule valid_draws) simp
  have a1: "score (run1 (draws [25/38, 15/38, 19/22]) False [Change ''10'', Submit]
        (mounted1 (draws [25/38, 15/38, 19/22]))) = 10"
    by code_simp
  have a2: "score (run1 (draws [25/38, 15/38, 19/22]) False [Change ''9'', Submit]
        (mounted1 (draws [25/38, 15/38, 19/22]))) = 0"
    by code_simp
  have a3: "score (run1 (draws [25/38, 15/38, 19/22]) False (Change ''10'' # replicate 16 Countdown)
        (mounted1 (draws [25/38, 15/38, 19/22]))) = 0"
    by code_simp
  have b1: "map_option score (Option.bind (mounted2 (draws []))
        (run2 (draws []) False [Select ''(0, -1)''])) = Some 10"
    by code_simp
  have b2: "map_option score (Option.bind (mounted2 (draws []))
        (run2 (draws []) False [Select ''(1, 0)''])) = Some 0"
    by code_simp
  have c1: "map_option score (run3 (draws []) False [Select ''y = 1x + 1''] (mounted3 (draws [])))
        = Some 10"
    by code_simp
  have c2: "map_option score (run3 (draws []) False [Select ''y = 1x - 1''] (mounted3 (draws [])))
        = Some 0"
    by code_simp
  have d: "map_option score (Option.bind (mounted4 (draws []))
        (run4 (draws []) False [Pick 0, Fire, Pick 1, Fire, Pick 0])) = Some 20"
    by code_simp
  from score_steps_of_ten [OF v, of False "[Submit, Fire, Submit]" Submit initial1 initialMcq initial4]
  have t1: "0 \<le> score (run1 (draws []) False [Submit, Fire, Submit] (mounted1 (draws [])))"
    by (elim conjE)
  from score_steps_of_ten [OF v, of False "[Submit, Fire, Submit]" Submit initial1 initialMcq initial4]
  have t2: "10 dvd score (run1 (draws []) False [Submit, Fire, Submit] (mounted1 (draws [])))"
    by (elim conjE)
  from score_steps_of_ten [OF v, of False "[Pick 0, Fire, Pick 1, Fire, Pick 0]" Submit initial1
      initialMcq initial4]
  obtain s0 s where q: "mounted4 (draws []) = Some s0" "score s0 = 0"
    "run4 (draws []) False [Pick 0, Fire, Pick 1, Fire, Pick 0] s0 = Some s"
    "0 \<le> score s" "score s \<le> 100" "10 dvd score s"
    "0 \<le> score s div 10" "score s div 10 \<le> 10"
    "resultLine s = intToString (score s div 10) @ '' / 10''"
    by (elim conjE exE) (rule that, assumption+)
  from q have t3: "\<exists>s0 s. mounted4 (draws []) = Some s0 \<and> score s0 = 0
         \<and> run4 (draws []) False [Pick 0, Fire, Pick 1, Fire, Pick 0] s0 = Some s
         \<and> 0 \<le> score s \<and> score s \<le> 100 \<and> 10 dvd score s
         \<and> 0 \<le> score s div 10 \<and> score s div 10 \<le> 10
         \<and> resultLine s = intToString (score s div 10) @ '' / 10''"
    by blast
  from v a1 a2 a3 b1 b2 c1 c2 t1 t2 t3 d show ?thesis
    by (intro conjI)
qed

lemma run4_append:
  "run4 g ai (es @ es') s = (case run4 g ai es s of None \<Rightarrow> None | Some s' \<Rightarrow> run4 g ai es' s')"
  by (induction es arbitrary: s) (auto split: option.splits)

lemma recordedPicks_append: "recordedPicks (qs @ qs') = recordedPicks qs @ recordedPicks qs'"
  by (induction qs) simp_all

lemma length_recordedPicks: "length (recordedPicks qs) = 2 * length qs"
  by (induction qs) simp_all

text \<open>One round: the current question is answered with its recorded index, then the
  scheduled callback fires.\<close>

lemma recorded_round:
  assumes "quiz_inv s" and "\<not> isAnswered s" and "\<not> isGameOver s"
  shows "\<exists>s'. run4 g ai [Pick (answerIndex (questions s ! currentQIndex s)), Fire] s = Some s'
           \<and> quiz_inv s' \<and> questions s' = questions s \<and> score s' = score s + 10
           \<and> (if currentQIndex s < 9
               then currentQIndex s' = currentQIndex s + 1 \<and> \<not> isAnswered s' \<and> \<not> isGameOver s'
               else currentQIndex s' = currentQIndex s \<and> isGameOver s')"
proof -
  from assms have sch: "quiz.scheduled s = []" and len: "length (questions s) = 10"
    and idx: "currentQIndex s < 10"
    by (simp_all add: quiz_inv_def)
  define k where "k = answerIndex (questions s ! currentQIndex s)"
  define s1 where "s1 = s\<lparr>isAnswered := True, quiz.selectedOption := Some k, score := score s + 10,
      quiz.scheduled := [\<lparr>seenIndex = currentQIndex s, seenLength = 10, seenScore = score s\<rparr>]\<rparr>"
  from assms(2) len idx sch have h: "handleAnswer4 k s = Some s1"
    by (simp add: handleAnswer4_def Let_def k_def s1_def)
  from handleAnswer4_inv [OF assms(1), of k] h have inv1: "quiz_inv s1" by simp
  have sch1: "quiz.scheduled s1 = [\<lparr>seenIndex = currentQIndex s, seenLength = 10, seenScore = score s\<rparr>]"
    by (simp add: s1_def)
  let ?c = "\<lparr>seenIndex = currentQIndex s, seenLength = 10, seenScore = score s\<rparr>"
  define s2 where "s2 = nextQuestion ai ?c (s1\<lparr>quiz.scheduled := []\<rparr>)"
  from nextQuestion_inv [OF inv1 sch1, of ai] have inv2: "quiz_inv s2" "score s2 = score s1"
    by (simp_all add: s2_def)
  have run: "run4 g ai [Pick k, Fire] s = Some s2"
    by (simp add: h sch1 s2_def)
  have f: "questions s2 = questions s" "score s2 = score s + 10"
    by (simp_all add: s2_def nextQuestion_def s1_def)
  have "if currentQIndex s < 9
        then currentQIndex s2 = currentQIndex s + 1 \<and> \<not> isAnswered s2 \<and> \<not> isGameOver s2
        else currentQIndex s2 = currentQIndex s \<and> isGameOver s2"
    using assms(3) by (simp add: s2_def nextQuestion_def s1_def)
  with run inv2 f show ?thesis unfolding k_def by blast
qed

lemma recorded_prefix:
  assumes "quiz_inv s0" and "\<not> isAnswered s0" and "\<not> isGameOver s0"
    and "currentQIndex s0 = 0" and "score s0 = 0"
  shows "n < 10 \<Longrightarrow>
     \<exists>s. run4 g ai (recordedPicks (take n (questions s0))) s0 = Some s \<and> quiz_inv s
          \<and> questions s = questions s0 \<and> \<not> isAnswered s \<and> \<not> isGameOver s
          \<and> currentQIndex s = n \<and> score s = 10 * int n"
proof (induction n)
  case 0
  with assms show ?case by simp
next
  case (Suc n)
  then obtain s where s: "run4 g ai (recordedPicks (take n (questions s0))) s0 = Some s" "quiz_inv s"
    "questions s = questions s0" "\<not> isAnswered s" "\<not> isGameOver s" "currentQIndex s = n"
    "score s = 10 * int n"
    by auto
  from assms(1) have len: "length (questions s0) = 10" by (simp add: quiz_inv_def)
  with Suc.prems have tk: "take (Suc n) (questions s0) = take n (questions s0) @ [questions s0 ! n]"
    by (simp add: take_Suc_conv_app_nth)
  from recorded_round [OF s(2,4,5), of g ai] Suc.prems s(3,6,7) obtain s' where
    s': "run4 g ai [Pick (answerIndex (questions s0 ! n)), Fire] s = Some s'" "quiz_inv s'"
    "questions s' = questions s0" "score s' = 10 * int n + 10"
    "currentQIndex s' = n + 1" "\<not> isAnswered s'" "\<not> isGameOver s'"
    by auto
  have "run4 g ai (recordedPicks (take (Suc n) (questions s0))) s0 = Some s'"
    unfolding tk recordedPicks_append run4_append s(1) using s'(1) by simp
  with s' show ?case by auto
qed

lemma recorded_all:
  assumes "quiz_inv s0" and "\<not> isAnswered s0" and "\<not> isGameOver s0"
    and "currentQIndex s0 = 0" and "score s0 = 0"
  shows "\<exists>s. run4 g ai (recordedPicks (questions s0)) s0 = Some s \<and> quiz_inv s
          \<and> questions s = questions s0 \<and> isGameOver s \<and> currentQIndex s = 9 \<and> score s = 100"
proof -
  from assms(1) have len: "length (questions s0) = 10" by (simp add: quiz_inv_def)
  from recorded_prefix [OF assms, of 9 g ai] obtain s where
    s: "run4 g ai (recordedPicks (take 9 (questions s0))) s0 = Some s" "quiz_inv s"
    "questions s = questions s0" "\<not> isAnswered s" "\<not> isGameOver s" "currentQIndex s = 9"
    "score s = 90"
    by auto
  from len have "take (Suc 9) (questions s0) = take 9 (questions s0) @ [questions s0 ! 9]"
    by (intro take_Suc_conv_app_nth) simp
  with len have all: "questions s0 = take 9 (questions s0) @ [questions s0 ! 9]" by simp
  from recorded_round [OF s(2,4,5), of g ai] s(3,6,7) obtain s' where
    s': "run4 g ai [Pick (answerIndex (questions s0 ! 9)), Fire] s = Some s'" "quiz_inv s'"
    "questions s' = questions s0" "score s' = 100" "currentQIndex s' = 9" "isGameOver s'"
    by auto
  have "run4 g ai (recordedPicks (take 9 (questions s0) @ [questions s0 ! 9])) s0 = Some s'"
    unfolding recordedPicks_append run4_append s(1) using s'(1) by simp
  with all have "run4 g ai (recordedPicks (questions s0)) s0 = Some s'" by simp
  with s' show ?thesis by blast
qed

text \<open>The finished quiz moves only when it is started again.\<close>

lemma game_over_step:
  assumes "quiz_inv s" and "isGameOver s" and "e \<noteq> PlayAgain"
  shows "\<exists>s'. step4 g ai e s = Some s' \<and> quiz_inv s' \<and> isGameOver s'
           \<and> currentQIndex s' = currentQIndex s \<and> questions s' = questions s
           \<and> score s' = score s \<and> isAnswered s'"
proof -
  from assms(1,2) have a: "isAnswered s" "quiz.scheduled s = []" by (simp_all add: quiz_inv_def)
  show ?thesis
  proof (cases e)
    case (Settle k r)
    have "quiz_inv (settle k r s) = quiz_inv s" by (rule quiz_inv_cong) simp_all
    with Settle assms a show ?thesis by simp
  qed (use assms a in \<open>simp_all add: handleAnswer4_def timerEffect4_def\<close>)
qed

lemma game_over_run:
  assumes "PlayAgain \<notin> set es"
  shows "quiz_inv s \<Longrightarrow> isGameOver s \<Longrightarrow>
     \<exists>s'. run4 g ai es s = Some s' \<and> isGameOver s' \<and> currentQIndex s' = currentQIndex s
          \<and> questions s' = questions s \<and> score s' = score s \<and> isAnswered s'"
  using assms
proof (induction es arbitrary: s)
  case Nil
  then show ?case by (simp add: quiz_inv_def)
next
  case (Cons e es)
  from Cons.prems have "e \<noteq> PlayAgain" by auto
  from game_over_step [OF Cons.prems(1,2) this, of g ai] obtain s1 where
    s1: "step4 g ai e s = Some s1" "quiz_inv s1" "isGameOver s1" "currentQIndex s1 = currentQIndex s"
    "questions s1 = questions s" "score s1 = score s" by blast
  from Cons.prems have "PlayAgain \<notin> set es" by simp
  from Cons.IH [OF s1(2,3) this] s1 show ?case by simp
qed

lemma intToString_10: "intToString 10 = ''10''"
  by code_simp

text \<open>Runs of the quiz in which every judged answer is the recorded one, in any interleaving
  with ticks of the countdown, settled feedback calls and ignored clicks.\<close>

lemma all_recorded_step:
  assumes "quiz_inv s"
    and "score s = 10 * (int (currentQIndex s) + (if isAnswered s then 1 else 0))"
    and "isGameOver s \<longrightarrow> currentQIndex s = 9"
    and "case judged e s of None \<Rightarrow> True | Some k \<Rightarrow> k = answerIndex (questions s ! currentQIndex s)"
    and "e \<noteq> PlayAgain" and "step4 g ai e s = Some s'"
  shows "score s' = 10 * (int (currentQIndex s') + (if isAnswered s' then 1 else 0))
         \<and> (isGameOver s' \<longrightarrow> currentQIndex s' = 9)"
proof (cases e)
  case (Pick k)
  show ?thesis
  proof (cases "isAnswered s")
    case True
    with Pick assms show ?thesis by (simp add: handleAnswer4_def)
  next
    case False
    with Pick assms(4) have k: "k = answerIndex (questions s ! currentQIndex s)" by simp
    from assms(1) have "currentQIndex s < length (questions s)" by (simp add: quiz_inv_def)
    with Pick False k assms(2,3,6) show ?thesis
      by (auto simp: handleAnswer4_def Let_def)
  qed
next
  case Countdown
  show ?thesis
  proof (cases "isGameOver s \<or> isAnswered s \<or> quiz.timeLeft s > 0")
    case True
    with Countdown assms(2,3,6) show ?thesis
      by (auto simp: timerEffect4_def split: if_splits)
  next
    case False
    with Countdown assms(4) have "- 1 = answerIndex (questions s ! currentQIndex s)" by simp
    with quiz_inv_index [OF assms(1)] show ?thesis by simp
  qed
next
  case Fire
  show ?thesis
  proof (cases "quiz.scheduled s")
    case Nil
    with Fire assms(2,3,6) show ?thesis by auto
  next
    case (Cons c cs)
    with assms(1) have ngo: "\<not> isGameOver s" by (auto simp: quiz_inv_def split: if_splits)
    with assms(1) Cons have ans: "isAnswered s" by (auto simp: quiz_inv_def split: if_splits)
    from assms(1) Cons ngo ans have c: "seenIndex c = currentQIndex s" "seenLength c = 10"
      by (auto simp: quiz_inv_def)
    from assms(1) have "currentQIndex s < 10" by (simp add: quiz_inv_def)
    with Fire Cons c ans ngo assms(2,6) show ?thesis
      by (auto simp: nextQuestion_def split: if_splits)
  qed
next
  case (Settle k r)
  with assms(2,3,6) show ?thesis by auto
qed (use assms in auto)

lemma all_recorded_run:
  assumes "valid_rng g" and "PlayAgain \<notin> set es"
  shows "quiz_inv s \<Longrightarrow>
     score s = 10 * (int (currentQIndex s) + (if isAnswered s then 1 else 0)) \<Longrightarrow>
     (isGameOver s \<longrightarrow> currentQIndex s = 9) \<Longrightarrow>
     allRecorded g ai es s \<Longrightarrow> run4 g ai es s = Some s' \<Longrightarrow>
     quiz_inv s' \<and> score s' = 10 * (int (currentQIndex s') + (if isAnswered s' then 1 else 0))
     \<and> (isGameOver s' \<longrightarrow> currentQIndex s' = 9)"
  using assms(2)
proof (induction es arbitrary: s)
  case Nil
  then show ?case by simp
next
  case (Cons e es)
  from Cons.prems(4) obtain s1 where s1: "step4 g ai e s = Some s1" "allRecorded g ai es s1"
    and j: "case judged e s of None \<Rightarrow> True | Some k \<Rightarrow> k = answerIndex (questions s ! currentQIndex s)"
    by (auto split: option.splits)
  from Cons.prems(6) have ne: "e \<noteq> PlayAgain" and rest: "PlayAgain \<notin> set es" by auto
  from step4_inv [OF assms(1) Cons.prems(1), of ai e] s1(1) have inv1: "quiz_inv s1" by auto
  from all_recorded_step [OF Cons.prems(1,2,3) j ne s1(1)]
  have k1: "score s1 = 10 * (int (currentQIndex s1) + (if isAnswered s1 then 1 else 0))"
    "isGameOver s1 \<longrightarrow> currentQIndex s1 = 9" by simp_all
  from Cons.prems(5) s1(1) have "run4 g ai es s1 = Some s'" by simp
  from Cons.IH [OF inv1 k1 s1(2) this rest] show ?case .
qed

lemma all_recorded_final:
  assumes "valid_rng g" and "mounted4 g = Some s0" and "PlayAgain \<notin> set es"
    and "allRecorded g ai es s0" and "run4 g ai es s0 = Some s" and "isGameOver s"
  shows "score s = 100 \<and> resultLine s = ''10 / 10''"
proof -
  from mounted4_inv [OF assms(1)] assms(2) have s0: "quiz_inv s0" "score s0 = 0"
    "currentQIndex s0 = 0" "\<not> isGameOver s0" "\<not> isAnswered s0" by auto
  from s0 have "score s0 = 10 * (int (currentQIndex s0) + (if isAnswered s0 then 1 else 0))"
    "isGameOver s0 \<longrightarrow> currentQIndex s0 = 9" by simp_all
  from all_recorded_run [OF assms(1,3) s0(1) this assms(4,5)]
  have s: "quiz_inv s" "score s = 10 * (int (currentQIndex s) + (if isAnswered s then 1 else 0))"
    "isGameOver s \<longrightarrow> currentQIndex s = 9" by simp_all
  from s(1) assms(6) have "isAnswered s" by (simp add: quiz_inv_def)
  with s(2,3) assms(6) have "score s = 100" by simp
  then show ?thesis
    by (simp add: resultLine_def tenthsToString_def intToString_10)
qed

text \<open>
  What holds of the quiz when every question is answered with its recorded index (each
  answer followed by the scheduled \<open>nextQuestion\<close>): the run ends with score 100, the
  result panel shows 10 / 10 and the quiz is over. It is not over before the tenth answer:
  after \<open>n < 10\<close> answers the quiz stands at question \<open>n\<close> with score \<open>10 * n\<close>. More
  generally, every run from mounting that does not restart, in which each index judged is
  the recorded one, and that ends in the finished quiz, ends with score 100 and 10 / 10.
  From the finished quiz no run of events without \<open>PlayAgain\<close> changes the question, the
  score or the finished flag; \<open>PlayAgain\<close> starts a new quiz at question 0 with score 0.
\<close>

lemma recorded_quiz:
  assumes "valid_rng g"
  shows "\<exists>s0 s. mounted4 g = Some s0 \<and> length (recordedPicks (questions s0)) = 20
           \<and> run4 g ai (recordedPicks (questions s0)) s0 = Some s
           \<and> score s = 100 \<and> resultLine s = ''10 / 10'' \<and> isGameOver s
           \<and> (\<forall>n<10. \<exists>sn. run4 g ai (recordedPicks (take n (questions s0))) s0 = Some sn
                 \<and> \<not> isGameOver sn \<and> currentQIndex sn = n \<and> score sn = 10 * int n)
           \<and> (\<forall>es s'. PlayAgain \<notin> set es \<and> allRecorded g ai es s0
                 \<and> run4 g ai es s0 = Some s' \<and> isGameOver s' \<longrightarrow>
                 score s' = 100 \<and> resultLine s' = ''10 / 10'')
           \<and> (\<forall>es. PlayAgain \<notin> set es \<longrightarrow>
                 (\<exists>s'. run4 g ai es s = Some s' \<and> isGameOver s'
                    \<and> currentQIndex s' = currentQIndex s \<and> questions s' = questions s
                    \<and> score s' = 100 \<and> isAnswered s'))
           \<and> (\<exists>s'. step4 g ai PlayAgain s = Some s' \<and> \<not> isGameOver s' \<and> score s' = 0
                 \<and> currentQIndex s' = 0 \<and> \<not> isAnswered s')"
proof -
  from mounted4_inv [OF assms] obtain s0 where
    s0: "mounted4 g = Some s0" "quiz_inv s0" "score s0 = 0" "currentQIndex s0 = 0"
    "\<not> isGameOver s0" "\<not> isAnswered s0" by blast
  from s0(2) have len: "length (recordedPicks (questions s0)) = 20"
    by (simp add: length_recordedPicks quiz_inv_def)
  from recorded_all [OF s0(2,6,5,4,3), of g ai] obtain s where
    s: "run4 g ai (recordedPicks (questions s0)) s0 = Some s" "quiz_inv s" "isGameOver s"
    "currentQIndex s = 9" "score s = 100" by blast
  have line: "resultLine s = ''10 / 10''"
    by (simp add: resultLine_def tenthsToString_def s(5) intToString_10)
  have before: "\<forall>n<10. \<exists>sn. run4 g ai (recordedPicks (take n (questions s0))) s0 = Some sn
                 \<and> \<not> isGameOver sn \<and> currentQIndex sn = n \<and> score sn = 10 * int n"
    using recorded_prefix [OF s0(2,6,5,4,3), of _ g ai] by blast
  have stuck: "\<forall>es. PlayAgain \<notin> set es \<longrightarrow>
                 (\<exists>s'. run4 g ai es s = Some s' \<and> isGameOver s'
                    \<and> currentQIndex s' = currentQIndex s \<and> questions s' = questions s
                    \<and> score s' = 100 \<and> isAnswered s')"
    using game_over_run [OF _ s(2,3), of _ g ai] s(5) by auto
  from s(2,3) have "quiz.scheduled s = []" by (simp add: quiz_inv_def)
  from resetGame_inv [OF assms this] s(3)
  have again: "\<exists>s'. step4 g ai PlayAgain s = Some s' \<and> \<not> isGameOver s' \<and> score s' = 0
                 \<and> currentQIndex s' = 0 \<and> \<not> isAnswered s'"
    by auto
  have general: "\<forall>es s'. PlayAgain \<notin> set es \<and> allRecorded g ai es s0
                 \<and> run4 g ai es s0 = Some s' \<and> isGameOver s' \<longrightarrow>
                 score s' = 100 \<and> resultLine s' = ''10 / 10''"
    using all_recorded_final [OF assms s0(1)] by blast
  from s0(1) len s(1,5,3) line before general stuck again show ?thesis by blast
qed

text \<open>
  C8 fails through the repeated options of C2: the quiz judges the index that is chosen,
  not the text that the option shows, and records one index only. On the run of the random
  source that starts 0, 0, 1/2, 1/4 and goes on with zeros, the first question asks where
  the line y = 1x + 0 meets the y-axis; its options are (0, 0), (0, 1), (0, 0), (0, 0), and
  index 0 is recorded. The nine other questions ask whether y = 1x - 4 rises or falls, and
  index 0 is recorded. A player who chooses the option at index 2 of the first question,
  which shows the correct answer (0, 0), and the recorded option of every other question,
  has given ten correct answers; the quiz ends with score 90 and shows 9 / 10.
\<close>

theorem duplicate_answer_scores_ninety:
  "map_option (prompt \<circ> hd \<circ> questions) (mounted4 (draws [0, 0, 1/2, 1/4]))
     = Some (promptYAxis4 (questionTextOf 1 0))
   \<and> map_option (quiz_question.options \<circ> hd \<circ> questions) (mounted4 (draws [0, 0, 1/2, 1/4]))
     = Some [''(0, 0)'', ''(0, 1)'', ''(0, 0)'', ''(0, 0)'']
   \<and> map_option (map answerIndex \<circ> questions) (mounted4 (draws [0, 0, 1/2, 1/4]))
     = Some [0, 0, 0, 0, 0, 0, 0, 0, 0, 0]
   \<and> map_option (map prompt \<circ> tl \<circ> questions) (mounted4 (draws [0, 0, 1/2, 1/4]))
     = Some (replicate 9 (promptMonotone4 (questionTextOf 1 (- 4))))
   \<and> map_option isGameOver (Option.bind (mounted4 (draws [0, 0, 1/2, 1/4]))
        (run4 (draws [0, 0, 1/2, 1/4]) False
           (Pick 2 # Fire # concat (replicate 9 [Pick 0, Fire])))) = Some True
   \<and> map_option score (Option.bind (mounted4 (draws [0, 0, 1/2, 1/4]))
        (run4 (draws [0, 0, 1/2, 1/4]) False
           (Pick 2 # Fire # concat (replicate 9 [Pick 0, Fire])))) = Some 90
   \<and> map_option resultLine (Option.bind (mounted4 (draws [0, 0, 1/2, 1/4]))
        (run4 (draws [0, 0, 1/2, 1/4]) False
           (Pick 2 # Fire # concat (replicate 9 [Pick 0, Fire])))) = Some ''9 / 10''
   \<and> valid_rng (draws [0, 0, 1/2, 1/4])"
proof -
  have "map_option (prompt \<circ> hd \<circ> questions) (mounted4 (draws [0, 0, 1/2, 1/4]))
     = Some (promptYAxis4 (questionTextOf 1 0))"
    by code_simp
  moreover have "map_option (quiz_question.options \<circ> hd \<circ> questions)
       (mounted4 (draws [0, 0, 1/2, 1/4]))
     = Some [''(0, 0)'', ''(0, 1)'', ''(0, 0)'', ''(0, 0)'']"
    by code_simp
  moreover have "map_option (map answerIndex \<circ> questions) (mounted4 (draws [0, 0, 1/2, 1/4]))
     = Some [0, 0, 0, 0, 0, 0, 0, 0, 0, 0]"
    by code_simp
  moreover have "map_option (map prompt \<circ> tl \<circ> questions) (mounted4 (draws [0, 0, 1/2, 1/4]))
     = Some (replicate 9 (promptMonotone4 (questionTextOf 1 (- 4))))"
    by code_simp
  moreover have "map_option isGameOver (Option.bind (mounted4 (draws [0, 0, 1/2, 1/4]))
        (run4 (draws [0, 0, 1/2, 1/4]) False
           (Pick 2 # Fire # concat (replicate 9 [Pick 0, Fire])))) = Some True"
    by code_simp
  moreover have "map_option score (Option.bind (mounted4 (draws [0, 0, 1/2, 1/4]))
        (run4 (draws [0, 0, 1/2, 1/4]) False
           (Pick 2 # Fire # concat (replicate 9 [Pick 0, Fire])))) = Some 90"
    by code_simp
  moreover have "map_option resultLine (Option.bind (mounted4 (draws [0, 0, 1/2, 1/4]))
        (run4 (draws [0, 0, 1/2, 1/4]) False
           (Pick 2 # Fire # concat (replicate 9 [Pick 0, Fire])))) = Some ''9 / 10''"
    by code_simp
  moreover have "valid_rng (draws [0, 0, 1/2, 1/4])"
    by (rule valid_draws) simp
  ultimately show ?thesis by (intro conjI)
qed

text \<open>
  C4. In game 1, when the countdown effect runs with no time left on an unanswered
  question, it is a submission with the timeout flag: the score stays, the question is
  locked, \<open>generateQuestion\<close> is scheduled and the feedback asked for is of the kind
  incorrect, whatever the input field holds; an explicit submission of a wrong value gives
  the same score, lock, schedule and feedback state, and differs in the prompt only. In
  game 4, in every state the quiz reaches, the effect answers with index -1, which is no
  question's recorded index: the score stays, the question is locked, \<open>nextQuestion\<close> is
  scheduled, and choosing any wrong option gives the same state but for the option shown as
  selected.
\<close>

theorem timeout_is_incorrect:
  assumes "valid_rng g"
    and "\<not> isAnswered s1" and "game1.question s1 = Some q" and "game1.timeLeft s1 \<le> 0"
    and "mounted4 g = Some s0" and "run4 g ai es s0 = Some s4"
    and "\<not> isAnswered s4" and "\<not> isGameOver s4" and "quiz.timeLeft s4 \<le> 0"
  shows "timerEffect1 ai s1 = handleSubmit ai True s1
         \<and> score (handleSubmit ai True s1) = score s1
         \<and> isAnswered (handleSubmit ai True s1)
         \<and> game1.scheduled (handleSubmit ai True s1) = game1.scheduled s1 + 1
         \<and> awaiting (handleSubmit ai True s1)
             = awaiting s1 @ (if ai then [(promptIncorrect1 q timeoutText, Incorrect)] else [])
         \<and> type (feedback (aiFeedback (handleSubmit ai True s1))) = ''incorrect''
         \<and> (parseInt (inputValue s1) \<noteq> Some (q_y q) \<longrightarrow>
               score (handleSubmit ai False s1) = score (handleSubmit ai True s1)
               \<and> isAnswered (handleSubmit ai False s1)
               \<and> game1.scheduled (handleSubmit ai False s1)
                   = game1.scheduled (handleSubmit ai True s1)
               \<and> aiFeedback (handleSubmit ai False s1) = aiFeedback (handleSubmit ai True s1)
               \<and> map snd (awaiting (handleSubmit ai False s1))
                   = map snd (awaiting (handleSubmit ai True s1)))
         \<and> timerEffect4 s4 = handleAnswer4 (- 1) s4
         \<and> (\<exists>s'. handleAnswer4 (- 1) s4 = Some s' \<and> score s' = score s4 \<and> isAnswered s'
               \<and> quiz.scheduled s'
                   = [\<lparr>seenIndex = currentQIndex s4, seenLength = 10, seenScore = score s4\<rparr>]
               \<and> (\<forall>k. k \<noteq> answerIndex (questions s4 ! currentQIndex s4) \<longrightarrow>
                     handleAnswer4 k s4 = Some (s'\<lparr>quiz.selectedOption := Some k\<rparr>)))"
proof -
  have g1: "timerEffect1 ai s1 = handleSubmit ai True s1"
    using assms(2,4) by (simp add: timerEffect1_def)
  have t: "score (handleSubmit ai True s1) = score s1" "isAnswered (handleSubmit ai True s1)"
    "game1.scheduled (handleSubmit ai True s1) = game1.scheduled s1 + 1"
    "awaiting (handleSubmit ai True s1)
       = awaiting s1 @ (if ai then [(promptIncorrect1 q timeoutText, Incorrect)] else [])"
    "type (feedback (aiFeedback (handleSubmit ai True s1))) = ''incorrect''"
    using assms(2,3) by (simp_all add: handleSubmit_def Let_def callGetFeedback_def beforeAwait_def)
  have cmp: "score (handleSubmit ai False s1) = score (handleSubmit ai True s1)
               \<and> isAnswered (handleSubmit ai False s1)
               \<and> game1.scheduled (handleSubmit ai False s1)
                   = game1.scheduled (handleSubmit ai True s1)
               \<and> aiFeedback (handleSubmit ai False s1) = aiFeedback (handleSubmit ai True s1)
               \<and> map snd (awaiting (handleSubmit ai False s1))
                   = map snd (awaiting (handleSubmit ai True s1))"
    if "parseInt (inputValue s1) \<noteq> Some (q_y q)"
    using assms(2,3) that by (simp add: handleSubmit_def Let_def callGetFeedback_def beforeAwait_def)
  from mounted4_inv [OF assms(1)] assms(5) have "quiz_inv s0" by auto
  from run4_inv [OF assms(1) this, of ai es] assms(6) have inv: "quiz_inv s4" by auto
  then have len: "length (questions s4) = 10" and idx: "currentQIndex s4 < 10"
    by (simp_all add: quiz_inv_def)
  from inv assms(7,8) have sch: "quiz.scheduled s4 = []" by (simp add: quiz_inv_def)
  from quiz_inv_index [OF inv] have ne: "- 1 \<noteq> answerIndex (questions s4 ! currentQIndex s4)"
    by simp
  have g4: "timerEffect4 s4 = handleAnswer4 (- 1) s4"
    using assms(7,8,9) by (simp add: timerEffect4_def)
  define s' where "s' = s4\<lparr>isAnswered := True, quiz.selectedOption := Some (- 1),
      quiz.scheduled := [\<lparr>seenIndex = currentQIndex s4, seenLength = 10, seenScore = score s4\<rparr>]\<rparr>"
  have h: "handleAnswer4 (- 1) s4 = Some s'"
    using assms(7) len idx sch ne by (simp add: handleAnswer4_def Let_def s'_def)
  have wrong: "handleAnswer4 k s4 = Some (s'\<lparr>quiz.selectedOption := Some k\<rparr>)"
    if "k \<noteq> answerIndex (questions s4 ! currentQIndex s4)" for k
    using assms(7) len idx sch that by (simp add: handleAnswer4_def Let_def s'_def)
  have "\<exists>s'. handleAnswer4 (- 1) s4 = Some s' \<and> score s' = score s4 \<and> isAnswered s'
               \<and> quiz.scheduled s'
                   = [\<lparr>seenIndex = currentQIndex s4, seenLength = 10, seenScore = score s4\<rparr>]
               \<and> (\<forall>k. k \<noteq> answerIndex (questions s4 ! currentQIndex s4) \<longrightarrow>
                     handleAnswer4 k s4 = Some (s'\<lparr>quiz.selectedOption := Some k\<rparr>))"
    using h wrong by (intro exI [of _ s']) (simp add: s'_def)
  with g1 t cmp g4 show ?thesis by blast
qed

theorem timeout_is_incorrect_witness:
  "parseInt ''10'' = Some (q_y (fst (drawQuestion1 (draws [25/38, 15/38, 19/22]) 0)))
   \<and> score (timerEffect1 False
        ((mounted1 (draws [25/38, 15/38, 19/22]))\<lparr>game1.timeLeft := 0, inputValue := ''10''\<rparr>)) = 0
   \<and> isAnswered (handleSubmit False True
        ((mounted1 (draws [25/38, 15/38, 19/22]))\<lparr>game1.timeLeft := 0, inputValue := ''10''\<rparr>))
   \<and> (\<exists>s4. Option.bind (mounted4 (draws [])) (run4 (draws []) False (replicate 15 Countdown))
              = Some s4
         \<and> quiz.timeLeft s4 = 0 \<and> timerEffect4 s4 = handleAnswer4 (- 1) s4
         \<and> (\<exists>s'. handleAnswer4 (- 1) s4 = Some s' \<and> score s' = score s4 \<and> isAnswered s'))"
proof -
  let ?g1 = "draws [25/38, 15/38, 19/22]"
  let ?s1 = "(mounted1 ?g1)\<lparr>game1.timeLeft := 0, inputValue := ''10''\<rparr>"
  let ?q = "fst (drawQuestion1 ?g1 0)"
  have v: "valid_rng (draws [])"
    by (rule valid_draws) simp
  have p: "parseInt ''10'' = Some (q_y ?q)"
    by code_simp
  have a1: "\<not> isAnswered ?s1" and q1: "game1.question ?s1 = Some ?q" and t1: "game1.timeLeft ?s1 \<le> 0"
    by (simp_all add: mounted1_def generateQuestion1_def initial1_def split: prod.splits)
  have "map_option quiz.timeLeft
      (Option.bind (mounted4 (draws [])) (run4 (draws []) False (replicate 15 Countdown))) = Some 0"
    by code_simp
  moreover have "map_option isAnswered
      (Option.bind (mounted4 (draws [])) (run4 (draws []) False (replicate 15 Countdown))) = Some False"
    by code_simp
  moreover have "map_option isGameOver
      (Option.bind (mounted4 (draws [])) (run4 (draws []) False (replicate 15 Countdown))) = Some False"
    by code_simp
  ultimately obtain s0 s4 where m: "mounted4 (draws []) = Some s0"
    and r: "run4 (draws []) False (replicate 15 Countdown) s0 = Some s4"
    and f: "quiz.timeLeft s4 = 0" "\<not> isAnswered s4" "\<not> isGameOver s4"
    by (cases "mounted4 (draws [])") auto
  from f(1) have t4: "quiz.timeLeft s4 \<le> 0" by simp
  note w = timeout_is_incorrect [OF v a1 q1 t1 m r f(2,3) t4]
  from m r have "Option.bind (mounted4 (draws [])) (run4 (draws []) False (replicate 15 Countdown))
              = Some s4" by simp
  moreover from w have "score (timerEffect1 False ?s1) = score ?s1" by simp
  moreover have "score ?s1 = 0"
    by (simp add: mounted1_def generateQuestion1_def initial1_def split: prod.splits)
  ultimately show ?thesis using p w f(1) by auto
qed

end
